(* ===== verification/Prelude.thy ===== *)
theory Prelude
  imports Complex_Main "HOL-Library.Word" "HOL-Library.Sublist"
begin

text \<open>
  Shared vocabulary of the development.
  \<^item> JavaScript strings are sequences of UTF-16 code units: \<open>jstring\<close> is a list of
    \<open>16 word\<close>; \<open>js\<close> turns an ASCII literal of the source into its code units.
  \<^item> A JavaScript statement sequence that may throw is a value of \<open>('e, 's) outcome\<close>:
    \<open>Ok s\<close> when it completes, \<open>Exc e s\<close> when it throws \<open>e\<close>. The state is kept in
    both cases, because an assignment to a field of \<open>this\<close> made before the throw is not
    undone. \<open>obind\<close> sequences two such fragments.
  \<^item> \<open>exn\<close> names the exceptions that the modelled code can raise.
  \<^item> The collections \<open>js_simps\<close> (evaluation of the JavaScript value model) and
    \<open>handler_simps\<close> (unfolding of the component's handlers) carry the component
    proofs.
\<close>

named_theorems js_simps "evaluation rules of the JavaScript value model"
named_theorems handler_simps "unfolding rules of the component's handlers"

section \<open>Strings as UTF-16 code units\<close>

type_synonym code_unit = "16 word"
type_synonym jstring = "code_unit list"

definition js :: "string \<Rightarrow> jstring" where
  "js s = map (\<lambda>c. of_nat (of_char c)) s"

lemma js_Nil [simp]: "js [] = []"
  by (simp add: js_def)

lemma js_Cons [simp]: "js (c # s) = of_nat (of_char c) # js s"
  by (simp add: js_def)

lemma js_append [simp]: "js (s @ t) = js s @ js t"
  by (simp add: js_def)

lemma length_js [simp]: "length (js s) = length s"
  by (simp add: js_def)

lemma of_char_code_unit_inj:
  "((of_nat (of_char c) :: code_unit) = of_nat (of_char d)) \<longleftrightarrow> c = d"
proof -
  have "of_char c < (65536::nat)" and "of_char d < (65536::nat)"
    using nat_of_char_less_256 [of c] nat_of_char_less_256 [of d] by linarith+
  then have "of_char c < (2::nat) ^ LENGTH(16)" and "of_char d < (2::nat) ^ LENGTH(16)"
    by simp_all
  then have "((of_nat (of_char c) :: code_unit) = of_nat (of_char d)) \<longleftrightarrow>
      (of_char c :: nat) = of_char d"
    by (simp add: word_of_nat_eq_iff take_bit_nat_eq_self)
  then show ?thesis by simp
qed

lemma js_inj [simp]: "js s = js t \<longleftrightarrow> s = t"
proof (induction s arbitrary: t)
  case Nil
  then show ?case by (cases t) auto
next
  case (Cons c s)
  then show ?case by (cases t) (auto simp: of_char_code_unit_inj)
qed

section \<open>Exceptions and statement sequences that may throw\<close>

datatype exn =
    SyntaxError   \<comment> \<open>\<open>JSON.parse\<close> on text that is not JSON\<close>
  | TypeError     \<comment> \<open>reading a property of \<open>null\<close> or \<open>undefined\<close>\<close>
  | MapRejected   \<comment> \<open>the map library threw on a call\<close>
  | InvalidState  \<comment> \<open>the MQTT client used while not connected\<close>
  | InvalidArgument \<comment> \<open>an MQTT payload that is not a string\<close>

datatype ('e, 's) outcome = Ok 's | Exc 'e 's

primrec ostate :: "('e, 's) outcome \<Rightarrow> 's" where
  "ostate (Ok s) = s"
| "ostate (Exc e s) = s"

primrec raised :: "('e, 's) outcome \<Rightarrow> 'e option" where
  "raised (Ok s) = None"
| "raised (Exc e s) = Some e"

definition obind :: "('e, 's) outcome \<Rightarrow> ('s \<Rightarrow> ('e, 's) outcome) \<Rightarrow> ('e, 's) outcome" where
  "obind m f = (case m of Ok s \<Rightarrow> f s | Exc e s \<Rightarrow> Exc e s)"

lemma obind_Ok [simp]: "obind (Ok s) f = f s"
  by (simp add: obind_def)

lemma obind_Exc [simp]: "obind (Exc e s) f = Exc e s"
  by (simp add: obind_def)

lemma obind_assoc: "obind (obind m f) g = obind m (\<lambda>s. obind (f s) g)"
  by (cases m) simp_all

lemma obind_eq_Ok:
  "obind m f = Ok t \<longleftrightarrow> (\<exists>s. m = Ok s \<and> f s = Ok t)"
  by (cases m) simp_all

lemma obind_eq_Exc:
  "obind m f = Exc e t \<longleftrightarrow> m = Exc e t \<or> (\<exists>s. m = Ok s \<and> f s = Exc e t)"
  by (cases m) auto

text \<open>
  A property of the state that every fragment of a sequence keeps, whether the fragment
  completes or throws, holds of the state the whole sequence leaves.
\<close>

lemma obind_ostate_preserve:
  assumes "P (ostate m)"
    and "\<And>s. m = Ok s \<Longrightarrow> P s \<Longrightarrow> P (ostate (f s))"
  shows "P (ostate (obind m f))"
  using assms by (cases m) simp_all

end
