(* ===== verification/JsValue.thy ===== *)
theory JsValue
  imports Prelude
begin

text \<open>
  The JavaScript values that flow through the component: what \<open>JSON.parse\<close> returns
  and what the fields \<open>lastX\<close>, \<open>lastY\<close> and \<open>data\<close> of \<open>MapComponent\<close> hold. The
  operations are the ones the source applies to such values:
  \<^item> \<open>to_number\<close> is ToNumber (\<open>Number(x)\<close> in \<open>getLine\<close> and \<open>mqttMarker\<close>), with
    \<open>string_to_number\<close> the StringToNumber grammar of ECMAScript;
  \<^item> \<open>number_to_string\<close> is Number::toString, \<open>to_str\<close> is ToString;
  \<^item> \<open>loose_eq_num x n\<close> is the loose equality \<open>x == n\<close> against a number, the test
    \<open>this.lastX==0 && this.lastY==0\<close> of \<open>getLine\<close> and \<open>getStreetLine\<close>;
  \<^item> \<open>get_prop\<close> is a property read \<open>v.key\<close> (\<open>mqttData.Latitude\<close>).
  Numbers are exact decimals \<open>Fin m e\<close> (the value \<open>m \<cdot> 10^e\<close>) and the three
  non-finite values; the rounding of IEEE doubles and the sign of zero are not modelled
  (no claim depends on them: the code only compares with 0 and passes numbers on).
\<close>

section \<open>Numbers\<close>

datatype jsnum = NaN | PosInf | NegInf | Fin int int

abbreviation zero :: jsnum where
  "zero \<equiv> Fin 0 0"

text \<open>Stripping trailing decimal zeros gives the canonical representation of a value.\<close>

function norm_dec :: "int \<Rightarrow> int \<Rightarrow> int \<times> int" where
  "norm_dec m e =
     (if m = 0 then (0, 0)
      else if m mod 10 = 0 then norm_dec (m div 10) (e + 1)
      else (m, e))"
  by pat_completeness auto
termination
proof (relation "measure (\<lambda>(m, e). nat \<bar>m\<bar>)")
  fix m e :: int
  assume "m \<noteq> 0" and "m mod 10 = 0"
  then obtain k where "m = 10 * k" and "k \<noteq> 0" by (auto elim!: dvdE simp: mod_0_imp_dvd)
  then show "((m div 10, e + 1), m, e) \<in> measure (\<lambda>(m, e). nat \<bar>m\<bar>)" by (simp add: abs_mult)
qed simp

declare norm_dec.simps [simp del]

definition fin :: "int \<Rightarrow> int \<Rightarrow> jsnum" where
  "fin m e = (case norm_dec m e of (m', e') \<Rightarrow> Fin m' e')"

fun canonical :: "jsnum \<Rightarrow> bool" where
  "canonical (Fin m e) = (if m = 0 then e = 0 else \<not> 10 dvd m)"
| "canonical _ = True"

definition dec_value :: "int \<Rightarrow> int \<Rightarrow> rat" where
  "dec_value m e = of_int m * 10 powi e"

text \<open>Number equality (\<open>Number::equal\<close>): NaN equals nothing, finite values by value.\<close>

fun num_eq :: "jsnum \<Rightarrow> jsnum \<Rightarrow> bool" where
  "num_eq (Fin m e) (Fin m' e') = (norm_dec m e = norm_dec m' e')"
| "num_eq PosInf PosInf = True"
| "num_eq NegInf NegInf = True"
| "num_eq _ _ = False"

fun neg_num :: "jsnum \<Rightarrow> jsnum" where
  "neg_num NaN = NaN"
| "neg_num PosInf = NegInf"
| "neg_num NegInf = PosInf"
| "neg_num (Fin m e) = Fin (- m) e"

subsection \<open>Digits\<close>

definition is_digit :: "code_unit \<Rightarrow> bool" where
  "is_digit c \<longleftrightarrow> 0x30 \<le> c \<and> c \<le> 0x39"

definition digit_value :: "code_unit \<Rightarrow> int" where
  "digit_value c = uint c - 0x30"

definition is_hex_digit :: "code_unit \<Rightarrow> bool" where
  "is_hex_digit c \<longleftrightarrow> is_digit c \<or> (0x41 \<le> c \<and> c \<le> 0x46) \<or> (0x61 \<le> c \<and> c \<le> 0x66)"

definition hex_value :: "code_unit \<Rightarrow> int" where
  "hex_value c =
     (if is_digit c then digit_value c
      else if c \<le> 0x46 then uint c - 0x41 + 10 else uint c - 0x61 + 10)"

text \<open>The value of a digit string in base \<open>b\<close>, accumulated from the left.\<close>

fun radix_value :: "int \<Rightarrow> (code_unit \<Rightarrow> int) \<Rightarrow> int \<Rightarrow> jstring \<Rightarrow> int" where
  "radix_value b val acc [] = acc"
| "radix_value b val acc (c # cs) = radix_value b val (b * acc + val c) cs"

abbreviation digits_value :: "jstring \<Rightarrow> int" where
  "digits_value ds \<equiv> radix_value 10 digit_value 0 ds"

text \<open>The decimal digits of a natural number, most significant first.\<close>

fun dec_digits :: "nat \<Rightarrow> jstring" where
  "dec_digits n = (if n < 10 then [of_nat (48 + n)] else dec_digits (n div 10) @ [of_nat (48 + n mod 10)])"

declare dec_digits.simps [simp del]

subsection \<open>StringToNumber\<close>

text \<open>White space and line terminators of ECMAScript (StrWhiteSpaceChar).\<close>

definition is_str_ws :: "code_unit \<Rightarrow> bool" where
  "is_str_ws c \<longleftrightarrow>
     c \<in> {0x09, 0x0A, 0x0B, 0x0C, 0x0D, 0x20, 0xA0, 0x1680, 0x2028, 0x2029, 0x202F, 0x205F,
          0x3000, 0xFEFF} \<or> (0x2000 \<le> c \<and> c \<le> 0x200A)"

definition trim_ws :: "jstring \<Rightarrow> jstring" where
  "trim_ws s = rev (dropWhile is_str_ws (rev (dropWhile is_str_ws s)))"

text \<open>
  An optional exponent part: empty, or \<open>e\<close>/\<open>E\<close>, an optional sign and at least one
  digit, with nothing after it. The result is the exponent's value.
\<close>

definition exponent_part :: "jstring \<Rightarrow> int option" where
  "exponent_part r =
     (case r of
        [] \<Rightarrow> Some 0
      | c # r1 \<Rightarrow>
          if c = 0x65 \<or> c = 0x45 then
            (let (sg, ds) = (case r1 of
                               d # r2 \<Rightarrow> if d = 0x2B then (1, r2)
                                         else if d = 0x2D then (-1, r2) else (1, r1)
                             | [] \<Rightarrow> (1, []))
             in if ds \<noteq> [] \<and> list_all is_digit ds then Some (sg * digits_value ds) else None)
          else None)"

text \<open>
  StrUnsignedDecimalLiteral without \<open>Infinity\<close>: digits, an optional point with optional
  digits, or a point with digits; then an optional exponent. The result is the
  mantissa and the decimal exponent.
\<close>

definition scan_unsigned_decimal :: "jstring \<Rightarrow> (int \<times> int) option" where
  "scan_unsigned_decimal s =
     (let ip = takeWhile is_digit s; r1 = dropWhile is_digit s;
          (fp, r2) = (case r1 of
                        c # r \<Rightarrow> if c = 0x2E then (takeWhile is_digit r, dropWhile is_digit r)
                                 else ([], r1)
                      | [] \<Rightarrow> ([], []))
      in if ip = [] \<and> fp = [] then None
         else case exponent_part r2 of
                None \<Rightarrow> None
              | Some x \<Rightarrow> Some (digits_value (ip @ fp), x - int (length fp)))"

definition unsigned_literal :: "jstring \<Rightarrow> jsnum" where
  "unsigned_literal r =
     (if r = js ''Infinity'' then PosInf
      else case scan_unsigned_decimal r of None \<Rightarrow> NaN | Some (m, e) \<Rightarrow> fin m e)"

definition decimal_literal :: "jstring \<Rightarrow> jsnum" where
  "decimal_literal t =
     (case t of
        [] \<Rightarrow> NaN
      | c # r \<Rightarrow> if c = 0x2B then unsigned_literal r
                 else if c = 0x2D then neg_num (unsigned_literal r)
                 else unsigned_literal t)"

definition radix_literal :: "int \<Rightarrow> (code_unit \<Rightarrow> bool) \<Rightarrow> (code_unit \<Rightarrow> int) \<Rightarrow> jstring \<Rightarrow> jsnum" where
  "radix_literal b ok val r =
     (if r \<noteq> [] \<and> list_all ok r then fin (radix_value b val 0 r) 0 else NaN)"

definition string_to_number :: "jstring \<Rightarrow> jsnum" where
  "string_to_number s =
     (let t = trim_ws s in
      if t = [] then zero
      else case t of
             c # d # r \<Rightarrow>
               if c = 0x30 \<and> (d = 0x78 \<or> d = 0x58) then radix_literal 16 is_hex_digit hex_value r
               else if c = 0x30 \<and> (d = 0x6F \<or> d = 0x4F)
               then radix_literal 8 (\<lambda>c. 0x30 \<le> c \<and> c \<le> 0x37) digit_value r
               else if c = 0x30 \<and> (d = 0x62 \<or> d = 0x42)
               then radix_literal 2 (\<lambda>c. c = 0x30 \<or> c = 0x31) digit_value r
               else decimal_literal t
           | _ \<Rightarrow> decimal_literal t)"

subsection \<open>Number::toString\<close>

text \<open>
  The ECMAScript rule for a finite value \<open>s \<cdot> 10^(n-k)\<close> with \<open>k\<close> digits \<open>s\<close>
  as few as possible: plain digits with zeros when \<open>k \<le> n \<le> 21\<close>, a point inside
  when \<open>0 < n \<le> 21\<close>, a leading \<open>0.\<close> when \<open>-6 < n \<le> 0\<close>, and exponent notation
  otherwise. The argument is the canonical mantissa and exponent.
\<close>

definition pos_to_string :: "nat \<Rightarrow> int \<Rightarrow> jstring" where
  "pos_to_string k e =
     (let ds = dec_digits k; len = int (length ds); n = len + e in
      if len \<le> n \<and> n \<le> 21 then ds @ replicate (nat (n - len)) 0x30
      else if 0 < n \<and> n \<le> 21 then take (nat n) ds @ 0x2E # drop (nat n) ds
      else if -6 < n \<and> n \<le> 0 then [0x30, 0x2E] @ replicate (nat (- n)) 0x30 @ ds
      else (let x = n - 1 in
            (case ds of d # rest \<Rightarrow> if rest = [] then [d] else d # 0x2E # rest | [] \<Rightarrow> [])
            @ 0x65 # (if x < 0 then 0x2D else 0x2B) # dec_digits (nat \<bar>x\<bar>)))"

fun number_to_string :: "jsnum \<Rightarrow> jstring" where
  "number_to_string NaN = js ''NaN''"
| "number_to_string PosInf = js ''Infinity''"
| "number_to_string NegInf = js ''-Infinity''"
| "number_to_string (Fin m e) =
     (if m = 0 then js ''0''
      else if m < 0 then 0x2D # pos_to_string (nat (- m)) e
      else pos_to_string (nat m) e)"

section \<open>Values\<close>

datatype jsval =
    JUndefined
  | JNull
  | JBool bool
  | JNumber jsnum
  | JString jstring
  | JArray "jsval list"
  | JObject "(jstring \<times> jsval) list"

fun join_comma :: "jstring list \<Rightarrow> jstring" where
  "join_comma [] = []"
| "join_comma [x] = x"
| "join_comma (x # xs) = x @ 0x2C # join_comma xs"

text \<open>
  ToString. An array is joined with commas, \<open>undefined\<close> and \<open>null\<close> elements
  giving the empty string (\<open>Array.prototype.join\<close>); a plain object is
  \<open>"[object Object]"\<close>.
\<close>

fun to_str :: "jsval \<Rightarrow> jstring" where
  "to_str JUndefined = js ''undefined''"
| "to_str JNull = js ''null''"
| "to_str (JBool b) = (if b then js ''true'' else js ''false'')"
| "to_str (JNumber n) = number_to_string n"
| "to_str (JString s) = s"
| "to_str (JArray vs) =
     join_comma (map (\<lambda>v. if v = JUndefined \<or> v = JNull then [] else to_str v) vs)"
| "to_str (JObject ps) = js ''[object Object]''"

text \<open>ToNumber; an array or object is first turned into a primitive, its string.\<close>

fun to_number :: "jsval \<Rightarrow> jsnum" where
  "to_number JUndefined = NaN"
| "to_number JNull = zero"
| "to_number (JBool b) = (if b then Fin 1 0 else zero)"
| "to_number (JNumber n) = n"
| "to_number (JString s) = string_to_number s"
| "to_number (JArray vs) = string_to_number (to_str (JArray vs))"
| "to_number (JObject ps) = NaN"

text \<open>
  IsLooselyEqual(\<open>x\<close>, \<open>y\<close>) for a number \<open>y\<close>, case by case as the ECMAScript
  algorithm: \<open>undefined\<close> and \<open>null\<close> equal no number; a string or a Boolean is
  converted to a number; an object is converted to a primitive (its string) first.
\<close>

fun loose_eq_num :: "jsval \<Rightarrow> jsnum \<Rightarrow> bool" where
  "loose_eq_num JUndefined y = False"
| "loose_eq_num JNull y = False"
| "loose_eq_num (JBool b) y = num_eq (if b then Fin 1 0 else zero) y"
| "loose_eq_num (JNumber n) y = num_eq n y"
| "loose_eq_num (JString s) y = num_eq (string_to_number s) y"
| "loose_eq_num (JArray vs) y = num_eq (string_to_number (to_str (JArray vs))) y"
| "loose_eq_num (JObject ps) y = num_eq (string_to_number (js ''[object Object]'')) y"

text \<open>
  A property read \<open>v.k\<close>: a \<open>TypeError\<close> on \<open>undefined\<close> and \<open>null\<close>, the
  own property of an object (\<open>undefined\<close> when it has none). Any other value has no
  own property of that name: the model is exact for a key that is neither \<open>length\<close>, an
  array index, nor a member of a built-in prototype, as \<open>Latitude\<close> and
  \<open>Longitude\<close>, the keys the component reads.
\<close>

fun get_prop :: "jsval \<Rightarrow> jstring \<Rightarrow> exn + jsval" where
  "get_prop JUndefined k = Inl TypeError"
| "get_prop JNull k = Inl TypeError"
| "get_prop (JObject ps) k = Inr (case map_of ps k of None \<Rightarrow> JUndefined | Some v \<Rightarrow> v)"
| "get_prop v k = Inr JUndefined"

text \<open>
  An index read \<open>v[i]\<close>: a \<open>TypeError\<close> on \<open>undefined\<close> and \<open>null\<close>; an
  element of an array or a code unit of a string, \<open>undefined\<close> past the end; the
  property named by the index's decimal digits of an object.
\<close>

fun get_index :: "jsval \<Rightarrow> nat \<Rightarrow> exn + jsval" where
  "get_index JUndefined i = Inl TypeError"
| "get_index JNull i = Inl TypeError"
| "get_index (JArray vs) i = Inr (if i < length vs then vs ! i else JUndefined)"
| "get_index (JString s) i = Inr (if i < length s then JString [s ! i] else JUndefined)"
| "get_index (JObject ps) i = get_prop (JObject ps) (dec_digits i)"
| "get_index v i = Inr JUndefined"

section \<open>Number equality and the loose test against a number\<close>

lemma div_ten_zero: "(m::int) mod 10 = 0 \<Longrightarrow> m div 10 = 0 \<Longrightarrow> m = 0"
  using div_mult_mod_eq [of m 10] by simp

lemma norm_dec_fst_zero: "fst (norm_dec m e) = 0 \<longleftrightarrow> m = 0"
  by (induction m e rule: norm_dec.induct) (subst norm_dec.simps, auto dest: div_ten_zero)

text \<open>A number equals \<open>0\<close> exactly when it is a finite number with mantissa 0.\<close>

lemma num_eq_zero: "num_eq n zero \<longleftrightarrow> (\<exists>e. n = Fin 0 e)"
proof (cases n)
  case (Fin m e)
  have "norm_dec m e = (0, 0) \<longleftrightarrow> m = 0"
    using norm_dec_fst_zero [of m e] by (metis norm_dec.simps prod.sel(1))
  with Fin show ?thesis by (simp add: norm_dec.simps)
qed simp_all

lemma string_to_number_object: "string_to_number (js ''[object Object]'') = NaN"
  by (simp add: string_to_number_def trim_ws_def is_str_ws_def decimal_literal_def unsigned_literal_def
      scan_unsigned_decimal_def is_digit_def)

text \<open>\<open>x == n\<close> for a number \<open>n\<close> is \<open>Number(x) == n\<close>, except that \<open>undefined\<close> and
  \<open>null\<close> equal no number (although \<open>Number(null)\<close> is 0).\<close>

lemma loose_eq_num_to_number:
  "loose_eq_num v n \<longleftrightarrow> v \<noteq> JUndefined \<and> v \<noteq> JNull \<and> num_eq (to_number v) n"
  by (cases v) (simp_all add: string_to_number_object [simplified])

text \<open>A property read raises nothing but a \<open>TypeError\<close>.\<close>

lemma get_prop_Inl: "get_prop v k = Inl e \<Longrightarrow> e = TypeError"
  by (cases v) simp_all

end
