(* ===== verification/Component.thy ===== *)
theory Component
  imports JsValue
begin

text \<open>
  The state of \<open>MapComponent\<close> (src/map Linux/src/app/map/map.component.ts) and its
  interface to the map library (Leaflet and leaflet-routing-machine).
  \<^item> \<open>map_component\<close> holds the fields the handlers read and write: \<open>lastX\<close>,
    \<open>lastY\<close>, \<open>data\<close>, \<open>messages\<close>, \<open>mqttData\<close>, and \<open>surface\<close>, the calls made on
    the map surface so far, oldest first (the layers added to \<open>this.map\<close>, the moves of
    \<open>this.nowMarker\<close>, zoom and pan). The MQTT client is added by the record extension of
    the session theory.
  \<^item> A call on the library is a \<open>map_call\<close>. Whether the library accepts a call or throws
    is not the component's business: every handler takes the library's behaviour as a
    parameter \<open>lib :: map_lib\<close>, and \<open>call lib c\<close> appends \<open>c\<close> to the surface when
    \<open>lib c\<close> holds and throws \<open>MapRejected\<close> otherwise. Theorems quantified over
    \<open>lib\<close> hold whatever the library does.
  \<^item> \<open>NowMarker\<close> is \<open>this.nowMarker\<close>; \<open>Pinned i\<close> is the \<open>i\<close>-th marker created by
    \<open>getMarker\<close>, \<open>mqttMarker\<close> or \<open>gpsMarker\<close>.
  \<^item> The marker icon: \<open>myIcon\<close> is the component's field (line 16), and
    \<open>marker_default_icon\<close> is Leaflet's \<open>L.Marker.prototype.options.icon\<close>, the icon
    of a marker created without an \<open>icon\<close> option, which \<open>ngOnInit\<close> overwrites
    (line 74, \<open>set_icons\<close>). Each \<open>AddMarker\<close> call records the icon the marker is
    created with.
\<close>

section \<open>Map library calls\<close>

datatype marker_ref = NowMarker | Pinned nat

text \<open>The options of \<open>L.icon\<close>; an icon is Leaflet's default one (\<open>L.Icon.Default\<close>,
  the initial \<open>L.Marker.prototype.options.icon\<close>) or one made by \<open>L.icon\<close>.\<close>

record icon_options =
  icon_url :: jstring
  icon_retina_url :: jstring
  shadow_url :: jstring
  icon_size :: "jsnum \<times> jsnum"
  icon_anchor :: "jsnum \<times> jsnum"
  popup_anchor :: "jsnum \<times> jsnum"

datatype icon = DefaultIcon | Icon icon_options

record line_style =
  line_color :: jstring
  line_weight :: jsnum
  line_opacity :: jsnum
  line_join :: jstring

datatype map_call =
    CreateMap "jsnum \<times> jsnum" jsnum
      \<comment> \<open>\<open>L.map('map', {center, zoom})\<close>\<close>
  | AddTileLayer jstring jsnum
      \<comment> \<open>\<open>L.tileLayer(url, {maxZoom}).addTo(map)\<close>\<close>
  | AddMarker marker_ref jsval "jstring option" "jstring option" "icon option"
      \<comment> \<open>\<open>L.marker(position, {title, icon}).addTo(map).bindPopup(html)\<close>; the last
         argument is the marker's icon, \<open>None\<close> for \<open>icon: undefined\<close>\<close>
  | AddPolyline "(jsval \<times> jsval) list" line_style
      \<comment> \<open>\<open>L.polyline(points, style).addTo(map)\<close>\<close>
  | SetLatLng marker_ref "jsnum \<times> jsnum"
      \<comment> \<open>\<open>marker.setLatLng([lat, lng])\<close>\<close>
  | OpenPopup marker_ref
  | SetZoom jsnum
  | PanTo "jsnum \<times> jsnum"
  | AddRoutingControl "(jsval \<times> jsval) list"
      \<comment> \<open>\<open>L.Routing.control({waypoints, show: false}).addTo(map)\<close>\<close>
  | AddRoutingPlan "(jsval \<times> jsval) list"
      \<comment> \<open>\<open>L.Routing.plan(waypoints, {no dragging, no added waypoints}).addTo(map)\<close>\<close>

type_synonym map_lib = "map_call \<Rightarrow> bool"

text \<open>The segments drawn on a surface, in order.\<close>

fun polylines :: "map_call list \<Rightarrow> (jsval \<times> jsval) list list" where
  "polylines [] = []"
| "polylines (AddPolyline pts st # cs) = pts # polylines cs"
| "polylines (c # cs) = polylines cs"

text \<open>The current-position markers created on a surface.\<close>

definition now_marker_adds :: "map_call list \<Rightarrow> nat" where
  "now_marker_adds cs = length (filter (\<lambda>c. case c of AddMarker NowMarker p t h ic \<Rightarrow> True | _ \<Rightarrow> False) cs)"

text \<open>The zoom level a call sets: the initial view of \<open>L.map\<close> and \<open>setZoom\<close>.\<close>

fun zoom_of :: "map_call \<Rightarrow> jsnum option" where
  "zoom_of (CreateMap p z) = Some z"
| "zoom_of (SetZoom z) = Some z"
| "zoom_of _ = None"

text \<open>The icons of the markers created on a surface, in order.\<close>

fun marker_icons :: "map_call list \<Rightarrow> icon option list" where
  "marker_icons [] = []"
| "marker_icons (AddMarker r p t h ic # cs) = ic # marker_icons cs"
| "marker_icons (c # cs) = marker_icons cs"

section \<open>The component's fields\<close>

record map_component =
  lastX :: jsval
  lastY :: jsval
  data :: jsval
  messages :: jsval
  mqttData :: jsval
  myIcon :: "icon option"
  marker_default_icon :: "icon option"
  surface :: "map_call list"

definition call :: "map_lib \<Rightarrow> map_call \<Rightarrow> 'z map_component_scheme \<Rightarrow>
    (exn, 'z map_component_scheme) outcome" where
  "call lib c s = (if lib c then Ok (s\<lparr>surface := surface s @ [c]\<rparr>) else Exc MapRejected s)"

text \<open>
  A statement sequence made only of library calls (\<open>a.f(); b.g(); ...\<close>): it stops at
  the first call the library rejects.
\<close>

fun calls :: "map_lib \<Rightarrow> map_call list \<Rightarrow> 'z map_component_scheme \<Rightarrow>
    (exn, 'z map_component_scheme) outcome" where
  "calls lib [] s = Ok s"
| "calls lib (c # cs) s = obind (call lib c s) (calls lib cs)"

text \<open>The field initialisers: \<open>lastX = 0\<close>, \<open>lastY = 0\<close>, \<open>data = [23.9494324, 120.9289277]\<close>;
  \<open>myIcon\<close> is undefined and markers have Leaflet's default icon.\<close>

definition initial_fields :: map_component where
  "initial_fields =
     \<lparr>lastX = JNumber zero, lastY = JNumber zero,
      data = JArray [JNumber (Fin 239494324 (-7)), JNumber (Fin 1209289277 (-7))],
      messages = JUndefined, mqttData = JUndefined, myIcon = None,
      marker_default_icon = Some DefaultIcon, surface = []\<rparr>"

section \<open>Constants of the source\<close>

text \<open>The marker titles and popups, in UTF-16 code units.\<close>

definition now_title :: jstring where
  "now_title = [0x76EE, 0x524D, 0x4F4D, 0x7F6E]"

definition now_popup :: jstring where
  "now_popup = js ''<h3>'' @ now_title @ js ''</h3>''"

definition pin_title :: jstring where
  "pin_title = [0x5EA7, 0x6A19]"

definition university_popup :: jstring where
  "university_popup =
     js ''<h3>'' @ [0x570B, 0x7ACB, 0x66A8, 0x5357, 0x570B, 0x969B, 0x5927, 0x5B78] @ js ''</h3>''"

definition red_line :: line_style where
  "red_line = \<lparr>line_color = js ''red'', line_weight = Fin 3 0, line_opacity = Fin 7 (-1),
               line_join = js ''round''\<rparr>"

definition tile_url :: jstring where
  "tile_url = js ''https://{s}.tile.openstreetmap.org/{z}/{x}/{y}.png''"

text \<open>Lines 66--73: the options of \<open>L.icon\<close>.\<close>

definition marker_icon :: icon_options where
  "marker_icon =
     \<lparr>icon_url = js ''assets/marker-icon.png'', icon_retina_url = js ''assets/marker-icon-2x.png'',
      shadow_url = js ''assets/marker-shadow.png'', icon_size = (Fin 25 0, Fin 41 0),
      icon_anchor = (Fin 14 0, Fin 40 0), popup_anchor = (Fin (-2) 0, Fin (-38) 0)\<rparr>"

section \<open>The map part of ngOnInit\<close>

text \<open>Lines 26--36: the map centred on the campus at zoom 16, and the tile layer.\<close>

definition create_map :: "map_lib \<Rightarrow> 'z map_component_scheme \<Rightarrow>
    (exn, 'z map_component_scheme) outcome" where
  "create_map lib s =
     calls lib [CreateMap (Fin 239494324 (-7), Fin 1209289277 (-7)) (Fin 16 0),
                AddTileLayer tile_url (Fin 20 0)] s"

text \<open>Lines 77--80: the current-position marker at \<open>[0, 0]\<close> with \<open>myIcon\<close> and its popup
  bound.\<close>

definition add_now_marker :: "map_lib \<Rightarrow> 'z map_component_scheme \<Rightarrow>
    (exn, 'z map_component_scheme) outcome" where
  "add_now_marker lib s =
     call lib (AddMarker NowMarker (JArray [JNumber zero, JNumber zero]) (Some now_title)
                 (Some now_popup) (myIcon s)) s"

text \<open>Lines 65--74: \<open>this.myIcon = L.icon({...})\<close>, then
  \<open>L.Marker.prototype.options.icon = this.myIcon\<close>.\<close>

definition set_icons :: "'z map_component_scheme \<Rightarrow> 'z map_component_scheme" where
  "set_icons s =
     (let s1 = s\<lparr>myIcon := Some (Icon marker_icon)\<rparr> in s1\<lparr>marker_default_icon := myIcon s1\<rparr>)"

section \<open>Facts about the interface\<close>

lemma call_Ok [simp]: "lib c \<Longrightarrow> call lib c s = Ok (s\<lparr>surface := surface s @ [c]\<rparr>)"
  by (simp add: call_def)

lemma call_Exc [simp]: "\<not> lib c \<Longrightarrow> call lib c s = Exc MapRejected s"
  by (simp add: call_def)

text \<open>A call changes nothing but the surface, and only by appending to it.\<close>

lemma call_fields:
  "lastX (ostate (call lib c s)) = lastX s"
  "lastY (ostate (call lib c s)) = lastY s"
  "data (ostate (call lib c s)) = data s"
  "messages (ostate (call lib c s)) = messages s"
  "mqttData (ostate (call lib c s)) = mqttData s"
  "myIcon (ostate (call lib c s)) = myIcon s"
  "marker_default_icon (ostate (call lib c s)) = marker_default_icon s"
  "more (ostate (call lib c s)) = more s"
  by (simp_all add: call_def)

text \<open>
  A sequence of calls appends the calls the library accepts, up to the first one it
  rejects, and throws exactly when there is one.
\<close>

lemma calls_eq:
  "calls lib cs s =
     (if list_all lib cs then Ok (s\<lparr>surface := surface s @ cs\<rparr>)
      else Exc MapRejected (s\<lparr>surface := surface s @ takeWhile lib cs\<rparr>))"
proof (induction cs arbitrary: s)
  case Nil
  then show ?case by simp
next
  case (Cons c cs)
  then show ?case by (cases "lib c") simp_all
qed

lemma polylines_append [simp]: "polylines (xs @ ys) = polylines xs @ polylines ys"
  by (induction xs rule: polylines.induct) simp_all

lemma marker_icons_append [simp]: "marker_icons (xs @ ys) = marker_icons xs @ marker_icons ys"
  by (induction xs rule: marker_icons.induct) simp_all

lemma now_marker_adds_append [simp]:
  "now_marker_adds (xs @ ys) = now_marker_adds xs + now_marker_adds ys"
  by (simp add: now_marker_adds_def)

lemma takeWhile_list_all: "list_all P xs \<Longrightarrow> takeWhile P xs = xs"
  by (induction xs) simp_all

lemma ostate_calls: "ostate (calls lib cs s) = s\<lparr>surface := surface s @ takeWhile lib cs\<rparr>"
  by (simp add: calls_eq takeWhile_list_all)

lemma call_surface_prefix: "prefix (surface s) (surface (ostate (call lib c s)))"
  by (simp add: call_def)

end
