(* ===== verification/Tracker.thy ===== *)
theory Tracker
  imports Component
begin

text \<open>
  The position tracker and path renderer of \<open>MapComponent\<close>: \<open>getLine\<close> (lines
  111--142, straight segments) and \<open>getStreetLine\<close> (lines 145--180, road-following
  routes). Both keep the last fix in the fields \<open>lastX\<close>/\<open>lastY\<close>, with the value
  \<open>0, 0\<close> of the field initialisers read as "no fix yet" through the loose test
  \<open>this.lastX==0 && this.lastY==0\<close> (\<open>at_sentinel\<close>).
  The lemmas give the result of each handler on every branch, for every behaviour of the
  map library: what is drawn, where the marker goes, and which fields are written before
  a call that may throw.

  Beside the code, the abstract contract of the tracker and the straight-line renderer,
  as the specification states it: a state with the last fix and a flag \<open>hasFix\<close>, an
  operation \<open>ingestFix\<close> classifying each fix as \<open>FirstFix\<close> or \<open>Move\<close>, and the
  calls the renderer makes for each transition (\<open>spec_render\<close>). \<open>sim\<close> relates a
  state of \<open>MapComponent\<close> to an abstract state: "no fix yet" is the sentinel test of the
  code, and a fix is stored as two numbers. The refinement lemmas show that \<open>getLine\<close>
  implements \<open>ingestFix\<close> for every fix that is not the point \<open>(0, 0)\<close>, and that it
  renders a \<open>Move\<close> exactly as the specification says, while a \<open>FirstFix\<close> is rendered
  with a zero-length segment, a zoom and a pan the specification does not have
  (\<open>code_render\<close>). The run lemmas lift this to any sequence of fixes: the segments
  drawn form one connected path.
\<close>

section \<open>The handlers\<close>

definition at_sentinel :: "'z map_component_scheme \<Rightarrow> bool" where
  "at_sentinel s \<longleftrightarrow> loose_eq_num (lastX s) zero \<and> loose_eq_num (lastY s) zero"

text \<open>
  \<open>getLine(nowX, nowY)\<close>: on the sentinel, first take the new point as the previous one;
  draw the red segment from the previous point; move the current-position marker to
  \<open>[Number(nowX), Number(nowY)]\<close>, open its popup, zoom to 17 and pan to the marker's
  position (which \<open>getLatLng\<close> returns as set); finally store the new point.
\<close>

definition getLine :: "map_lib \<Rightarrow> jsval \<Rightarrow> jsval \<Rightarrow> 'z map_component_scheme \<Rightarrow>
    (exn, 'z map_component_scheme) outcome" where
  "getLine lib nowX nowY s0 =
     (let s = (if at_sentinel s0 then s0\<lparr>lastX := nowX, lastY := nowY\<rparr> else s0)
      in obind
           (calls lib
              [AddPolyline [(lastX s, lastY s), (nowX, nowY)] red_line,
               SetLatLng NowMarker (to_number nowX, to_number nowY),
               OpenPopup NowMarker,
               SetZoom (Fin 17 0),
               PanTo (to_number nowX, to_number nowY)] s)
           (\<lambda>s. Ok (s\<lparr>lastX := nowX, lastY := nowY\<rparr>)))"

text \<open>
  \<open>getStreetLine(nowX, nowY)\<close>: the same sentinel test, then a routing control and a
  routing plan between the previous and the new point; the marker is not touched.
\<close>

definition getStreetLine :: "map_lib \<Rightarrow> jsval \<Rightarrow> jsval \<Rightarrow> 'z map_component_scheme \<Rightarrow>
    (exn, 'z map_component_scheme) outcome" where
  "getStreetLine lib nowX nowY s0 =
     (let s = (if at_sentinel s0 then s0\<lparr>lastX := nowX, lastY := nowY\<rparr> else s0)
      in obind
           (calls lib
              [AddRoutingControl [(lastX s, lastY s), (nowX, nowY)],
               AddRoutingPlan [(lastX s, lastY s), (nowX, nowY)]] s)
           (\<lambda>s. Ok (s\<lparr>lastX := nowX, lastY := nowY\<rparr>)))"

text \<open>The calls \<open>getLine\<close> makes for a segment from \<open>p\<close> to \<open>(x, y)\<close>.\<close>

definition line_calls :: "jsval \<times> jsval \<Rightarrow> jsval \<times> jsval \<Rightarrow> map_call list" where
  "line_calls p q =
     [AddPolyline [p, q] red_line,
      SetLatLng NowMarker (to_number (fst q), to_number (snd q)),
      OpenPopup NowMarker,
      SetZoom (Fin 17 0),
      PanTo (to_number (fst q), to_number (snd q))]"

text \<open>The point a segment of either handler starts from.\<close>

definition seg_start :: "'z map_component_scheme \<Rightarrow> jsval \<Rightarrow> jsval \<Rightarrow> jsval \<times> jsval" where
  "seg_start s x y = (if at_sentinel s then (x, y) else (lastX s, lastY s))"

text \<open>The calls that act on the current-position marker.\<close>

fun touches_now_marker :: "map_call \<Rightarrow> bool" where
  "touches_now_marker (AddMarker r p t h ic) = (r = NowMarker)"
| "touches_now_marker (SetLatLng r p) = (r = NowMarker)"
| "touches_now_marker (OpenPopup r) = (r = NowMarker)"
| "touches_now_marker _ = False"

section \<open>The specification\<close>

record tracker_state =
  lastLatitude :: jsnum
  lastLongitude :: jsnum
  hasFix :: bool

definition spec_init :: tracker_state where
  "spec_init = \<lparr>lastLatitude = zero, lastLongitude = zero, hasFix = False\<rparr>"

datatype transition = FirstFix "jsnum \<times> jsnum" | Move "jsnum \<times> jsnum" "jsnum \<times> jsnum"

definition ingestFix :: "tracker_state \<Rightarrow> jsnum \<times> jsnum \<Rightarrow> tracker_state \<times> transition" where
  "ingestFix t p =
     (if \<not> hasFix t
      then (t\<lparr>lastLatitude := fst p, lastLongitude := snd p, hasFix := True\<rparr>, FirstFix p)
      else (t\<lparr>lastLatitude := fst p, lastLongitude := snd p\<rparr>,
            Move (lastLatitude t, lastLongitude t) p))"

definition point :: "jsnum \<times> jsnum \<Rightarrow> jsval \<times> jsval" where
  "point p = (JNumber (fst p), JNumber (snd p))"

text \<open>The renderer's contract in straight-line mode.\<close>

fun spec_render :: "transition \<Rightarrow> map_call list" where
  "spec_render (FirstFix p) = [SetLatLng NowMarker p, OpenPopup NowMarker]"
| "spec_render (Move a b) =
     [AddPolyline [point a, point b] red_line, SetLatLng NowMarker b, OpenPopup NowMarker,
      SetZoom (Fin 17 0), PanTo b]"

text \<open>What the code draws for a transition: the contract, plus, for the first fix, a
  zero-length segment before it and a zoom and pan after it.\<close>

fun code_render :: "transition \<Rightarrow> map_call list" where
  "code_render (FirstFix p) =
     AddPolyline [point p, point p] red_line # spec_render (FirstFix p) @ [SetZoom (Fin 17 0), PanTo p]"
| "code_render (Move a b) = spec_render (Move a b)"

fun spec_run :: "tracker_state \<Rightarrow> (jsnum \<times> jsnum) list \<Rightarrow> transition list" where
  "spec_run t [] = []"
| "spec_run t (p # ps) = snd (ingestFix t p) # spec_run (fst (ingestFix t p)) ps"

fun spec_final :: "tracker_state \<Rightarrow> (jsnum \<times> jsnum) list \<Rightarrow> tracker_state" where
  "spec_final t [] = t"
| "spec_final t (p # ps) = spec_final (fst (ingestFix t p)) ps"

section \<open>The code against the specification\<close>

definition origin_fix :: "jsnum \<times> jsnum \<Rightarrow> bool" where
  "origin_fix p \<longleftrightarrow> num_eq (fst p) zero \<and> num_eq (snd p) zero"

definition sim :: "'z map_component_scheme \<Rightarrow> tracker_state \<Rightarrow> bool" where
  "sim s t \<longleftrightarrow>
     (at_sentinel s \<longleftrightarrow> \<not> hasFix t) \<and>
     (hasFix t \<longrightarrow> lastX s = JNumber (lastLatitude t) \<and> lastY s = JNumber (lastLongitude t))"

text \<open>Each fix of the tracked entity reaches \<open>getLine\<close> as two numbers, one message at a
  time; a handler that throws ends, and the next message is handled from the state it left.\<close>

fun run_getLine :: "map_lib \<Rightarrow> (jsnum \<times> jsnum) list \<Rightarrow> 'z map_component_scheme \<Rightarrow>
    'z map_component_scheme" where
  "run_getLine lib [] s = s"
| "run_getLine lib (p # ps) s = run_getLine lib ps (ostate (getLine lib (JNumber (fst p)) (JNumber (snd p)) s))"

section \<open>Every branch of getLine and getStreetLine\<close>

lemma getLine_eq:
  "getLine lib x y s =
     (let cs = line_calls (seg_start s x y) (x, y);
          s1 = s\<lparr>lastX := fst (seg_start s x y), lastY := snd (seg_start s x y)\<rparr>
      in if list_all lib cs then Ok (s\<lparr>surface := surface s @ cs, lastX := x, lastY := y\<rparr>)
         else Exc MapRejected (s1\<lparr>surface := surface s @ takeWhile lib cs\<rparr>))"
  by (simp add: getLine_def line_calls_def seg_start_def calls_eq Let_def)

lemma getStreetLine_eq:
  "getStreetLine lib x y s =
     (let w = [seg_start s x y, (x, y)]; cs = [AddRoutingControl w, AddRoutingPlan w];
          s1 = s\<lparr>lastX := fst (seg_start s x y), lastY := snd (seg_start s x y)\<rparr>
      in if list_all lib cs then Ok (s\<lparr>surface := surface s @ cs, lastX := x, lastY := y\<rparr>)
         else Exc MapRejected (s1\<lparr>surface := surface s @ takeWhile lib cs\<rparr>))"
  by (simp add: getStreetLine_def seg_start_def calls_eq Let_def)

lemmas tracker_unfold [handler_simps] = getLine_eq getStreetLine_eq line_calls_def seg_start_def

text \<open>
  C5. On the sentinel \<open>getLine\<close> stores the new point before any library call: the
  point is kept even when the library then throws, whatever the point is.
\<close>

lemma getLine_sentinel_store:
  assumes "at_sentinel s"
  shows "lastX (ostate (getLine lib x y s)) = x \<and> lastY (ostate (getLine lib x y s)) = y"
  using assms by (simp add: getLine_eq seg_start_def Let_def)

text \<open>The same holds of \<open>getStreetLine\<close>.\<close>

lemma getStreetLine_sentinel_store:
  assumes "at_sentinel s"
  shows "lastX (ostate (getStreetLine lib x y s)) = x \<and> lastY (ostate (getStreetLine lib x y s)) = y"
  using assms by (simp add: getStreetLine_eq seg_start_def Let_def)

text \<open>
  C11. Away from the sentinel a throw of the first call leaves the component as it was: the
  previous point is kept.
\<close>

lemma getLine_reject_keeps_state:
  assumes "\<not> at_sentinel s"
    and "\<not> lib (AddPolyline [(lastX s, lastY s), (x, y)] red_line)"
  shows "getLine lib x y s = Exc MapRejected s"
  using assms by (simp add: getLine_eq seg_start_def line_calls_def Let_def)

text \<open>
  C17. Whatever the library does, \<open>getStreetLine\<close> never acts on the current-position
  marker, while \<open>getLine\<close> moves it to the new point when its calls are accepted.
\<close>

lemma getStreetLine_marker_untouched:
  "filter touches_now_marker (surface (ostate (getStreetLine lib x y s))) =
   filter touches_now_marker (surface s)"
proof -
  have "filter touches_now_marker (takeWhile lib cs) = []"
    if "cs = [AddRoutingControl w, AddRoutingPlan w]" for cs w
    using that by (cases "lib (AddRoutingControl w)") simp_all
  then show ?thesis by (simp add: getStreetLine_eq Let_def)
qed

text \<open>
  C21. \<open>getStreetLine\<close> and \<open>getLine\<close> share the position tracker: whenever both complete,
  or both fail, they leave the same last point. They differ only in what they draw.
\<close>

theorem getStreetLine_tracker_equiv:
  assumes "list_all lib (line_calls (seg_start s x y) (x, y)) \<longleftrightarrow>
           list_all lib' [AddRoutingControl [seg_start s x y, (x, y)], AddRoutingPlan [seg_start s x y, (x, y)]]"
  shows "lastX (ostate (getStreetLine lib' x y s)) = lastX (ostate (getLine lib x y s)) \<and>
         lastY (ostate (getStreetLine lib' x y s)) = lastY (ostate (getLine lib x y s))"
  using assms by (simp add: getLine_eq getStreetLine_eq Let_def)

text \<open>The fields other than the last point and the surface are never written.\<close>

lemma getLine_frame:
  "data (ostate (getLine lib x y s)) = data s"
  "messages (ostate (getLine lib x y s)) = messages s"
  "mqttData (ostate (getLine lib x y s)) = mqttData s"
  "map_component.more (ostate (getLine lib x y s)) = map_component.more s"
  by (simp_all add: getLine_eq Let_def)

lemma getLine_surface_extends:
  "prefix (surface s) (surface (ostate (getLine lib x y s)))"
  by (simp add: getLine_eq Let_def)

section \<open>The refinement\<close>

lemma to_number_point [simp]:
  "to_number (fst (point p)) = fst p" "to_number (snd (point p)) = snd p"
  by (simp_all add: point_def)

lemma at_sentinel_numbers:
  "at_sentinel (s\<lparr>lastX := JNumber a, lastY := JNumber b\<rparr>) \<longleftrightarrow> origin_fix (a, b)"
  by (simp add: at_sentinel_def origin_fix_def)

lemma sim_initial_fields: "sim initial_fields spec_init"
  by (simp add: sim_def spec_init_def initial_fields_def at_sentinel_def)

lemma line_calls_code_render:
  assumes "sim s t"
  shows "line_calls (seg_start s (JNumber (fst p)) (JNumber (snd p))) (JNumber (fst p), JNumber (snd p)) =
         code_render (snd (ingestFix t p))"
  using assms by (auto simp: sim_def ingestFix_def seg_start_def line_calls_def point_def)

lemma sim_after_fix:
  assumes "\<not> origin_fix p"
  shows "sim (s\<lparr>surface := cs, lastX := JNumber (fst p), lastY := JNumber (snd p)\<rparr>)
             (fst (ingestFix t p))"
  using assms at_sentinel_numbers [where s = "s\<lparr>surface := cs\<rparr>" and a = "fst p" and b = "snd p"]
  by (simp add: sim_def ingestFix_def)

text \<open>A step of \<open>getLine\<close> from a state related to the specification's: the calls it
  makes are the rendering of the specification's transition.\<close>

lemma getLine_step_sim:
  assumes "sim s t" and "list_all lib (code_render (snd (ingestFix t p)))"
  shows "getLine lib (JNumber (fst p)) (JNumber (snd p)) s =
           Ok (s\<lparr>surface := surface s @ code_render (snd (ingestFix t p)),
                 lastX := JNumber (fst p), lastY := JNumber (snd p)\<rparr>)"
  using assms line_calls_code_render [OF assms(1), of p] by (simp add: getLine_eq Let_def)

text \<open>C1. One step of the refinement: from related states, \<open>getLine\<close> on a fix that is not
  \<open>(0, 0)\<close> returns a state related to the one \<open>ingestFix\<close> gives and makes the calls
  that render the transition.\<close>

theorem getLine_refines_ingestFix:
  assumes "sim s t" and "\<not> origin_fix p"
    and "list_all lib (code_render (snd (ingestFix t p)))"
  shows "\<exists>s'. getLine lib (JNumber (fst p)) (JNumber (snd p)) s = Ok s' \<and>
              sim s' (fst (ingestFix t p)) \<and>
              surface s' = surface s @ code_render (snd (ingestFix t p))"
  using getLine_step_sim [OF assms(1,3)] sim_after_fix [OF assms(2)] by simp

lemma polylines_code_render [simp]:
  "polylines (code_render (FirstFix p)) = [[point p, point p]]"
  "polylines (code_render (Move a b)) = [[point a, point b]]"
  by simp_all

text \<open>The refinement over a sequence of fixes, none at the origin.\<close>

lemma run_getLine_refines:
  assumes "sim s t" and "list_all (\<lambda>p. \<not> origin_fix p) ps" and "\<forall>c. lib c"
  shows "sim (run_getLine lib ps s) (spec_final t ps) \<and>
         surface (run_getLine lib ps s) = surface s @ concat (map code_render (spec_run t ps))"
  using assms(1,2)
proof (induction ps arbitrary: s t)
  case Nil
  then show ?case by simp
next
  case (Cons p ps)
  from assms(3) have "list_all lib (code_render (snd (ingestFix t p)))"
    by (simp add: list_all_iff)
  with Cons.prems obtain s' where
    step: "getLine lib (JNumber (fst p)) (JNumber (snd p)) s = Ok s'"
      and sim': "sim s' (fst (ingestFix t p))"
      and surf: "surface s' = surface s @ code_render (snd (ingestFix t p))"
    using getLine_step_sim sim_after_fix by fastforce
  from Cons.IH [OF sim'] Cons.prems(2) step surf show ?case by simp
qed

text \<open>After a first fix, the specification classifies every fix as a move from the one before.\<close>

lemma spec_run_moves:
  assumes "hasFix t"
  shows "spec_run t ps = map (\<lambda>(a, b). Move a b) (zip ((lastLatitude t, lastLongitude t) # ps) ps)"
  using assms by (induction ps arbitrary: t) (simp_all add: ingestFix_def)

lemma spec_run_from_init:
  "spec_run spec_init (p # ps) = FirstFix p # map (\<lambda>(a, b). Move a b) (zip (p # ps) ps)"
  by (simp add: spec_run_moves ingestFix_def spec_init_def)

lemma polylines_moves:
  "polylines (concat (map code_render (map (\<lambda>(a, b). Move a b) xs))) =
   map (\<lambda>(a, b). [point a, point b]) xs"
  by (induction xs) auto

text \<open>C2. The path is connected: the first fix draws a zero-length segment at itself, and
  every later fix a segment from the fix before it.\<close>

theorem getLine_path_connected:
  assumes "sim s spec_init" and "list_all (\<lambda>p. \<not> origin_fix p) (p # ps)" and "\<forall>c. lib c"
  shows "polylines (surface (run_getLine lib (p # ps) s)) =
         polylines (surface s) @ [point p, point p] # map (\<lambda>(a, b). [point a, point b]) (zip (p # ps) ps)"
proof -
  have "surface (run_getLine lib (p # ps) s) =
        surface s @ concat (map code_render (spec_run spec_init (p # ps)))"
    using run_getLine_refines [OF assms] by blast
  then have "polylines (surface (run_getLine lib (p # ps) s)) =
      polylines (surface s) @ polylines (code_render (FirstFix p)) @
      polylines (concat (map code_render (map (\<lambda>(a, b). Move a b) (zip (p # ps) ps))))"
    by (simp only: spec_run_from_init list.map(2) concat.simps(2) polylines_append)
  then show ?thesis by (simp only: polylines_code_render polylines_moves) simp
qed

section \<open>Witnesses\<close>

text \<open>A library that rejects every call: the undefined point of a payload without
  \<open>Latitude\<close> is stored although the first call throws.\<close>

lemma getLine_sentinel_store_witness:
  "at_sentinel initial_fields \<and>
   lastX (ostate (getLine (\<lambda>_. False) JUndefined JUndefined initial_fields)) = JUndefined \<and>
   lastY (ostate (getLine (\<lambda>_. False) JUndefined JUndefined initial_fields)) = JUndefined"
proof -
  have s: "at_sentinel initial_fields"
    by (simp add: at_sentinel_def initial_fields_def)
  show ?thesis using getLine_sentinel_store [OF s, of "\<lambda>_. False" JUndefined JUndefined] s by simp
qed

lemma getLine_reject_keeps_state_witness:
  "\<not> at_sentinel (initial_fields\<lparr>lastX := JNumber (Fin 2395 (-2)), lastY := JNumber (Fin 12093 (-2))\<rparr>) \<and>
   \<not> (\<lambda>_. False) (AddPolyline [(JNumber (Fin 2395 (-2)), JNumber (Fin 12093 (-2))), (JUndefined, JUndefined)] red_line) \<and>
   getLine (\<lambda>_. False) JUndefined JUndefined
     (initial_fields\<lparr>lastX := JNumber (Fin 2395 (-2)), lastY := JNumber (Fin 12093 (-2))\<rparr>) =
   Exc MapRejected (initial_fields\<lparr>lastX := JNumber (Fin 2395 (-2)), lastY := JNumber (Fin 12093 (-2))\<rparr>)"
proof -
  have s: "\<not> at_sentinel (initial_fields\<lparr>lastX := JNumber (Fin 2395 (-2)), lastY := JNumber (Fin 12093 (-2))\<rparr>)"
    by (simp add: at_sentinel_def norm_dec.simps)
  have r: "\<not> (\<lambda>_. False) (AddPolyline [(lastX (initial_fields\<lparr>lastX := JNumber (Fin 2395 (-2)), lastY := JNumber (Fin 12093 (-2))\<rparr>),
              lastY (initial_fields\<lparr>lastX := JNumber (Fin 2395 (-2)), lastY := JNumber (Fin 12093 (-2))\<rparr>)),
             (JUndefined, JUndefined)] red_line)"
    by simp
  show ?thesis using getLine_reject_keeps_state [OF s r] s by simp
qed

lemma getStreetLine_tracker_equiv_witness:
  "(list_all (\<lambda>_. True) (line_calls (seg_start initial_fields (JNumber (Fin 2395 (-2))) (JNumber (Fin 12093 (-2))))
        (JNumber (Fin 2395 (-2)), JNumber (Fin 12093 (-2)))) \<longleftrightarrow>
    list_all (\<lambda>_. True)
      [AddRoutingControl [seg_start initial_fields (JNumber (Fin 2395 (-2))) (JNumber (Fin 12093 (-2))),
                          (JNumber (Fin 2395 (-2)), JNumber (Fin 12093 (-2)))],
       AddRoutingPlan [seg_start initial_fields (JNumber (Fin 2395 (-2))) (JNumber (Fin 12093 (-2))),
                       (JNumber (Fin 2395 (-2)), JNumber (Fin 12093 (-2)))]]) \<and>
   lastX (ostate (getStreetLine (\<lambda>_. True) (JNumber (Fin 2395 (-2))) (JNumber (Fin 12093 (-2))) initial_fields)) =
     JNumber (Fin 2395 (-2)) \<and>
   lastX (ostate (getLine (\<lambda>_. True) (JNumber (Fin 2395 (-2))) (JNumber (Fin 12093 (-2))) initial_fields)) =
     JNumber (Fin 2395 (-2))"
proof -
  have h: "list_all (\<lambda>_. True) (line_calls (seg_start initial_fields (JNumber (Fin 2395 (-2))) (JNumber (Fin 12093 (-2))))
        (JNumber (Fin 2395 (-2)), JNumber (Fin 12093 (-2)))) \<longleftrightarrow>
    list_all (\<lambda>_. True)
      [AddRoutingControl [seg_start initial_fields (JNumber (Fin 2395 (-2))) (JNumber (Fin 12093 (-2))),
                          (JNumber (Fin 2395 (-2)), JNumber (Fin 12093 (-2)))],
       AddRoutingPlan [seg_start initial_fields (JNumber (Fin 2395 (-2))) (JNumber (Fin 12093 (-2))),
                       (JNumber (Fin 2395 (-2)), JNumber (Fin 12093 (-2)))]]"
    by (simp add: list_all_iff)
  show ?thesis using getStreetLine_tracker_equiv [OF h] h by (simp add: getLine_eq Let_def list_all_iff)
qed

text \<open>The examples of the specification: from no fix, \<open>(23.95, 120.93)\<close> is a first fix;
  from there, \<open>(23.96, 120.94)\<close> is a move.\<close>

lemma getLine_refines_ingestFix_witness:
  "sim (initial_fields\<lparr>lastX := JNumber (Fin 2395 (-2)), lastY := JNumber (Fin 12093 (-2))\<rparr>)
       \<lparr>lastLatitude = Fin 2395 (-2), lastLongitude = Fin 12093 (-2), hasFix = True\<rparr> \<and>
   \<not> origin_fix (Fin 1198 (-2), Fin 3023 (-1)) \<and>
   snd (ingestFix \<lparr>lastLatitude = Fin 2395 (-2), lastLongitude = Fin 12093 (-2), hasFix = True\<rparr>
          (Fin 1198 (-2), Fin 3023 (-1))) =
     Move (Fin 2395 (-2), Fin 12093 (-2)) (Fin 1198 (-2), Fin 3023 (-1)) \<and>
   (\<exists>s'. getLine (\<lambda>_. True) (JNumber (Fin 1198 (-2))) (JNumber (Fin 3023 (-1)))
            (initial_fields\<lparr>lastX := JNumber (Fin 2395 (-2)), lastY := JNumber (Fin 12093 (-2))\<rparr>) = Ok s' \<and>
         sim s' \<lparr>lastLatitude = Fin 1198 (-2), lastLongitude = Fin 3023 (-1), hasFix = True\<rparr> \<and>
         surface s' = spec_render (Move (Fin 2395 (-2), Fin 12093 (-2)) (Fin 1198 (-2), Fin 3023 (-1))))"
proof -
  let ?s = "initial_fields\<lparr>lastX := JNumber (Fin 2395 (-2)), lastY := JNumber (Fin 12093 (-2))\<rparr>"
  let ?t = "\<lparr>lastLatitude = Fin 2395 (-2), lastLongitude = Fin 12093 (-2), hasFix = True\<rparr>"
  let ?p = "(Fin 1198 (-2), Fin 3023 (-1))"
  have sim: "sim ?s ?t"
    by (simp add: sim_def at_sentinel_def initial_fields_def norm_dec.simps)
  have fx: "\<not> origin_fix ?p"
    by (simp add: origin_fix_def norm_dec.simps)
  have lib: "list_all (\<lambda>_. True) (code_render (snd (ingestFix ?t ?p)))"
    by (simp add: list_all_iff)
  show ?thesis
    using getLine_refines_ingestFix [OF sim fx lib] sim fx
    by (simp add: ingestFix_def initial_fields_def)
qed

lemma getLine_path_connected_witness:
  "polylines (surface (run_getLine (\<lambda>_. True)
       [(Fin 2395 (-2), Fin 12093 (-2)), (Fin 1198 (-2), Fin 3023 (-1)), (Fin 2397 (-2), Fin 12095 (-2))]
       initial_fields)) =
   [[point (Fin 2395 (-2), Fin 12093 (-2)), point (Fin 2395 (-2), Fin 12093 (-2))],
    [point (Fin 2395 (-2), Fin 12093 (-2)), point (Fin 1198 (-2), Fin 3023 (-1))],
    [point (Fin 1198 (-2), Fin 3023 (-1)), point (Fin 2397 (-2), Fin 12095 (-2))]]"
proof -
  have fxs: "list_all (\<lambda>p. \<not> origin_fix p)
      [(Fin 2395 (-2), Fin 12093 (-2)), (Fin 1198 (-2), Fin 3023 (-1)), (Fin 2397 (-2), Fin 12095 (-2))]"
    by (simp add: origin_fix_def norm_dec.simps)
  have "\<forall>c. (\<lambda>_. True) c" by simp
  from getLine_path_connected [OF sim_initial_fields fxs this] show ?thesis
    by (simp add: initial_fields_def)
qed

end
