(* ===== verification/Json.thy ===== *)
theory Json
  imports JsValue
begin

text \<open>
  \<open>JSON.parse\<close> and \<open>JSON.stringify\<close> as the component uses them: \<open>onMessageArrived\<close>
  parses \<open>message.payloadString\<close> (line 57) and \<open>sendMessage\<close> serialises four plain
  objects (lines 95--98). Both are ECMAScript built-ins, modelled from the standard
  (ECMA-404 grammar, ECMA-262 JSON.parse and JSON.stringify without reviver, replacer or
  indentation) over UTF-16 code units.
  \<^item> \<open>parse_value\<close>, \<open>parse_elements\<close> and \<open>parse_members\<close> are a recursive-descent
    parser returning the value and the rest of the input; they recurse through nested
    arrays and objects, so they carry fuel, one unit per call. \<open>json_parse\<close> gives
    them the length of the text, which is enough (lemma \<open>parse_value_fuel\<close>), and
    rejects the text (a \<open>SyntaxError\<close>) unless only white space follows the value.
  \<^item> A repeated key keeps its first position and takes the last value
    (\<open>put_member\<close>), as CreateDataProperty does.
  \<^item> \<open>stringify\<close> is \<open>None\<close> for \<open>undefined\<close> (JSON.stringify returns undefined),
    drops object members whose value is undefined, writes \<open>null\<close> for undefined array
    elements and non-finite numbers, and escapes strings as QuoteJSONString does.
\<close>

section \<open>Lexical pieces\<close>

definition is_json_ws :: "code_unit \<Rightarrow> bool" where
  "is_json_ws c \<longleftrightarrow> c = 0x20 \<or> c = 0x09 \<or> c = 0x0A \<or> c = 0x0D"

definition skip_ws :: "jstring \<Rightarrow> jstring" where
  "skip_ws s = dropWhile is_json_ws s"

text \<open>The one-character escapes of JSON and the code units they stand for.\<close>

definition escape_char :: "code_unit \<Rightarrow> code_unit option" where
  "escape_char e =
     (if e = 0x22 then Some 0x22 else if e = 0x5C then Some 0x5C else if e = 0x2F then Some 0x2F
      else if e = 0x62 then Some 0x08 else if e = 0x66 then Some 0x0C
      else if e = 0x6E then Some 0x0A else if e = 0x72 then Some 0x0D
      else if e = 0x74 then Some 0x09 else None)"

definition prepend :: "code_unit \<Rightarrow> (jstring \<times> jstring) option \<Rightarrow> (jstring \<times> jstring) option" where
  "prepend c r = map_option (\<lambda>(t, rest). (c # t, rest)) r"

text \<open>The characters of a string after its opening quote, up to and without the closing
  quote; the result is the string's code units and the input after the quote.\<close>

fun parse_chars :: "jstring \<Rightarrow> (jstring \<times> jstring) option" where
  "parse_chars [] = None"
| "parse_chars (c # r) =
     (if c = 0x22 then Some ([], r)
      else if c = 0x5C then
        (case r of
           [] \<Rightarrow> None
         | e # r' \<Rightarrow>
             if e = 0x75 then
               (case r' of
                  h1 # h2 # h3 # h4 # r'' \<Rightarrow>
                    if list_all is_hex_digit [h1, h2, h3, h4]
                    then prepend (word_of_int (radix_value 16 hex_value 0 [h1, h2, h3, h4])) (parse_chars r'')
                    else None
                | _ \<Rightarrow> None)
             else (case escape_char e of None \<Rightarrow> None | Some d \<Rightarrow> prepend d (parse_chars r')))
      else if c < 0x20 then None
      else prepend c (parse_chars r))"

text \<open>A JSON number: \<open>-\<close>?, \<open>0\<close> or a digit string not starting with \<open>0\<close>, an
  optional fraction with at least one digit, an optional exponent with at least one digit.\<close>

definition json_exponent :: "jstring \<Rightarrow> (int \<times> jstring) option" where
  "json_exponent r =
     (case r of
        c # r1 \<Rightarrow>
          if c = 0x65 \<or> c = 0x45 then
            (let (sg, r2) = (case r1 of
                               d # r3 \<Rightarrow> if d = 0x2B then (1, r3) else if d = 0x2D then (-1, r3) else (1, r1)
                             | [] \<Rightarrow> (1, []));
                 ds = takeWhile is_digit r2
             in if ds = [] then None else Some (sg * digits_value ds, dropWhile is_digit r2))
          else Some (0, r)
      | [] \<Rightarrow> Some (0, []))"

definition json_fraction :: "jstring \<Rightarrow> (jstring \<times> jstring) option" where
  "json_fraction r =
     (case r of
        c # r1 \<Rightarrow>
          if c = 0x2E then
            (let ds = takeWhile is_digit r1 in
             if ds = [] then None else Some (ds, dropWhile is_digit r1))
          else Some ([], r)
      | [] \<Rightarrow> Some ([], []))"

definition parse_number :: "jstring \<Rightarrow> (jsnum \<times> jstring) option" where
  "parse_number s =
     (let (ng, s1) = (case s of c # r \<Rightarrow> if c = 0x2D then (True, r) else (False, s) | [] \<Rightarrow> (False, []))
      in case s1 of
           [] \<Rightarrow> None
         | d # r \<Rightarrow>
             if \<not> is_digit d then None
             else
               (let ip = (if d = 0x30 then [d] else d # takeWhile is_digit r);
                    r1 = (if d = 0x30 then r else dropWhile is_digit r)
                in case json_fraction r1 of
                     None \<Rightarrow> None
                   | Some (fp, r2) \<Rightarrow>
                       (case json_exponent r2 of
                          None \<Rightarrow> None
                        | Some (x, r3) \<Rightarrow>
                            (let m = digits_value (ip @ fp) in
                             Some (fin (if ng then - m else m) (x - int (length fp)), r3)))))"

text \<open>Adding a member to an object under construction.\<close>

definition put_member :: "(jstring \<times> jsval) list \<Rightarrow> jstring \<Rightarrow> jsval \<Rightarrow> (jstring \<times> jsval) list" where
  "put_member ps k v =
     (if k \<in> fst ` set ps then map (\<lambda>(k', v'). if k' = k then (k', v) else (k', v')) ps
      else ps @ [(k, v)])"

section \<open>The parser\<close>

fun parse_value :: "nat \<Rightarrow> jstring \<Rightarrow> (jsval \<times> jstring) option"
and parse_elements :: "nat \<Rightarrow> jsval list \<Rightarrow> jstring \<Rightarrow> (jsval list \<times> jstring) option"
and parse_members :: "nat \<Rightarrow> (jstring \<times> jsval) list \<Rightarrow> jstring \<Rightarrow>
    ((jstring \<times> jsval) list \<times> jstring) option" where
  "parse_value 0 s = None"
| "parse_value (Suc n) s =
     (case skip_ws s of
        [] \<Rightarrow> None
      | c # r \<Rightarrow>
          if c = 0x7B then
            (case skip_ws r of
               [] \<Rightarrow> None
             | d # r' \<Rightarrow>
                 if d = 0x7D then Some (JObject [], r')
                 else map_option (\<lambda>(ps, r''). (JObject ps, r'')) (parse_members n [] r))
          else if c = 0x5B then
            (case skip_ws r of
               [] \<Rightarrow> None
             | d # r' \<Rightarrow>
                 if d = 0x5D then Some (JArray [], r')
                 else map_option (\<lambda>(vs, r''). (JArray vs, r'')) (parse_elements n [] r))
          else if c = 0x22 then map_option (\<lambda>(t, r'). (JString t, r')) (parse_chars r)
          else if take 4 (c # r) = js ''true'' then Some (JBool True, drop 4 (c # r))
          else if take 5 (c # r) = js ''false'' then Some (JBool False, drop 5 (c # r))
          else if take 4 (c # r) = js ''null'' then Some (JNull, drop 4 (c # r))
          else map_option (\<lambda>(x, r'). (JNumber x, r')) (parse_number (c # r)))"
| "parse_elements 0 acc s = None"
| "parse_elements (Suc n) acc s =
     (case parse_value n s of
        None \<Rightarrow> None
      | Some (v, r) \<Rightarrow>
          (case skip_ws r of
             [] \<Rightarrow> None
           | d # r' \<Rightarrow>
               if d = 0x2C then parse_elements n (acc @ [v]) r'
               else if d = 0x5D then Some (acc @ [v], r')
               else None))"
| "parse_members 0 acc s = None"
| "parse_members (Suc n) acc s =
     (case skip_ws s of
        [] \<Rightarrow> None
      | c # r \<Rightarrow>
          if c \<noteq> 0x22 then None
          else
            (case parse_chars r of
               None \<Rightarrow> None
             | Some (k, r1) \<Rightarrow>
                 (case skip_ws r1 of
                    [] \<Rightarrow> None
                  | d # r2 \<Rightarrow>
                      if d \<noteq> 0x3A then None
                      else
                        (case parse_value n r2 of
                           None \<Rightarrow> None
                         | Some (v, r3) \<Rightarrow>
                             (case skip_ws r3 of
                                [] \<Rightarrow> None
                              | e # r4 \<Rightarrow>
                                  if e = 0x2C then parse_members n (put_member acc k v) r4
                                  else if e = 0x7D then Some (put_member acc k v, r4)
                                  else None)))))"

text \<open>\<open>JSON.parse(text)\<close>: \<open>None\<close> is the \<open>SyntaxError\<close> it throws.\<close>

definition json_parse :: "jstring \<Rightarrow> jsval option" where
  "json_parse s =
     (case parse_value (length s) s of
        None \<Rightarrow> None
      | Some (v, r) \<Rightarrow> if skip_ws r = [] then Some v else None)"

section \<open>The serialiser\<close>

definition hex4 :: "code_unit \<Rightarrow> jstring" where
  "hex4 c =
     map (\<lambda>i. let d = take_bit 4 (drop_bit (4 * i) c) in if d < 10 then 0x30 + d else 0x57 + d) [3, 2, 1, 0]"

definition is_surrogate :: "code_unit \<Rightarrow> bool" where
  "is_surrogate c \<longleftrightarrow> 0xD800 \<le> c \<and> c \<le> 0xDFFF"

definition is_lead :: "code_unit \<Rightarrow> bool" where
  "is_lead c \<longleftrightarrow> 0xD800 \<le> c \<and> c \<le> 0xDBFF"

definition is_trail :: "code_unit \<Rightarrow> bool" where
  "is_trail c \<longleftrightarrow> 0xDC00 \<le> c \<and> c \<le> 0xDFFF"

text \<open>The escape QuoteJSONString writes for one code unit that is not part of a
  surrogate pair.\<close>

definition escape_unit :: "code_unit \<Rightarrow> jstring" where
  "escape_unit c =
     (if c = 0x08 then [0x5C, 0x62] else if c = 0x09 then [0x5C, 0x74]
      else if c = 0x0A then [0x5C, 0x6E] else if c = 0x0C then [0x5C, 0x66]
      else if c = 0x0D then [0x5C, 0x72] else if c = 0x22 then [0x5C, 0x22]
      else if c = 0x5C then [0x5C, 0x5C]
      else if c < 0x20 \<or> is_surrogate c then [0x5C, 0x75] @ hex4 c
      else [c])"

fun quote_units :: "jstring \<Rightarrow> jstring" where
  "quote_units [] = []"
| "quote_units [c] = escape_unit c"
| "quote_units (c # d # r) =
     (if is_lead c \<and> is_trail d then c # d # quote_units r else escape_unit c @ quote_units (d # r))"

definition quote :: "jstring \<Rightarrow> jstring" where
  "quote s = 0x22 # quote_units s @ [0x22]"

fun is_finite :: "jsnum \<Rightarrow> bool" where
  "is_finite (Fin m e) = True"
| "is_finite _ = False"

fun stringify :: "jsval \<Rightarrow> jstring option" where
  "stringify JUndefined = None"
| "stringify JNull = Some (js ''null'')"
| "stringify (JBool b) = Some (if b then js ''true'' else js ''false'')"
| "stringify (JNumber n) = Some (if is_finite n then number_to_string n else js ''null'')"
| "stringify (JString s) = Some (quote s)"
| "stringify (JArray vs) =
     Some (0x5B # join_comma (map (\<lambda>v. case stringify v of None \<Rightarrow> js ''null'' | Some t \<Rightarrow> t) vs) @ [0x5D])"
| "stringify (JObject ps) =
     Some (0x7B # join_comma (concat (map (\<lambda>(k, v). case stringify v of None \<Rightarrow> []
                                                   | Some t \<Rightarrow> [quote k @ 0x3A # t]) ps)) @ [0x7D])"

section \<open>The parser needs no more fuel than the text has code units\<close>

lemma length_skip_ws [simp]: "length (skip_ws s) \<le> length s"
  by (simp add: skip_ws_def length_dropWhile_le)

lemma prepend_Some: "prepend c r = Some (t, r') \<longleftrightarrow> (\<exists>t0. r = Some (t0, r') \<and> t = c # t0)"
  by (cases r) (auto simp: prepend_def)

lemma parse_chars_length: "parse_chars s = Some (t, r) \<Longrightarrow> length r < length s"
proof (induction s arbitrary: t rule: parse_chars.induct)
  case 1 then show ?case by simp
next
  case (2 c r0)
  consider "c = 0x22" | "c \<noteq> 0x22" "c = 0x5C" | "c \<noteq> 0x22" "c \<noteq> 0x5C" by blast
  then show ?case
  proof cases
    case 1 with "2.prems" show ?thesis by simp
  next
    case c: 2
    then obtain e r' where r0: "r0 = e # r'" using "2.prems" by (cases r0) auto
    show ?thesis
    proof (cases "e = 0x75")
      case True
      then obtain h1 h2 h3 h4 r'' where r': "r' = h1 # h2 # h3 # h4 # r''"
        using "2.prems" c r0 by (auto split: list.splits)
      with True c r0 "2.prems" obtain t0 where p: "parse_chars r'' = Some (t0, r)"
        and h: "list_all is_hex_digit [h1, h2, h3, h4]"
        by (auto simp: prepend_Some split: if_splits)
      have "length r < length r''"
        using "2.IH"(1) [OF c r0 True r' refl refl refl h] p by blast
      with r0 r' show ?thesis by simp
    next
      case False
      with c r0 "2.prems" obtain d t0 where d: "escape_char e = Some d" and p: "parse_chars r' = Some (t0, r)"
        by (auto simp: prepend_Some split: if_splits option.splits)
      have "length r < length r'"
        using "2.IH"(2) [OF c r0 False d] p by blast
      with r0 show ?thesis by simp
    qed
  next
    case c: 3
    with "2.prems" obtain t0 where p: "parse_chars r0 = Some (t0, r)" and "\<not> c < 0x20"
      by (auto simp: prepend_Some split: if_splits)
    then have "length r < length r0"
      using "2.IH"(3) [OF c] by blast
    then show ?thesis by simp
  qed
qed

lemma json_fraction_length: "json_fraction r = Some (fp, r2) \<Longrightarrow> length r2 \<le> length r"
  using length_dropWhile_le [of is_digit "tl r"]
  by (auto simp: json_fraction_def Let_def split: list.splits if_splits)

lemma json_exponent_length: "json_exponent r = Some (x, r3) \<Longrightarrow> length r3 \<le> length r"
proof -
  assume a: "json_exponent r = Some (x, r3)"
  have "length (dropWhile is_digit r2) \<le> length r" if "length r2 \<le> length r" for r2
    using length_dropWhile_le [of is_digit r2] that by linarith
  with a show ?thesis
    by (auto simp: json_exponent_def Let_def split: list.splits if_splits prod.splits)
qed

lemma parse_number_length: "parse_number s = Some (x, r) \<Longrightarrow> length r < length s"
proof -
  assume a: "parse_number s = Some (x, r)"
  obtain ng s1 where ns: "(case s of c # r \<Rightarrow> if c = 0x2D then (True, r) else (False, s) | [] \<Rightarrow> (False, [])) = (ng, s1)"
    by (metis surj_pair)
  have s1: "length s1 \<le> length s" using ns by (auto split: list.splits if_splits)
  from a ns obtain d r0 where d: "s1 = d # r0" by (auto simp: parse_number_def split: list.splits)
  let ?r1 = "if d = 0x30 then r0 else dropWhile is_digit r0"
  have r1: "length ?r1 \<le> length r0" by (simp add: length_dropWhile_le)
  from a ns d obtain fp r2 x' where f: "json_fraction ?r1 = Some (fp, r2)" and e: "json_exponent r2 = Some (x', r)"
    by (auto simp: parse_number_def Let_def split: if_splits option.splits prod.splits)
  from json_fraction_length [OF f] json_exponent_length [OF e] r1 s1 d show ?thesis by simp
qed


lemma value_step:
  assumes IHe: "\<And>acc s vs r. parse_elements n acc s = Some (vs, r) \<Longrightarrow>
                  length r < length s \<and> (\<forall>m \<ge> length s - length r. parse_elements m acc s = Some (vs, r))"
    and IHm: "\<And>acc s ps r. parse_members n acc s = Some (ps, r) \<Longrightarrow>
                  length r < length s \<and> (\<forall>m \<ge> length s - length r. parse_members m acc s = Some (ps, r))"
    and P: "parse_value (Suc n) s = Some (v, r)"
  shows "length r < length s \<and> (\<forall>m \<ge> length s - length r. parse_value m s = Some (v, r))"
proof -
  from P obtain c r1 where sk: "skip_ws s = c # r1" by (auto split: list.splits)
  have l1: "length r1 < length s" using length_skip_ws [of s] sk by simp
  have suc: "\<exists>m'. m = Suc m' \<and> length s - length r - 1 \<le> m'" if "m \<ge> length s - length r" "length r < length s" for m
    using that by (cases m) auto
  consider (obj) "c = 0x7B" | (arr) "c \<noteq> 0x7B" "c = 0x5B" | (str) "c \<noteq> 0x7B" "c \<noteq> 0x5B" "c = 0x22"
    | (lit) "c \<noteq> 0x7B" "c \<noteq> 0x5B" "c \<noteq> 0x22" by blast
  then show ?thesis
  proof cases
    case obj
    from P sk obj obtain d r' where sk2: "skip_ws r1 = d # r'" by (auto split: list.splits)
    have l2: "length r' < length r1" using length_skip_ws [of r1] sk2 by simp
    show ?thesis
    proof (cases "d = 0x7D")
      case True
      with P sk sk2 obj have "v = JObject [] \<and> r = r'" by simp
      with l1 l2 sk sk2 obj True suc show ?thesis by fastforce
    next
      case False
      with P sk sk2 obj obtain ps where pm: "parse_members n [] r1 = Some (ps, r)" and v: "v = JObject ps"
        by auto
      from IHm [OF pm] have "length r < length r1" and h: "\<forall>m \<ge> length r1 - length r. parse_members m [] r1 = Some (ps, r)"
        by simp_all
      with l1 sk sk2 obj False v suc show ?thesis by fastforce
    qed
  next
    case arr
    from P sk arr obtain d r' where sk2: "skip_ws r1 = d # r'" by (auto split: list.splits)
    have l2: "length r' < length r1" using length_skip_ws [of r1] sk2 by simp
    show ?thesis
    proof (cases "d = 0x5D")
      case True
      with P sk sk2 arr have "v = JArray [] \<and> r = r'" by simp
      with l1 l2 sk sk2 arr True suc show ?thesis by fastforce
    next
      case False
      with P sk sk2 arr obtain vs where pe: "parse_elements n [] r1 = Some (vs, r)" and v: "v = JArray vs"
        by auto
      from IHe [OF pe] have "length r < length r1" and h: "\<forall>m \<ge> length r1 - length r. parse_elements m [] r1 = Some (vs, r)"
        by simp_all
      with l1 sk sk2 arr False v suc show ?thesis by fastforce
    qed
  next
    case str
    with P sk obtain t where pc: "parse_chars r1 = Some (t, r)" and v: "v = JString t" by auto
    from parse_chars_length [OF pc] l1 have "length r < length s" by simp
    with pc v sk str suc show ?thesis by fastforce
  next
    case lit
    have fix_m: "parse_value (Suc m') s = parse_value (Suc n) s" for m'
      using sk lit by simp
    have "length r < length (c # r1)"
    proof -
      consider "take 4 (c # r1) = js ''true''" "r = drop 4 (c # r1)"
        | "take 5 (c # r1) = js ''false''" "r = drop 5 (c # r1)"
        | "take 4 (c # r1) = js ''null''" "r = drop 4 (c # r1)"
        | x where "parse_number (c # r1) = Some (x, r)"
        using P sk lit by (auto split: if_splits)
      then show ?thesis
      proof cases
        case 1 then have "length (take 4 (c # r1)) = 4" by simp
        with 1 show ?thesis by simp
      next
        case 2 then have "length (take 5 (c # r1)) = 5" by simp
        with 2 show ?thesis by simp
      next
        case 3 then have "length (take 4 (c # r1)) = 4" by simp
        with 3 show ?thesis by simp
      next
        case 4 then show ?thesis by (rule parse_number_length)
      qed
    qed
    with l1 have "length r < length s" by simp
    with P fix_m suc show ?thesis by fastforce
  qed
qed

lemma elements_step:
  assumes IHv: "\<And>s v r. parse_value n s = Some (v, r) \<Longrightarrow>
                  length r < length s \<and> (\<forall>m \<ge> length s - length r. parse_value m s = Some (v, r))"
    and IHe: "\<And>acc s vs r. parse_elements n acc s = Some (vs, r) \<Longrightarrow>
                  length r < length s \<and> (\<forall>m \<ge> length s - length r. parse_elements m acc s = Some (vs, r))"
    and P: "parse_elements (Suc n) acc s = Some (vs, r)"
  shows "length r < length s \<and> (\<forall>m \<ge> length s - length r. parse_elements m acc s = Some (vs, r))"
proof -
  from P obtain v r0 d r' where pv: "parse_value n s = Some (v, r0)" and sk: "skip_ws r0 = d # r'"
    by (auto split: option.splits list.splits)
  from IHv [OF pv] have l0: "length r0 < length s" and hv: "\<forall>m \<ge> length s - length r0. parse_value m s = Some (v, r0)"
    by simp_all
  have l1: "length r' < length r0" using length_skip_ws [of r0] sk by simp
  have suc: "\<exists>m'. m = Suc m' \<and> length s - length r - 1 \<le> m'" if "m \<ge> length s - length r" "length r < length s" for m
    using that by (cases m) auto
  show ?thesis
  proof (cases "d = 0x2C")
    case True
    with P pv sk have pe: "parse_elements n (acc @ [v]) r' = Some (vs, r)" by simp
    from IHe [OF pe] have "length r < length r'" and he: "\<forall>m \<ge> length r' - length r. parse_elements m (acc @ [v]) r' = Some (vs, r)"
      by simp_all
    with l0 l1 hv sk True suc show ?thesis by fastforce
  next
    case False
    with P pv sk have "d = 0x5D" and "vs = acc @ [v]" and "r = r'" by (auto split: if_splits)
    with l0 l1 hv sk suc show ?thesis by fastforce
  qed
qed

lemma members_step:
  assumes IHv: "\<And>s v r. parse_value n s = Some (v, r) \<Longrightarrow>
                  length r < length s \<and> (\<forall>m \<ge> length s - length r. parse_value m s = Some (v, r))"
    and IHm: "\<And>acc s ps r. parse_members n acc s = Some (ps, r) \<Longrightarrow>
                  length r < length s \<and> (\<forall>m \<ge> length s - length r. parse_members m acc s = Some (ps, r))"
    and P: "parse_members (Suc n) acc s = Some (ps, r)"
  shows "length r < length s \<and> (\<forall>m \<ge> length s - length r. parse_members m acc s = Some (ps, r))"
proof -
  from P obtain r1 k ra r2 v r3 e r4 where sk: "skip_ws s = 0x22 # r1" and pc: "parse_chars r1 = Some (k, ra)"
    and sk2: "skip_ws ra = 0x3A # r2" and pv: "parse_value n r2 = Some (v, r3)" and sk3: "skip_ws r3 = e # r4"
    by (auto split: option.splits list.splits if_splits)
  have l1: "length r1 < length s" using length_skip_ws [of s] sk by simp
  have l2: "length r2 < length ra" using length_skip_ws [of ra] sk2 by simp
  have l4: "length r4 < length r3" using length_skip_ws [of r3] sk3 by simp
  from parse_chars_length [OF pc] have la: "length ra < length r1" .
  from IHv [OF pv] have l3: "length r3 < length r2" and hv: "\<forall>m \<ge> length r2 - length r3. parse_value m r2 = Some (v, r3)"
    by simp_all
  have suc: "\<exists>m'. m = Suc m' \<and> length s - length r - 1 \<le> m'" if "m \<ge> length s - length r" "length r < length s" for m
    using that by (cases m) auto
  show ?thesis
  proof (cases "e = 0x2C")
    case True
    with P sk pc sk2 pv sk3 have pm: "parse_members n (put_member acc k v) r4 = Some (ps, r)" by simp
    from IHm [OF pm] have "length r < length r4" and hm: "\<forall>m \<ge> length r4 - length r. parse_members m (put_member acc k v) r4 = Some (ps, r)"
      by simp_all
    with l1 l2 l3 l4 la hv sk pc sk2 sk3 True suc show ?thesis by fastforce
  next
    case False
    with P sk pc sk2 pv sk3 have "e = 0x7D" and "ps = put_member acc k v" and "r = r4" by (auto split: if_splits)
    with l1 l2 l3 l4 la hv sk pc sk2 sk3 suc show ?thesis by fastforce
  qed
qed

lemma parse_value_fuel:
  "(\<forall>s v r. parse_value n s = Some (v, r) \<longrightarrow>
      length r < length s \<and> (\<forall>m \<ge> length s - length r. parse_value m s = Some (v, r))) \<and>
   (\<forall>acc s vs r. parse_elements n acc s = Some (vs, r) \<longrightarrow>
      length r < length s \<and> (\<forall>m \<ge> length s - length r. parse_elements m acc s = Some (vs, r))) \<and>
   (\<forall>acc s ps r. parse_members n acc s = Some (ps, r) \<longrightarrow>
      length r < length s \<and> (\<forall>m \<ge> length s - length r. parse_members m acc s = Some (ps, r)))"
proof (induction n)
  case 0
  then show ?case by simp
next
  case (Suc n)
  then have v: "\<And>s v r. parse_value n s = Some (v, r) \<Longrightarrow>
                  length r < length s \<and> (\<forall>m \<ge> length s - length r. parse_value m s = Some (v, r))"
    and e: "\<And>acc s vs r. parse_elements n acc s = Some (vs, r) \<Longrightarrow>
                  length r < length s \<and> (\<forall>m \<ge> length s - length r. parse_elements m acc s = Some (vs, r))"
    and m: "\<And>acc s ps r. parse_members n acc s = Some (ps, r) \<Longrightarrow>
                  length r < length s \<and> (\<forall>m \<ge> length s - length r. parse_members m acc s = Some (ps, r))"
    by blast+
  have "\<forall>s v r. parse_value (Suc n) s = Some (v, r) \<longrightarrow>
      length r < length s \<and> (\<forall>m \<ge> length s - length r. parse_value m s = Some (v, r))"
    using value_step [OF e m] by blast
  moreover have "\<forall>acc s vs r. parse_elements (Suc n) acc s = Some (vs, r) \<longrightarrow>
      length r < length s \<and> (\<forall>m \<ge> length s - length r. parse_elements m acc s = Some (vs, r))"
    using elements_step [OF v e] by blast
  moreover have "\<forall>acc s ps r. parse_members (Suc n) acc s = Some (ps, r) \<longrightarrow>
      length r < length s \<and> (\<forall>m \<ge> length s - length r. parse_members m acc s = Some (ps, r))"
    using members_step [OF v m] by blast
  ultimately show ?case by (intro conjI)
qed

text \<open>The fuel \<open>json_parse\<close> gives the parser, the length of the text, is never what
  makes it fail: it accepts a text exactly when the parser accepts it with some fuel.\<close>

lemma json_parse_iff:
  "json_parse s = Some v \<longleftrightarrow> (\<exists>n r. parse_value n s = Some (v, r) \<and> skip_ws r = [])"
proof
  assume a: "json_parse s = Some v"
  obtain r where "parse_value (length s) s = Some (v, r)" and "skip_ws r = []"
  proof (cases "parse_value (length s) s")
    case (Some x)
    with a that show ?thesis by (cases x) (simp add: json_parse_def split: if_splits)
  qed (use a in \<open>simp add: json_parse_def\<close>)
  then show "\<exists>n r. parse_value n s = Some (v, r) \<and> skip_ws r = []" by blast
next
  assume "\<exists>n r. parse_value n s = Some (v, r) \<and> skip_ws r = []"
  then obtain n r where p: "parse_value n s = Some (v, r)" and w: "skip_ws r = []" by blast
  have "\<forall>m \<ge> length s - length r. parse_value m s = Some (v, r)"
    using parse_value_fuel [of n] p by blast
  then have "parse_value (length s) s = Some (v, r)" by simp
  with w show "json_parse s = Some v" by (simp add: json_parse_def)
qed

section \<open>The parser never yields \<open>undefined\<close>\<close>

lemma parse_value_not_undefined: "parse_value n s \<noteq> Some (JUndefined, r)"
proof (cases n)
  case 0
  then show ?thesis by simp
next
  case (Suc m)
  then show ?thesis
    by (auto simp: Let_def split: list.splits if_splits option.splits prod.splits)
qed

lemma json_parse_not_undefined: "json_parse p \<noteq> Some JUndefined"
  using parse_value_not_undefined [of "length p" p]
  by (auto simp: json_parse_def split: option.splits if_splits)

end
