(* ===== verification/JsonNumber.thy ===== *)
theory JsonNumber
  imports Json
begin

text \<open>
  Numbers between \<open>JSON.stringify\<close> and \<open>JSON.parse\<close>: Number::toString
  (\<open>number_to_string\<close>, four output forms) read back by the JSON number grammar
  (\<open>parse_number\<close>) gives the number again, for every finite number in canonical form
  (lemma \<open>parse_number_to_string\<close>). \<open>fix_message\<close> is the inbound wire format of
  the specification (section 6), the message a tracked device publishes on \<open>MapL\<close>;
  \<open>json_parse_fix_message\<close> shows that the component's decoder recovers the fix from it.
  The digit lemmas relate \<open>dec_digits\<close> (printing) and \<open>radix_value\<close> (reading).
\<close>

section \<open>The inbound message and the end of a number\<close>

text \<open>\<open>{"Latitude":a,"Longitude":b}\<close>, as \<open>JSON.stringify\<close> writes such an object.\<close>

definition fix_message :: "jsnum \<Rightarrow> jsnum \<Rightarrow> jstring" where
  "fix_message a b =
     js ''{\"Latitude\":'' @ number_to_string a @ js '',\"Longitude\":'' @ number_to_string b @ js ''}''"

text \<open>A text after which the JSON number grammar stops: nothing, or a character that
  cannot continue a number.\<close>

definition stops_number :: "jstring \<Rightarrow> bool" where
  "stops_number r \<longleftrightarrow>
     (case r of [] \<Rightarrow> True | c # _ \<Rightarrow> \<not> is_digit c \<and> c \<noteq> 0x2E \<and> c \<noteq> 0x65 \<and> c \<noteq> 0x45)"

section \<open>Digits\<close>

lemma radix_value_append:
  "radix_value b v acc (xs @ ys) = radix_value b v (radix_value b v acc xs) ys"
  by (induction xs arbitrary: acc) simp_all

lemma radix_value_acc:
  "radix_value b v acc xs = acc * b ^ length xs + radix_value b v 0 xs"
proof (induction xs arbitrary: acc)
  case Nil then show ?case by simp
next
  case (Cons c xs)
  have "radix_value b v acc (c # xs) = (b * acc + v c) * b ^ length xs + radix_value b v 0 xs"
    using Cons [of "b * acc + v c"] by simp
  moreover have "radix_value b v 0 (c # xs) = v c * b ^ length xs + radix_value b v 0 xs"
    using Cons [of "v c"] by simp
  ultimately show ?case by (simp add: algebra_simps)
qed

lemma digits_value_append:
  "digits_value (xs @ ys) = digits_value xs * 10 ^ length ys + digits_value ys"
  by (simp add: radix_value_append radix_value_acc [of 10 digit_value "digits_value xs" ys])

lemma digits_value_Cons:
  "digits_value (c # ys) = digit_value c * 10 ^ length ys + digits_value ys"
proof -
  have "digits_value (c # ys) = radix_value 10 digit_value (digit_value c) ys" by simp
  also have "\<dots> = digit_value c * 10 ^ length ys + digits_value ys"
    by (rule radix_value_acc)
  finally show ?thesis .
qed

lemma digit_char [simp]:
  assumes "n < 10"
  shows "is_digit (48 + word_of_nat n :: code_unit)" and "digit_value (48 + word_of_nat n :: code_unit) = int n"
proof -
  have "unat (word_of_nat (48 + n) :: 16 word) = 48 + n"
    unfolding unat_of_nat using assms by simp
  then have "uint (word_of_nat (48 + n) :: 16 word) = int (48 + n)"
    by (simp only: uint_nat)
  moreover have "(word_of_nat (48 + n) :: 16 word) = 48 + word_of_nat n" by simp
  ultimately have u: "uint (48 + word_of_nat n :: 16 word) = 48 + int n" by simp
  show "is_digit (48 + word_of_nat n :: code_unit)"
    using u assms by (simp add: is_digit_def word_le_def)
  show "digit_value (48 + word_of_nat n :: code_unit) = int n"
    using u by (simp add: digit_value_def)
qed

lemma dec_digits_props:
  "list_all is_digit (dec_digits k) \<and> digits_value (dec_digits k) = int k \<and> dec_digits k \<noteq> []"
proof (induction k rule: dec_digits.induct)
  case (1 n)
  show ?case
  proof (cases "n < 10")
    case True then show ?thesis by (simp add: dec_digits.simps)
  next
    case False
    with 1 have "list_all is_digit (dec_digits (n div 10)) \<and> digits_value (dec_digits (n div 10)) = int (n div 10)"
      by simp
    moreover have "int (n div 10) * 10 + int (n mod 10) = int n"
      by (metis div_mult_mod_eq of_nat_add of_nat_mult of_nat_numeral)
    ultimately show ?thesis using False
      by (simp add: dec_digits.simps [of n] digits_value_append)
  qed
qed

lemma norm_dec_stop: "m \<noteq> 0 \<Longrightarrow> \<not> 10 dvd m \<Longrightarrow> norm_dec m e = (m, e)"
  by (subst norm_dec.simps) (simp add: dvd_eq_mod_eq_0)

lemma norm_dec_times_pow: "m \<noteq> 0 \<Longrightarrow> norm_dec (m * 10 ^ j) e = norm_dec m (e + int j)"
proof (induction j arbitrary: e)
  case 0 then show ?case by simp
next
  case (Suc j)
  have "norm_dec (m * 10 ^ Suc j) e = norm_dec (m * 10 ^ j) (e + 1)"
    using Suc.prems by (subst norm_dec.simps) simp
  with Suc show ?case by (simp add: algebra_simps)
qed

lemma fin_canonical: "m \<noteq> 0 \<Longrightarrow> \<not> 10 dvd m \<Longrightarrow> fin (m * 10 ^ j) e = Fin m (e + int j)"
  by (simp add: fin_def norm_dec_times_pow norm_dec_stop)

lemma dec_digits_hd:
  "0 < k \<Longrightarrow> \<exists>d ds. dec_digits k = d # ds \<and> d \<noteq> 0x30"
proof (induction k rule: dec_digits.induct)
  case (1 n)
  show ?case
  proof (cases "n < 10")
    case True
    have "unat (word_of_nat n :: 16 word) = n" unfolding unat_of_nat using True by simp
    then have "(word_of_nat n :: 16 word) \<noteq> 0" using "1.prems" by auto
    with True show ?thesis by (simp add: dec_digits.simps)
  next
    case False
    then have "0 < n div 10" by simp
    with 1 False obtain d ds where "dec_digits (n div 10) = d # ds" "d \<noteq> 0x30" by blast
    with False show ?thesis by (simp add: dec_digits.simps [of n])
  qed
qed

lemma take_drop_digits:
  assumes "list_all is_digit ds" and "r = [] \<or> \<not> is_digit (hd r)"
  shows "takeWhile is_digit (ds @ r) = ds" and "dropWhile is_digit (ds @ r) = r"
  using assms by (induction ds) (cases r, auto)+

lemma stops_number_nondigit: "stops_number r \<Longrightarrow> r = [] \<or> \<not> is_digit (hd r)"
  by (auto simp: stops_number_def split: list.splits)

lemma json_fraction_stop: "stops_number r \<Longrightarrow> json_fraction r = Some ([], r)"
  by (auto simp: stops_number_def json_fraction_def split: list.splits)

lemma json_exponent_stop: "stops_number r \<Longrightarrow> json_exponent r = Some (0, r)"
  by (auto simp: stops_number_def json_exponent_def split: list.splits)

lemma json_fraction_digits:
  assumes "list_all is_digit ds" and "ds \<noteq> []" and "r = [] \<or> \<not> is_digit (hd r)"
  shows "json_fraction (0x2E # ds @ r) = Some (ds, r)"
  using assms by (simp add: json_fraction_def take_drop_digits)

lemma digit_zero [simp]: "is_digit 0x30" "digit_value 0x30 = 0"
  by (simp_all add: is_digit_def digit_value_def)

lemma digits_zeros [simp]: "list_all is_digit (replicate j 0x30)"
  by (induction j) simp_all

lemma digits_value_zeros [simp]: "digits_value (replicate j 0x30) = 0"
  by (induction j) (simp_all add: digits_value_Cons)

lemma parse_number_digit:
  assumes sg: "(pre = [] \<and> c = 1) \<or> (pre = [0x2D] \<and> c = -1)" and d: "is_digit d"
    and f: "json_fraction (if d = 0x30 then t else dropWhile is_digit t) = Some (fp, r2)"
    and x: "json_exponent r2 = Some (x, r3)"
  shows "parse_number (pre @ d # t) =
           Some (fin (c * digits_value ((if d = 0x30 then [d] else d # takeWhile is_digit t) @ fp))
                     (x - int (length fp)), r3)"
proof -
  have "d \<noteq> 0x2D" using d by (auto simp: is_digit_def)
  with sg d f x show ?thesis by (auto simp: parse_number_def Let_def)
qed

lemma json_exponent_digits:
  assumes "list_all is_digit ds" and "ds \<noteq> []" and "r = [] \<or> \<not> is_digit (hd r)"
  shows "json_exponent (0x65 # 0x2B # ds @ r) = Some (digits_value ds, r)"
    and "json_exponent (0x65 # 0x2D # ds @ r) = Some (- digits_value ds, r)"
  using assms by (simp_all add: json_exponent_def take_drop_digits Let_def)

lemma sign_fin:
  assumes "(pre = [] \<and> c = 1) \<or> (pre = [0x2D] \<and> c = -1)" and "0 < k" and "\<not> 10 dvd int k"
  shows "fin (c * (int k * 10 ^ j)) x = Fin (c * int k) (x + int j)"
proof -
  have "c * int k \<noteq> 0" and "\<not> 10 dvd (c * int k)" using assms by auto
  then show ?thesis using fin_canonical [of "c * int k" j x] by (simp add: algebra_simps)
qed

lemma pos_to_string_A:
  assumes k0: "0 < k" and nd: "\<not> 10 dvd int k" and st: "stops_number r"
    and sg: "(pre = [] \<and> c = 1) \<or> (pre = [0x2D] \<and> c = -1)"
    and br: "0 \<le> e" "int (length (dec_digits k)) + e \<le> 21"
  shows "parse_number (pre @ pos_to_string k e @ r) = Some (Fin (c * int k) e, r)"
proof -
  obtain d ds' where dd: "dec_digits k = d # ds'" "d \<noteq> 0x30" using dec_digits_hd k0 by blast
  have dig: "list_all is_digit (dec_digits k)" "digits_value (dec_digits k) = int k"
    using dec_digits_props by auto
  have pts: "pos_to_string k e = dec_digits k @ replicate (nat e) 0x30"
    using br by (simp add: pos_to_string_def Let_def)
  let ?z = "replicate (nat e) (0x30 :: code_unit)"
  have tw: "takeWhile is_digit (ds' @ ?z @ r) = ds' @ ?z" and dw: "dropWhile is_digit (ds' @ ?z @ r) = r"
    using take_drop_digits [of "ds' @ ?z" r] dig dd stops_number_nondigit [OF st] by simp_all
  have p: "parse_number (pre @ d # ds' @ ?z @ r) = Some (fin (c * digits_value (d # ds' @ ?z)) 0, r)"
    using parse_number_digit [OF sg _ _ json_exponent_stop [OF st], of d "ds' @ ?z @ r" "[]"]
      dd dig tw dw json_fraction_stop [OF st] by simp
  have "digits_value (d # ds' @ ?z) = int k * 10 ^ nat e"
    using dig dd digits_value_append [of "d # ds'" ?z] by simp
  with p pts dd sign_fin [OF sg k0 nd, of "nat e" 0] br show ?thesis by simp
qed

lemma pos_to_string_B:
  assumes k0: "0 < k" and nd: "\<not> 10 dvd int k" and st: "stops_number r"
    and sg: "(pre = [] \<and> c = 1) \<or> (pre = [0x2D] \<and> c = -1)"
    and br: "e < 0" "0 < int (length (dec_digits k)) + e" "int (length (dec_digits k)) + e \<le> 21"
  shows "parse_number (pre @ pos_to_string k e @ r) = Some (Fin (c * int k) e, r)"
proof -
  obtain d ds' where dd: "dec_digits k = d # ds'" "d \<noteq> 0x30" using dec_digits_hd k0 by blast
  have dig: "list_all is_digit (dec_digits k)" "digits_value (dec_digits k) = int k"
    using dec_digits_props by auto
  define n where "n = nat (int (length (dec_digits k)) + e)"
  have n: "0 < n" "n < length (dec_digits k)" using br by (auto simp: n_def)
  have pts: "pos_to_string k e = take n (dec_digits k) @ 0x2E # drop n (dec_digits k)"
    using br by (simp add: pos_to_string_def Let_def n_def)
  have tk: "take n (dec_digits k) = d # take (n - 1) ds'" using dd n by (cases n) simp_all
  let ?f = "drop n (dec_digits k)"
  have fd: "list_all is_digit ?f" "?f \<noteq> []" using dig n by (simp_all add: list_all_iff in_set_dropD)
  have "list_all is_digit ds'" using dig dd by simp
  then have dig': "list_all is_digit (take (n - 1) ds')" by (metis append_take_drop_id list_all_append)
  have tw: "takeWhile is_digit (take (n - 1) ds' @ 0x2E # ?f @ r) = take (n - 1) ds'"
    and dw: "dropWhile is_digit (take (n - 1) ds' @ 0x2E # ?f @ r) = 0x2E # ?f @ r"
    using take_drop_digits [of "take (n - 1) ds'" "0x2E # ?f @ r"] dig' by (simp_all add: is_digit_def)
  have fr: "json_fraction (0x2E # ?f @ r) = Some (?f, r)"
    using json_fraction_digits [OF fd stops_number_nondigit [OF st]] .
  have p: "parse_number (pre @ d # take (n - 1) ds' @ 0x2E # ?f @ r) =
      Some (fin (c * digits_value (d # take (n - 1) ds' @ ?f)) (0 - int (length ?f)), r)"
    using parse_number_digit [OF sg _ _ json_exponent_stop [OF st], of d "take (n - 1) ds' @ 0x2E # ?f @ r" ?f]
      dd dig tw dw fr by simp
  have "d # take (n - 1) ds' @ ?f = dec_digits k" using tk by (metis append_Cons append_take_drop_id)
  then have v: "digits_value (d # take (n - 1) ds' @ ?f) = int k * 10 ^ 0" using dig by simp
  have x: "0 - int (length ?f) = e" using n br by (simp add: n_def)
  from p pts tk v x sign_fin [OF sg k0 nd, of 0 e] show ?thesis by simp
qed

lemma pos_to_string_C:
  assumes k0: "0 < k" and nd: "\<not> 10 dvd int k" and st: "stops_number r"
    and sg: "(pre = [] \<and> c = 1) \<or> (pre = [0x2D] \<and> c = -1)"
    and br: "-6 < int (length (dec_digits k)) + e" "int (length (dec_digits k)) + e \<le> 0"
  shows "parse_number (pre @ pos_to_string k e @ r) = Some (Fin (c * int k) e, r)"
proof -
  have dig: "list_all is_digit (dec_digits k)" "digits_value (dec_digits k) = int k" "dec_digits k \<noteq> []"
    using dec_digits_props by auto
  let ?z = "replicate (nat (- (int (length (dec_digits k)) + e))) (0x30 :: code_unit)"
  have "0 < length (dec_digits k)" using dig(3) by simp
  then have "e < 0" using br by linarith
  then have pts: "pos_to_string k e = [0x30, 0x2E] @ ?z @ dec_digits k"
    using br by (simp add: pos_to_string_def Let_def)
  have fd: "list_all is_digit (?z @ dec_digits k)" "?z @ dec_digits k \<noteq> []" using dig by simp_all
  have fr: "json_fraction (0x2E # (?z @ dec_digits k) @ r) = Some (?z @ dec_digits k, r)"
    using json_fraction_digits [OF fd stops_number_nondigit [OF st]] .
  have p: "parse_number (pre @ 0x30 # 0x2E # ?z @ dec_digits k @ r) =
      Some (fin (c * digits_value ([0x30] @ ?z @ dec_digits k)) (0 - int (length (?z @ dec_digits k))), r)"
    using parse_number_digit [OF sg _ _ json_exponent_stop [OF st], of "0x30" "0x2E # ?z @ dec_digits k @ r"] fr
    by simp
  have v: "digits_value ([0x30] @ ?z @ dec_digits k) = int k * 10 ^ 0"
    using dig digits_value_append [of "[0x30] @ ?z" "dec_digits k"] digits_value_append [of "[0x30]" ?z] by simp
  have x: "0 - int (length (?z @ dec_digits k)) = e" using br by simp
  from p pts v x sign_fin [OF sg k0 nd, of 0 e] show ?thesis by simp
qed

lemma json_fraction_other: "c \<noteq> 0x2E \<Longrightarrow> json_fraction (c # r) = Some ([], c # r)"
  by (simp add: json_fraction_def)

lemma json_exponent_int:
  assumes "stops_number r"
  shows "json_exponent (0x65 # (if x < 0 then 0x2D else 0x2B) # dec_digits (nat \<bar>x\<bar>) @ r) = Some (x, r)"
proof -
  have d: "list_all is_digit (dec_digits (nat \<bar>x\<bar>))" "digits_value (dec_digits (nat \<bar>x\<bar>)) = \<bar>x\<bar>"
    "dec_digits (nat \<bar>x\<bar>) \<noteq> []"
    using dec_digits_props [of "nat \<bar>x\<bar>"] by auto
  show ?thesis
    using json_exponent_digits [OF d(1) d(3) stops_number_nondigit [OF assms]] d(2) by auto
qed

lemma pos_to_string_D:
  assumes k0: "0 < k" and nd: "\<not> 10 dvd int k" and st: "stops_number r"
    and sg: "(pre = [] \<and> c = 1) \<or> (pre = [0x2D] \<and> c = -1)"
    and br: "21 < int (length (dec_digits k)) + e \<or> int (length (dec_digits k)) + e \<le> -6"
  shows "parse_number (pre @ pos_to_string k e @ r) = Some (Fin (c * int k) e, r)"
proof -
  obtain d rest where dd: "dec_digits k = d # rest" "d \<noteq> 0x30" using dec_digits_hd k0 by blast
  have dig: "list_all is_digit (dec_digits k)" "digits_value (dec_digits k) = int k"
    using dec_digits_props by auto
  define x where "x = int (length (dec_digits k)) + e - 1"
  let ?E = "0x65 # (if x < 0 then 0x2D else 0x2B) # dec_digits (nat \<bar>x\<bar>) @ r"
  have ex: "json_exponent ?E = Some (x, r)" using json_exponent_int [OF st] .
  have nde: "\<not> is_digit 0x65" by (simp add: is_digit_def)
  show ?thesis
  proof (cases "rest = []")
    case True
    have pts: "pos_to_string k e @ r = d # ?E"
      using br dd True by (auto simp: pos_to_string_def Let_def x_def)
    have tw: "takeWhile is_digit ?E = []" "dropWhile is_digit ?E = ?E" using nde by simp_all
    have p: "parse_number (pre @ d # ?E) = Some (fin (c * digits_value [d]) (x - 0), r)"
      using parse_number_digit [OF sg _ _ ex, of d "?E" "[]"] dd dig tw json_fraction_other [of "0x65"] by simp
    have v: "digits_value [d] = int k * 10 ^ 0" using dig dd True by simp
    have "x = e" using dd True by (simp add: x_def)
    with p pts v sign_fin [OF sg k0 nd, of 0 e] show ?thesis by simp
  next
    case False
    have pts: "pos_to_string k e @ r = d # 0x2E # rest @ ?E"
      using br dd False by (auto simp: pos_to_string_def Let_def x_def)
    have dr: "list_all is_digit rest" using dig dd by simp
    have tw: "takeWhile is_digit (0x2E # rest @ ?E) = []" "dropWhile is_digit (0x2E # rest @ ?E) = 0x2E # rest @ ?E"
      by (simp_all add: is_digit_def)
    have fr: "json_fraction (0x2E # rest @ ?E) = Some (rest, ?E)"
      using json_fraction_digits [OF dr False] nde by simp
    have p: "parse_number (pre @ d # 0x2E # rest @ ?E) =
        Some (fin (c * digits_value ([d] @ rest)) (x - int (length rest)), r)"
      using parse_number_digit [OF sg _ _ ex, of d "0x2E # rest @ ?E" rest] dd dig tw fr by simp
    have v: "digits_value ([d] @ rest) = int k * 10 ^ 0" using dig dd by simp
    have "x - int (length rest) = e" using dd by (simp add: x_def)
    with p pts v sign_fin [OF sg k0 nd, of 0 e] show ?thesis by simp
  qed
qed

lemma pos_to_string_parse:
  assumes "0 < k" and "\<not> 10 dvd int k" and "stops_number r"
    and "(pre = [] \<and> c = 1) \<or> (pre = [0x2D] \<and> c = -1)"
  shows "parse_number (pre @ pos_to_string k e @ r) = Some (Fin (c * int k) e, r)"
proof -
  have "0 < length (dec_digits k)" using dec_digits_props [of k] by simp
  then consider "0 \<le> e" "int (length (dec_digits k)) + e \<le> 21"
    | "e < 0" "0 < int (length (dec_digits k)) + e" "int (length (dec_digits k)) + e \<le> 21"
    | "-6 < int (length (dec_digits k)) + e" "int (length (dec_digits k)) + e \<le> 0"
    | "21 < int (length (dec_digits k)) + e \<or> int (length (dec_digits k)) + e \<le> -6"
    by linarith
  then show ?thesis
  proof cases
    case 1 then show ?thesis using pos_to_string_A assms by blast
  next
    case 2 then show ?thesis using pos_to_string_B assms by blast
  next
    case 3 then show ?thesis using pos_to_string_C assms by blast
  next
    case 4 then show ?thesis using pos_to_string_D assms by blast
  qed
qed

text \<open>Reading back what Number::toString writes gives the number again, for every
  finite number in canonical form followed by a character that ends a JSON number.\<close>

lemma parse_number_to_string:
  assumes "canonical (Fin m e)" and "stops_number r"
  shows "parse_number (number_to_string (Fin m e) @ r) = Some (Fin m e, r)"
proof -
  consider "m = 0" | "0 < m" | "m < 0" by linarith
  then show ?thesis
  proof cases
    case 1
    with assms have "e = 0" by simp
    with 1 show ?thesis
      using parse_number_digit [of "[]" 1 "0x30" r "[]" r 0 r] json_fraction_stop [OF assms(2)]
        json_exponent_stop [OF assms(2)]
      by (simp add: fin_def norm_dec.simps)
  next
    case 2
    then have k: "0 < nat m" "\<not> 10 dvd int (nat m)" using assms(1) by simp_all
    from pos_to_string_parse [OF k assms(2), of "[]" 1 e] 2 show ?thesis by simp
  next
    case 3
    then have k: "0 < nat (- m)" "\<not> 10 dvd int (nat (- m))" using assms(1) by simp_all
    from pos_to_string_parse [OF k assms(2), of "[0x2D]" "-1" e] 3 show ?thesis by simp
  qed
qed

lemma parse_number_head:
  "parse_number s = Some z \<Longrightarrow> \<exists>h t. s = h # t \<and> (h = 0x2D \<or> is_digit h)"
  by (cases s) (auto simp: parse_number_def split: if_splits)

lemma parse_value_number:
  assumes "canonical x" and "is_finite x" and "stops_number r"
  shows "parse_value (Suc f) (number_to_string x @ r) = Some (JNumber x, r)"
proof -
  obtain m e where x: "x = Fin m e" using assms(2) by (cases x) auto
  have p: "parse_number (number_to_string x @ r) = Some (x, r)"
    using parse_number_to_string assms x by simp
  then obtain h t where ht: "number_to_string x @ r = h # t" and h: "h = 0x2D \<or> is_digit h"
    using parse_number_head by blast
  have nws: "\<not> is_json_ws h" using h by (auto simp: is_json_ws_def is_digit_def)
  have "h \<noteq> 0x7B" "h \<noteq> 0x5B" "h \<noteq> 0x22" "h \<noteq> 0x74" "h \<noteq> 0x66" "h \<noteq> 0x6E"
    using h by (auto simp: is_digit_def)
  with ht nws p show ?thesis by (simp add: skip_ws_def)
qed

lemma stops_number_Cons [simp]:
  "stops_number (0x2C # r)" "stops_number (0x7D # r)" "stops_number (0x5D # r)" "stops_number []"
  by (simp_all add: stops_number_def is_digit_def)

text \<open>The message a tracked device publishes parses back to the fix it encodes.\<close>

lemma json_parse_fix_message:
  assumes "canonical a" "is_finite a" "canonical b" "is_finite b"
  shows "json_parse (fix_message a b) =
           Some (JObject [(js ''Latitude'', JNumber a), (js ''Longitude'', JNumber b)])"
proof -
  obtain f where f: "length (fix_message a b) = Suc (Suc (Suc (Suc f)))"
    by (rule that [of "length (fix_message a b) - 4"]) (simp add: fix_message_def)
  have na: "parse_value (Suc g) (number_to_string a @ r) = Some (JNumber a, r)" if "stops_number r" for g r
    using parse_value_number [OF assms(1,2) that] .
  have nb: "parse_value (Suc g) (number_to_string b @ r) = Some (JNumber b, r)" if "stops_number r" for g r
    using parse_value_number [OF assms(3,4) that] .
  show ?thesis
    unfolding json_parse_def f parse_value.simps(2) [of "Suc (Suc (Suc f))"]
    by (simp add: fix_message_def skip_ws_def is_json_ws_def na nb put_member_def prepend_def
        del: parse_value.simps(2))
qed

end
