(* ===== verification/Session.thy ===== *)
theory Session
  imports Tracker JsonNumber
begin

text \<open>
  The component at run time: \<open>MapComponent\<close> together with its MQTT client (paho-mqtt)
  and the broker, driven by the events of the page.
  \<^item> \<open>session\<close> extends the component's record with the client's connection state, its
    subscriptions, the messages it has published, the messages the broker holds for it
    (\<open>pending\<close>, in delivery order), the outstanding geolocation requests and the
    life-cycle flags.
  \<^item> The handlers are translated one per method: \<open>ngOnInit\<close> (lines 24--81),
    \<open>onSuccess\<close> of the connect options (43--47), \<open>onMessageArrived\<close> (54--63),
    \<open>getMarker\<close> (84--90), \<open>sendMessage\<close> (93--99), \<open>mqttMarker\<close> (102--108),
    \<open>gpsMarker\<close> with its callback (183--191) and \<open>ngOnDestroy\<close> (193--195).
  \<^item> The client follows paho-mqtt's contract: \<open>publish\<close>, \<open>subscribe\<close> and
    \<open>unsubscribe\<close> throw \<open>InvalidState\<close> unless the client is connected. The broker
    delivers a message published on a topic to every subscriber of the topic, the
    publishing client included (MQTT 3.1.1 has no no-local option), in publication
    order.
  \<^item> paho-mqtt runs \<open>onMessageArrived\<close> inside a try/catch of its message
    dispatcher (\<open>ClientImpl._handleMessage\<close>); an exception disconnects the client
    with \<open>AMQJS0005E Internal error\<close> (\<open>handle_publish\<close>). The component sets no
    \<open>onConnectionLost\<close> and no reconnect option, so the connection stays \<open>Lost\<close>.
  \<^item> \<open>session_step lib\<close> is the step relation: one rule per event (initialisation, the
    outcome of the connection, a publication by the tracked device, a delivery, a click,
    a geolocation answer, destruction). An exception thrown by a handler ends that handler
    only, as in the browser: the step keeps the state the handler left.
\<close>

section \<open>The session state\<close>

datatype conn_state = NoClient | Connecting | Connected | ConnectFailed | Lost

record session = map_component +
  conn :: conn_state
  subscriptions :: "jstring list"
  published :: "(jstring \<times> jstring) list"
  pending :: "jstring list"
  gps_requests :: nat
  initialised :: bool
  destroyed :: bool

definition topic :: jstring where
  "topic = js ''MapL''"

definition initial_session :: session where
  "initial_session =
     \<lparr>lastX = JNumber zero, lastY = JNumber zero,
      data = JArray [JNumber (Fin 239494324 (-7)), JNumber (Fin 1209289277 (-7))],
      messages = JUndefined, mqttData = JUndefined, myIcon = None,
      marker_default_icon = Some DefaultIcon, surface = [], conn = NoClient, subscriptions = [], published = [], pending = [], gps_requests = 0,
      initialised = False, destroyed = False\<rparr>"

section \<open>The MQTT client\<close>

definition subscribe :: "jstring \<Rightarrow> 'z session_scheme \<Rightarrow> (exn, 'z session_scheme) outcome" where
  "subscribe t s =
     (if conn s \<noteq> Connected then Exc InvalidState s
      else Ok (s\<lparr>subscriptions := (if t \<in> set (subscriptions s) then subscriptions s
                                    else subscriptions s @ [t])\<rparr>))"

definition unsubscribe :: "jstring \<Rightarrow> 'z session_scheme \<Rightarrow> (exn, 'z session_scheme) outcome" where
  "unsubscribe t s =
     (if conn s \<noteq> Connected then Exc InvalidState s
      else Ok (s\<lparr>subscriptions := filter (\<lambda>u. u \<noteq> t) (subscriptions s)\<rparr>))"

text \<open>A publication by this client; the broker queues it for this client too when it is
  subscribed to the topic.\<close>

definition publish :: "jstring \<Rightarrow> jstring \<Rightarrow> 'z session_scheme \<Rightarrow> (exn, 'z session_scheme) outcome" where
  "publish t p s =
     (if conn s \<noteq> Connected then Exc InvalidState s
      else Ok (s\<lparr>published := published s @ [(t, p)],
                 pending := (if t = topic \<and> t \<in> set (subscriptions s) then pending s @ [p]
                             else pending s)\<rparr>))"

text \<open>\<open>client.publish(t, JSON.stringify(v))\<close>.\<close>

definition publish_json :: "jstring \<Rightarrow> jsval \<Rightarrow> 'z session_scheme \<Rightarrow> (exn, 'z session_scheme) outcome" where
  "publish_json t v s =
     (case stringify v of None \<Rightarrow> Exc InvalidArgument s | Some p \<Rightarrow> publish t p s)"

section \<open>The handlers\<close>

text \<open>\<open>ngOnInit\<close>: the map and its tiles, then the client (created, connecting, with its
  message handler installed), then the marker icon (\<open>set_icons\<close>), then the
  current-position marker. A throw of the map library ends the method there.\<close>

definition ngOnInit :: "map_lib \<Rightarrow> 'z session_scheme \<Rightarrow> (exn, 'z session_scheme) outcome" where
  "ngOnInit lib s =
     obind (create_map lib s)
       (\<lambda>s. add_now_marker lib (set_icons (s\<lparr>conn := Connecting\<rparr>)))"

text \<open>\<open>onSuccess\<close> of \<open>connect\<close>: subscribe to the tracking topic.\<close>

definition onConnectSuccess :: "'z session_scheme \<Rightarrow> (exn, 'z session_scheme) outcome" where
  "onConnectSuccess s = subscribe topic (s\<lparr>conn := Connected\<rparr>)"

text \<open>\<open>onMessageArrived\<close>: keep the payload, parse it, keep the parse, and hand its
  \<open>Latitude\<close> and \<open>Longitude\<close> to \<open>getLine\<close>.\<close>

definition onMessageArrived :: "map_lib \<Rightarrow> jstring \<Rightarrow> 'z session_scheme \<Rightarrow>
    (exn, 'z session_scheme) outcome" where
  "onMessageArrived lib payload s0 =
     (let s1 = s0\<lparr>messages := JString payload\<rparr> in
      case json_parse payload of
        None \<Rightarrow> Exc SyntaxError s1
      | Some v \<Rightarrow>
          (let s2 = s1\<lparr>mqttData := v\<rparr> in
           case get_prop v (js ''Latitude'') of
             Inl e \<Rightarrow> Exc e s2
           | Inr la \<Rightarrow>
               (case get_prop v (js ''Longitude'') of
                  Inl e \<Rightarrow> Exc e s2
                | Inr lo \<Rightarrow> getLine lib la lo s2)))"

text \<open>The number of markers created so far besides the current-position marker: the next
  one is \<open>Pinned\<close> with this index.\<close>

definition next_pin :: "'z map_component_scheme \<Rightarrow> nat" where
  "next_pin s = length (filter (\<lambda>c. case c of AddMarker (Pinned i) p t h ic \<Rightarrow> True | _ \<Rightarrow> False) (surface s))"

definition getMarker :: "map_lib \<Rightarrow> 'z map_component_scheme \<Rightarrow> (exn, 'z map_component_scheme) outcome" where
  "getMarker lib s =
     calls lib [AddMarker (Pinned (next_pin s)) (data s) (Some pin_title) (Some university_popup) (myIcon s),
                OpenPopup (Pinned (next_pin s))] s"

text \<open>The four demonstration points of \<open>sendMessage\<close>, in source order.\<close>

definition demo_points :: "jsval list" where
  "demo_points =
     [JObject [(js ''x'', JNumber (Fin 23952 (-3))), (js ''y'', JNumber (Fin 1209272588 (-7))),
               (js ''name'', JString [0x7BA1, 0x7406, 0x5B78, 0x9662])],
      JObject [(js ''x'', JNumber (Fin 239515477 (-7))), (js ''y'', JNumber (Fin 1209292182 (-7))),
               (js ''name'', JString [0x6559, 0x80B2, 0x5B78, 0x9662])],
      JObject [(js ''x'', JNumber (Fin 239551114 (-7))), (js ''y'', JNumber (Fin 1209266221 (-7))),
               (js ''name'', JString [0x79D1, 0x6280, 0x5B78, 0x9662])],
      JObject [(js ''x'', JNumber (Fin 239506 (-4))), (js ''y'', JNumber (Fin 1209297 (-4))),
               (js ''name'', JString [0x4EBA, 0x6587, 0x5B78, 0x9662])]]"

definition sendMessage :: "'z session_scheme \<Rightarrow> (exn, 'z session_scheme) outcome" where
  "sendMessage s =
     obind (publish_json topic (demo_points ! 0) s)
       (\<lambda>s. obind (publish_json topic (demo_points ! 1) s)
       (\<lambda>s. obind (publish_json topic (demo_points ! 2) s)
       (\<lambda>s. publish_json topic (demo_points ! 3) s)))"

text \<open>The four payloads as \<open>JSON.stringify\<close> writes them (lemma
  \<open>stringify_demo_points\<close>).\<close>

definition demo_payloads :: "jstring list" where
  "demo_payloads =
    [js ''{\"x\":23.952,\"y\":120.9272588,\"name\":\"'' @ [0x7BA1, 0x7406, 0x5B78, 0x9662] @ js ''\"}'',
     js ''{\"x\":23.9515477,\"y\":120.9292182,\"name\":\"'' @ [0x6559, 0x80B2, 0x5B78, 0x9662] @ js ''\"}'',
     js ''{\"x\":23.9551114,\"y\":120.9266221,\"name\":\"'' @ [0x79D1, 0x6280, 0x5B78, 0x9662] @ js ''\"}'',
     js ''{\"x\":23.9506,\"y\":120.9297,\"name\":\"'' @ [0x4EBA, 0x6587, 0x5B78, 0x9662] @ js ''\"}'']"

text \<open>\<open>mqttMarker(data)\<close>: a marker at \<open>[Number(data[0]), Number(data[1])]\<close> whose popup
  is \<open>"<h3>" + data[2] + "</h3>"\<close>.\<close>

definition mqttMarker :: "map_lib \<Rightarrow> jsval \<Rightarrow> 'z map_component_scheme \<Rightarrow>
    (exn, 'z map_component_scheme) outcome" where
  "mqttMarker lib d s =
     (case get_index d 0 of
        Inl e \<Rightarrow> Exc e s
      | Inr d0 \<Rightarrow>
          (case get_index d 1 of
             Inl e \<Rightarrow> Exc e s
           | Inr d1 \<Rightarrow>
               (case get_index d 2 of
                  Inl e \<Rightarrow> Exc e s
                | Inr d2 \<Rightarrow>
                    calls lib
                      [AddMarker (Pinned (next_pin s))
                         (JArray [JNumber (to_number d0), JNumber (to_number d1)]) (Some pin_title)
                         (Some (js ''<h3>'' @ to_str d2 @ js ''</h3>'')) (myIcon s),
                       OpenPopup (Pinned (next_pin s))] s)))"

text \<open>The callback of \<open>getCurrentPosition\<close> in \<open>gpsMarker\<close>: a plain marker at the
  device's position.\<close>

definition gpsMarker_callback :: "map_lib \<Rightarrow> jsnum \<Rightarrow> jsnum \<Rightarrow> 'z map_component_scheme \<Rightarrow>
    (exn, 'z map_component_scheme) outcome" where
  "gpsMarker_callback lib la lo s =
     call lib (AddMarker (Pinned (next_pin s)) (JArray [JNumber la, JNumber lo]) None None (marker_default_icon s)) s"

text \<open>The client's dispatch of a delivered message: the callback, and the disconnection
  when it throws. A disconnected client has no subscriptions and nothing pending.\<close>

definition disconnect :: "'z session_scheme \<Rightarrow> 'z session_scheme" where
  "disconnect s = s\<lparr>conn := Lost, subscriptions := [], pending := []\<rparr>"

definition handle_publish :: "map_lib \<Rightarrow> jstring \<Rightarrow> 'z session_scheme \<Rightarrow> 'z session_scheme" where
  "handle_publish lib p s =
     (case onMessageArrived lib p s of Ok s' \<Rightarrow> s' | Exc e s' \<Rightarrow> disconnect s')"

text \<open>\<open>ngOnDestroy\<close>: unsubscribe from \<open>'apollos/test'\<close>.\<close>

definition ngOnDestroy :: "'z session_scheme \<Rightarrow> (exn, 'z session_scheme) outcome" where
  "ngOnDestroy s = unsubscribe (js ''apollos/test'') s"

section \<open>Events\<close>

inductive session_step :: "map_lib \<Rightarrow> session \<Rightarrow> session \<Rightarrow> bool" for lib where
  init: "\<not> initialised s \<Longrightarrow>
    session_step lib s ((ostate (ngOnInit lib s))\<lparr>initialised := True\<rparr>)"
| connect_ok: "conn s = Connecting \<Longrightarrow>
    session_step lib s (ostate (onConnectSuccess s))"
| connect_fail: "conn s = Connecting \<Longrightarrow>
    session_step lib s (s\<lparr>conn := ConnectFailed\<rparr>)"
| device_publish: "conn s = Connected \<Longrightarrow> topic \<in> set (subscriptions s) \<Longrightarrow>
    session_step lib s (s\<lparr>pending := pending s @ [p]\<rparr>)"
| deliver: "pending s = p # ps \<Longrightarrow>
    session_step lib s (handle_publish lib p (s\<lparr>pending := ps\<rparr>))"
| connection_lost: "conn s = Connected \<Longrightarrow>
    session_step lib s (disconnect s)"
| click_getMarker: "initialised s \<Longrightarrow> \<not> destroyed s \<Longrightarrow>
    session_step lib s (ostate (getMarker lib s))"
| click_sendMessage: "initialised s \<Longrightarrow> \<not> destroyed s \<Longrightarrow>
    session_step lib s (ostate (sendMessage s))"
| call_mqttMarker: "initialised s \<Longrightarrow> \<not> destroyed s \<Longrightarrow>
    session_step lib s (ostate (mqttMarker lib d s))"
| click_gpsMarker: "initialised s \<Longrightarrow> \<not> destroyed s \<Longrightarrow>
    session_step lib s (s\<lparr>gps_requests := Suc (gps_requests s)\<rparr>)"
| gps_position: "gps_requests s = Suc k \<Longrightarrow>
    session_step lib s ((ostate (gpsMarker_callback lib la lo s))\<lparr>gps_requests := k\<rparr>)"
| destroy: "initialised s \<Longrightarrow> \<not> destroyed s \<Longrightarrow>
    session_step lib s ((ostate (ngOnDestroy s))\<lparr>destroyed := True\<rparr>)"

inductive reachable :: "map_lib \<Rightarrow> session \<Rightarrow> bool" for lib where
  start: "reachable lib initial_session"
| step: "reachable lib s \<Longrightarrow> session_step lib s t \<Longrightarrow> reachable lib t"

text \<open>
  What every reachable state satisfies: before initialisation nothing has happened; at
  most one current-position marker has been created; the client subscribes and publishes
  to \<open>MapL\<close> only; the broker holds messages for the client only while it is connected.
\<close>

definition session_inv :: "session \<Rightarrow> bool" where
  "session_inv s \<longleftrightarrow>
     (\<not> initialised s \<longrightarrow> surface s = [] \<and> conn s = NoClient \<and> gps_requests s = 0) \<and>
     now_marker_adds (surface s) \<le> 1 \<and>
     set (subscriptions s) \<subseteq> {topic} \<and>
     fst ` set (published s) \<subseteq> {topic} \<and>
     (conn s \<noteq> Connected \<longrightarrow> pending s = [])"

text \<open>The state after a successful initialisation and connection, with a library that
  accepts every call.\<close>

definition connected_session :: session where
  "connected_session =
     initial_session\<lparr>surface := [CreateMap (Fin 239494324 (-7), Fin 1209289277 (-7)) (Fin 16 0),
        AddTileLayer tile_url (Fin 20 0),
        AddMarker NowMarker (JArray [JNumber zero, JNumber zero]) (Some now_title) (Some now_popup) (Some (Icon marker_icon))],
      myIcon := Some (Icon marker_icon), marker_default_icon := Some (Icon marker_icon),
      conn := Connected, subscriptions := [js ''MapL''], initialised := True\<rparr>"

text \<open>The state after initialisation with a library that accepts every call, when the
  connection attempt fails (\<open>onFailure\<close>).\<close>

definition failed_session :: session where
  "failed_session = (ostate (ngOnInit (\<lambda>_. True) initial_session))\<lparr>initialised := True, conn := ConnectFailed\<rparr>"

text \<open>The type TypeScript declares for \<open>lastX\<close> and \<open>lastY\<close> (their initialisers are
  \<open>0\<close>, and \<open>getLine\<close>'s parameters are \<open>number\<close>): both fields hold numbers.\<close>

definition numeric_tracker :: "'z map_component_scheme \<Rightarrow> bool" where
  "numeric_tracker s \<longleftrightarrow> (\<exists>a b. lastX s = JNumber a \<and> lastY s = JNumber b)"

section \<open>Each handler, branch by branch\<close>

lemma onMessageArrived_syntax_error:
  assumes "json_parse p = None"
  shows "onMessageArrived lib p s = Exc SyntaxError (s\<lparr>messages := JString p\<rparr>)"
  using assms by (simp add: onMessageArrived_def)

lemma onMessageArrived_null:
  assumes "json_parse p = Some JNull"
  shows "onMessageArrived lib p s = Exc TypeError (s\<lparr>messages := JString p, mqttData := JNull\<rparr>)"
  using assms by (simp add: onMessageArrived_def)

lemma onMessageArrived_object:
  assumes "json_parse p = Some (JObject ps)"
  shows "onMessageArrived lib p s =
    getLine lib (case map_of ps (js ''Latitude'') of None \<Rightarrow> JUndefined | Some v \<Rightarrow> v)
                (case map_of ps (js ''Longitude'') of None \<Rightarrow> JUndefined | Some v \<Rightarrow> v)
                (s\<lparr>messages := JString p, mqttData := JObject ps\<rparr>)"
  using assms by (simp add: onMessageArrived_def)

lemma handle_publish_eq:
  "handle_publish lib p s =
     (if raised (onMessageArrived lib p s) = None then ostate (onMessageArrived lib p s)
      else disconnect (ostate (onMessageArrived lib p s)))"
  by (cases "onMessageArrived lib p s") (simp_all add: handle_publish_def)

text \<open>
  C7. A payload that is not JSON throws a \<open>SyntaxError\<close> in \<open>JSON.parse\<close>: the tracker's
  fields and the map are as before, only \<open>messages\<close> holds the payload, and the client is
  disconnected, so no later message is handled.
\<close>

theorem malformed_payload_disconnects:
  assumes "json_parse p = None"
  shows "handle_publish lib p s = disconnect (s\<lparr>messages := JString p\<rparr>)"
  using assms by (simp add: handle_publish_def onMessageArrived_syntax_error)

text \<open>
  C26. A payload that is JSON but not an object is not rejected as malformed: \<open>null\<close>
  throws a \<open>TypeError\<close> at \<open>mqttData.Latitude\<close>, and any other value (a number, a
  string, a boolean, or an array such as the \<open>[lat, lng]\<close> that \<open>mqttMarker\<close> reads)
  reaches \<open>getLine\<close> with two undefined coordinates.
\<close>

theorem non_object_payload:
  assumes "json_parse p = Some v" and "\<forall>ps. v \<noteq> JObject ps"
  shows "onMessageArrived lib p s =
           (if v = JNull then Exc TypeError (s\<lparr>messages := JString p, mqttData := JNull\<rparr>)
            else getLine lib JUndefined JUndefined (s\<lparr>messages := JString p, mqttData := v\<rparr>))"
proof -
  have "v \<noteq> JUndefined" using assms(1) json_parse_not_undefined by auto
  with assms show ?thesis by (cases v) (simp_all add: onMessageArrived_def)
qed

lemma at_sentinel_messages [simp]:
  "at_sentinel (s\<lparr>messages := m, mqttData := d\<rparr>) = at_sentinel s"
  by (simp add: at_sentinel_def)

lemma getLine_raised:
  "raised (getLine lib x y s) = None \<or> raised (getLine lib x y s) = Some MapRejected"
  by (simp add: getLine_eq Let_def)

text \<open>
  C14. \<open>onMessageArrived\<close> throws a \<open>SyntaxError\<close> exactly for the payloads that are
  not JSON texts: the fuel of the parser never makes it reject a valid text, and no other
  step of the handler raises a \<open>SyntaxError\<close>.
\<close>

theorem onMessageArrived_SyntaxError_iff:
  "(\<exists>s'. onMessageArrived lib p s = Exc SyntaxError s') \<longleftrightarrow>
   \<not> (\<exists>n v r. parse_value n p = Some (v, r) \<and> skip_ws r = [])"
proof (cases "json_parse p")
  case None
  then show ?thesis using json_parse_iff [of p] by (simp add: onMessageArrived_syntax_error)
next
  case (Some v)
  have g: "raised (getLine lib x y (s\<lparr>messages := JString p, mqttData := v\<rparr>)) \<noteq> Some SyntaxError" for x y
    using getLine_raised [of lib x y "s\<lparr>messages := JString p, mqttData := v\<rparr>"] by auto
  have "raised (onMessageArrived lib p s) \<noteq> Some SyntaxError"
    using Some g by (auto simp: onMessageArrived_def Let_def split: sum.split dest: get_prop_Inl)
  then have "\<nexists>s'. onMessageArrived lib p s = Exc SyntaxError s'" by auto
  with Some show ?thesis using json_parse_iff [of p v] by blast
qed

text \<open>
  C4. A JSON object without \<open>Latitude\<close> and \<open>Longitude\<close> is not rejected: its
  two undefined coordinates become the last point, before the first fix whatever the map
  library does, and after it whenever the library accepts the segment to
  \<open>(undefined, undefined)\<close>.
\<close>

theorem payload_without_coordinates_stored:
  assumes "json_parse p = Some (JObject ps)"
    and "map_of ps (js ''Latitude'') = None" and "map_of ps (js ''Longitude'') = None"
    and "at_sentinel s \<or> list_all lib (line_calls (lastX s, lastY s) (JUndefined, JUndefined))"
  shows "lastX (handle_publish lib p s) = JUndefined \<and> lastY (handle_publish lib p s) = JUndefined"
  using assms
  by (auto simp: handle_publish_eq disconnect_def onMessageArrived_object getLine_eq seg_start_def Let_def)

section \<open>Messages of the tracked device\<close>

lemma onMessageArrived_fix_message:
  assumes "canonical a" "is_finite a" "canonical b" "is_finite b"
  shows "onMessageArrived lib (fix_message a b) s =
           getLine lib (JNumber a) (JNumber b)
             (s\<lparr>messages := JString (fix_message a b),
                mqttData := JObject [(js ''Latitude'', JNumber a), (js ''Longitude'', JNumber b)]\<rparr>)"
  using onMessageArrived_object [OF json_parse_fix_message [OF assms]] by simp

text \<open>
  C20. \<open>lastX\<close> and \<open>lastY\<close> are declared numbers, but \<open>onMessageArrived\<close> passes
  whatever the payload holds: with a library that accepts the calls, they hold numbers
  after a JSON object is handled exactly when its \<open>Latitude\<close> and \<open>Longitude\<close> are
  numbers.
\<close>

theorem onMessageArrived_number_type:
  assumes "json_parse p = Some (JObject ps)" and "\<forall>c. lib c"
  shows "numeric_tracker (ostate (onMessageArrived lib p s)) \<longleftrightarrow>
         (\<exists>a b. map_of ps (js ''Latitude'') = Some (JNumber a) \<and> map_of ps (js ''Longitude'') = Some (JNumber b))"
  using assms by (auto simp: onMessageArrived_object getLine_eq Let_def numeric_tracker_def list_all_iff split: option.splits)

lemma ostate_getLine_fields:
  "ostate (getLine lib x y (s\<lparr>messages := m, mqttData := d\<rparr>)) = (ostate (getLine lib x y s))\<lparr>messages := m, mqttData := d\<rparr>"
  by (simp add: getLine_eq seg_start_def Let_def)

lemma getLine_session_frame:
  "conn (ostate (getLine lib x y s)) = conn s" "subscriptions (ostate (getLine lib x y s)) = subscriptions s"
  "pending (ostate (getLine lib x y s)) = pending s"
  by (simp_all add: getLine_eq Let_def)

text \<open>A message published on the subscribed topic of a connected client with nothing
  pending is delivered at once: the broker queues it and the client dispatches it.\<close>

lemma deliver_publish:
  assumes "conn s = Connected" "topic \<in> set (subscriptions s)" "pending s = []"
  shows "(session_step lib)\<^sup>*\<^sup>* s (handle_publish lib p s)"
proof -
  have s1: "session_step lib s (s\<lparr>pending := [p]\<rparr>)"
    using session_step.device_publish [OF assms(1,2), where p = p and lib = lib] assms(3) by simp
  have s2: "session_step lib (s\<lparr>pending := [p]\<rparr>) (handle_publish lib p (s\<lparr>pending := [p]\<rparr>\<lparr>pending := []\<rparr>))"
    by (rule session_step.deliver) simp
  have e: "s\<lparr>pending := [p]\<rparr>\<lparr>pending := []\<rparr> = s" using assms(3) by simp
  from s1 s2 e show ?thesis by simp
qed

text \<open>The four payloads of \<open>sendMessage\<close>, as \<open>JSON.stringify\<close> writes them.\<close>

lemma stringify_demo_points:
  "map stringify demo_points = map Some demo_payloads"
  by (simp add: demo_points_def demo_payloads_def quote_def escape_unit_def is_lead_def is_trail_def is_surrogate_def
      pos_to_string_def dec_digits.simps Let_def)

text \<open>\<open>sendMessage\<close> as a whole: four publications on the topic, or a throw before
  any of them.\<close>

lemma sendMessage_eq:
  "sendMessage s =
     (if conn s \<noteq> Connected then Exc InvalidState s
      else Ok (s\<lparr>published := published s @ map (Pair topic) demo_payloads,
                 pending := pending s @ (if topic \<in> set (subscriptions s) then demo_payloads else [])\<rparr>))"
proof -
  have "stringify (demo_points ! i) = Some (demo_payloads ! i)" if "i < 4" for i
  proof -
    have "length demo_points = 4" by (simp add: demo_points_def)
    with that stringify_demo_points show ?thesis by (metis nth_map length_map)
  qed
  then show ?thesis
    by (simp add: sendMessage_def publish_json_def publish_def demo_payloads_def)
qed

text \<open>
  C19. Connected, \<open>sendMessage\<close> publishes exactly four messages on \<open>MapL\<close>, in source
  order, each an object with the keys \<open>x\<close>, \<open>y\<close>, \<open>name\<close>; when the client is
  subscribed to \<open>MapL\<close> the broker queues all four back to it. Not connected, the first
  publish throws and nothing is sent. The comment on line 94 says the messages go to
  \<open>'apollos/test'\<close>; the code, and this theorem, send them on \<open>MapL\<close>, and nothing is
  ever published on \<open>'apollos/test'\<close>, the topic \<open>ngOnDestroy\<close> unsubscribes from.
\<close>

theorem sendMessage_publishes:
  "sendMessage s =
     (if conn s \<noteq> Connected then Exc InvalidState s
      else
        (let P = [js ''{\"x\":23.952,\"y\":120.9272588,\"name\":\"'' @ [0x7BA1, 0x7406, 0x5B78, 0x9662] @ js ''\"}'',
                  js ''{\"x\":23.9515477,\"y\":120.9292182,\"name\":\"'' @ [0x6559, 0x80B2, 0x5B78, 0x9662] @ js ''\"}'',
                  js ''{\"x\":23.9551114,\"y\":120.9266221,\"name\":\"'' @ [0x79D1, 0x6280, 0x5B78, 0x9662] @ js ''\"}'',
                  js ''{\"x\":23.9506,\"y\":120.9297,\"name\":\"'' @ [0x4EBA, 0x6587, 0x5B78, 0x9662] @ js ''\"}'']
         in Ok (s\<lparr>published := published s @ map (\<lambda>p. (js ''MapL'', p)) P,
                  pending := pending s @ (if js ''MapL'' \<in> set (subscriptions s) then P else [])\<rparr>)))"
  by (simp add: sendMessage_eq demo_payloads_def topic_def Let_def)

lemma now_marker_adds_takeWhile: "now_marker_adds (takeWhile P cs) \<le> now_marker_adds cs"
  by (induction cs) (auto simp: now_marker_adds_def)

lemma now_marker_adds_takeWhile_zero: "now_marker_adds cs = 0 \<Longrightarrow> now_marker_adds (takeWhile P cs) = 0"
  using now_marker_adds_takeWhile [of P cs] by simp

lemma ngOnInit_eq:
  "ostate (ngOnInit lib s) =
     (if list_all lib [CreateMap (Fin 239494324 (-7), Fin 1209289277 (-7)) (Fin 16 0), AddTileLayer tile_url (Fin 20 0)]
      then s\<lparr>surface := surface s @ [CreateMap (Fin 239494324 (-7), Fin 1209289277 (-7)) (Fin 16 0), AddTileLayer tile_url (Fin 20 0)] @
               takeWhile lib [AddMarker NowMarker (JArray [JNumber zero, JNumber zero]) (Some now_title) (Some now_popup) (Some (Icon marker_icon))],
             conn := Connecting, myIcon := Some (Icon marker_icon),
             marker_default_icon := Some (Icon marker_icon)\<rparr>
      else s\<lparr>surface := surface s @ takeWhile lib [CreateMap (Fin 239494324 (-7), Fin 1209289277 (-7)) (Fin 16 0), AddTileLayer tile_url (Fin 20 0)]\<rparr>)"
  by (simp add: ngOnInit_def create_map_def add_now_marker_def set_icons_def calls_eq call_def)

lemma onMessageArrived_frame:
  "conn (ostate (onMessageArrived lib p s)) = conn s \<and>
   subscriptions (ostate (onMessageArrived lib p s)) = subscriptions s \<and>
   published (ostate (onMessageArrived lib p s)) = published s \<and>
   pending (ostate (onMessageArrived lib p s)) = pending s \<and>
   gps_requests (ostate (onMessageArrived lib p s)) = gps_requests s \<and>
   initialised (ostate (onMessageArrived lib p s)) = initialised s \<and>
   destroyed (ostate (onMessageArrived lib p s)) = destroyed s"
  by (simp add: onMessageArrived_def getLine_eq Let_def split: option.split sum.split)

lemma onMessageArrived_now_marker:
  "now_marker_adds (surface (ostate (onMessageArrived lib p s))) = now_marker_adds (surface s)"
proof -
  have z: "now_marker_adds (line_calls a b) = 0" for a b
    by (simp add: line_calls_def now_marker_adds_def)
  then have "now_marker_adds (takeWhile lib (line_calls a b)) = 0" for a b
    by (rule now_marker_adds_takeWhile_zero)
  with z show ?thesis
    by (simp add: onMessageArrived_def getLine_eq Let_def split: option.split sum.split)
qed

lemma pinned_adds:
  "now_marker_adds [AddMarker (Pinned i) p t h ic, OpenPopup (Pinned i)] = 0"
  "now_marker_adds [AddMarker (Pinned i) p t h ic] = 0"
  by (simp_all add: now_marker_adds_def)

lemma session_step_inv:
  assumes "session_step lib s t" and "session_inv s"
  shows "session_inv t"
  using assms
proof (induction rule: session_step.induct)
  case (init s)
  have "now_marker_adds (takeWhile lib [AddMarker NowMarker (JArray [JNumber zero, JNumber zero]) (Some now_title) (Some now_popup) (Some (Icon marker_icon))]) \<le> 1"
    using now_marker_adds_takeWhile [of lib "[AddMarker NowMarker (JArray [JNumber zero, JNumber zero]) (Some now_title) (Some now_popup) (Some (Icon marker_icon))]"]
    by (simp add: now_marker_adds_def)
  moreover have "now_marker_adds (takeWhile lib [CreateMap (Fin 239494324 (-7), Fin 1209289277 (-7)) (Fin 16 0), AddTileLayer tile_url (Fin 20 0)]) = 0"
    by (rule now_marker_adds_takeWhile_zero) (simp add: now_marker_adds_def)
  ultimately show ?case using init by (auto simp: session_inv_def ngOnInit_eq now_marker_adds_def)
next
  case (connect_ok s)
  then show ?case by (auto simp: session_inv_def onConnectSuccess_def subscribe_def)
next
  case (connect_fail s)
  then show ?case by (auto simp: session_inv_def)
next
  case (device_publish s p)
  then show ?case by (auto simp: session_inv_def)
next
  case (deliver s p ps)
  then show ?case
    using onMessageArrived_frame [of lib p "s\<lparr>pending := ps\<rparr>"]
      onMessageArrived_now_marker [of lib p "s\<lparr>pending := ps\<rparr>"]
    by (auto simp: session_inv_def handle_publish_eq disconnect_def)
next
  case (connection_lost s)
  then show ?case by (auto simp: session_inv_def disconnect_def)
next
  case (click_getMarker s)
  then show ?case
    using now_marker_adds_takeWhile_zero [OF pinned_adds(1)]
    by (auto simp: session_inv_def getMarker_def ostate_calls simp del: calls.simps)
next
  case (click_sendMessage s)
  then show ?case by (auto simp: session_inv_def sendMessage_eq)
next
  case (call_mqttMarker s d)
  then show ?case
    using now_marker_adds_takeWhile_zero [OF pinned_adds(1)]
    by (auto simp: session_inv_def mqttMarker_def ostate_calls simp del: calls.simps split: sum.split)
next
  case (click_gpsMarker s)
  then show ?case by (auto simp: session_inv_def)
next
  case (gps_position s k la lo)
  then show ?case by (auto simp: session_inv_def gpsMarker_callback_def call_def now_marker_adds_def)
next
  case (destroy s)
  then show ?case by (auto simp: session_inv_def ngOnDestroy_def unsubscribe_def)
qed

section \<open>Invariants of the session\<close>

lemma session_inv_initial: "session_inv initial_session"
  by (simp add: session_inv_def initial_session_def now_marker_adds_def)

lemma reachable_session_inv: "reachable lib s \<Longrightarrow> session_inv s"
  by (induction rule: reachable.induct) (auto intro: session_step_inv session_inv_initial)

lemma polylines_takeWhile_markers:
  "polylines (takeWhile P [AddMarker r p t h ic, OpenPopup r]) = []"
  "polylines (takeWhile P [AddMarker r p t h ic]) = []"
  by simp_all

lemma final_step:
  assumes "session_step lib s t" and "session_inv s" and "conn s = Lost \<or> conn s = ConnectFailed"
  shows "conn t = conn s \<and> lastX t = lastX s \<and> lastY t = lastY s \<and> polylines (surface t) = polylines (surface s)"
  using assms
proof (induction rule: session_step.induct)
  case (init s)
  then show ?case by (simp add: session_inv_def)
next
  case (deliver s p ps)
  then show ?case by (simp add: session_inv_def)
next
  case (click_getMarker s)
  then show ?case by (simp add: getMarker_def ostate_calls polylines_takeWhile_markers del: calls.simps takeWhile.simps)
next
  case (click_sendMessage s)
  then show ?case by (simp add: sendMessage_eq)
next
  case (call_mqttMarker s d)
  then show ?case
    by (simp add: mqttMarker_def ostate_calls polylines_takeWhile_markers del: calls.simps takeWhile.simps split: sum.split)
next
  case (gps_position s k la lo)
  then show ?case by (simp add: gpsMarker_callback_def call_def)
next
  case (destroy s)
  then show ?case by (simp add: ngOnDestroy_def unsubscribe_def)
qed simp_all

lemma reachable_steps:
  assumes "reachable lib s" and "(session_step lib)\<^sup>*\<^sup>* s t"
  shows "reachable lib t"
  using assms(2,1) by (induction rule: rtranclp_induct) (auto intro: reachable.step)

text \<open>A run from a state satisfying the invariant whose client has lost its connection or
  failed to connect: each step preserves the invariant and changes neither the
  connection, nor the last point, nor the path.\<close>

lemma final_run:
  assumes "(session_step lib)\<^sup>*\<^sup>* s t" and "session_inv s" and "conn s = Lost \<or> conn s = ConnectFailed"
  shows "session_inv t \<and> conn t = conn s \<and> lastX t = lastX s \<and> lastY t = lastY s \<and>
         polylines (surface t) = polylines (surface s)"
  using assms(1)
proof (induction rule: rtranclp_induct)
  case base
  then show ?case using assms(2,3) by simp
next
  case (step u v)
  then have "session_inv u" and "conn u = conn s" by simp_all
  with assms(3) have f: "conn u = Lost \<or> conn u = ConnectFailed" by simp
  from step.hyps(2) \<open>session_inv u\<close> f have "session_inv v" and "conn v = conn u \<and> lastX v = lastX u \<and>
      lastY v = lastY u \<and> polylines (surface v) = polylines (surface u)"
    by (blast intro: session_step_inv, rule final_step)
  with step.IH show ?case by simp
qed

text \<open>
  C3. Once the client has lost its connection (after a handler threw, or after a network
  failure), nothing brings it back: in every later state the client is still disconnected,
  the last point is the same and no segment has been added to the path.
\<close>

theorem lost_connection_is_final:
  assumes "reachable lib s" and "conn s = Lost" and "(session_step lib)\<^sup>*\<^sup>* s t"
  shows "conn t = Lost \<and> lastX t = lastX s \<and> lastY t = lastY s \<and> polylines (surface t) = polylines (surface s)"
  using final_run [OF assms(3) reachable_session_inv [OF assms(1)]] assms(2) by simp

text \<open>
  C6. A client whose connection attempt failed (\<open>onFailure\<close>, line 48, which only
  logs) never connects: the component sets no reconnect, so in every later state the
  client has failed, the broker holds nothing for it, the last point and the path are
  unchanged, and \<open>sendMessage\<close> throws \<open>InvalidState\<close> at its first publish.
\<close>

theorem failed_connection_is_final:
  assumes "reachable lib s" and "conn s = ConnectFailed" and "(session_step lib)\<^sup>*\<^sup>* s t"
  shows "conn t = ConnectFailed \<and> pending t = [] \<and> lastX t = lastX s \<and> lastY t = lastY s \<and>
         polylines (surface t) = polylines (surface s) \<and> sendMessage t = Exc InvalidState t"
  using final_run [OF assms(3) reachable_session_inv [OF assms(1)]] assms(2)
  by (simp add: session_inv_def sendMessage_eq)

text \<open>\<open>connected_session\<close> is reached by initialisation and a successful connection
  under every library that accepts the three calls of \<open>ngOnInit\<close>.\<close>

lemma reachable_connected_session:
  assumes "lib (CreateMap (Fin 239494324 (-7), Fin 1209289277 (-7)) (Fin 16 0))"
    and "lib (AddTileLayer tile_url (Fin 20 0))"
    and "lib (AddMarker NowMarker (JArray [JNumber zero, JNumber zero]) (Some now_title) (Some now_popup) (Some (Icon marker_icon)))"
  shows "reachable lib connected_session"
proof -
  let ?s = "(ostate (ngOnInit lib initial_session))\<lparr>initialised := True\<rparr>"
  have r1: "reachable lib ?s"
    by (rule reachable.step [OF reachable.start]) (rule session_step.init, simp add: initial_session_def)
  have "conn ?s = Connecting"
    using assms by (simp add: ngOnInit_def create_map_def add_now_marker_def set_icons_def initial_session_def)
  then have "reachable lib (ostate (onConnectSuccess ?s))"
    by (rule reachable.step [OF r1 session_step.connect_ok])
  moreover have "ostate (onConnectSuccess ?s) = connected_session"
    using assms by (simp add: ngOnInit_def create_map_def add_now_marker_def set_icons_def onConnectSuccess_def
        subscribe_def initial_session_def connected_session_def topic_def)
  ultimately show ?thesis by simp
qed

text \<open>
  C18. In every reachable state at most one current-position marker has been created:
  position updates move the one marker and never create another; and the client is
  subscribed to no topic but \<open>MapL\<close>.
\<close>

theorem one_current_position_marker:
  assumes "reachable lib s"
  shows "now_marker_adds (surface s) \<le> 1 \<and> set (subscriptions s) \<subseteq> {js ''MapL''}"
  using reachable_session_inv [OF assms] by (simp add: session_inv_def topic_def)

lemma ngOnDestroy_connected:
  assumes "conn s = Connected" and "set (subscriptions s) \<subseteq> {topic}"
  shows "ngOnDestroy s = Ok s"
proof -
  have "filter (\<lambda>u. u \<noteq> js ''apollos/test'') (subscriptions s) = subscriptions s"
    using assms(2) by (auto simp: filter_id_conv topic_def)
  with assms(1) show ?thesis by (simp add: ngOnDestroy_def unsubscribe_def)
qed

text \<open>
  C15. \<open>ngOnDestroy\<close> unsubscribes from \<open>apollos/test\<close>, a topic the component never
  subscribes to: on a connected client it changes nothing. The client stays connected and
  subscribed to \<open>MapL\<close>, and messages keep being delivered after the teardown.
\<close>

theorem ngOnDestroy_keeps_subscription:
  assumes "reachable lib s" and "conn s = Connected"
  shows "ngOnDestroy s = Ok s"
  using reachable_session_inv [OF assms(1)] assms(2) by (simp add: session_inv_def ngOnDestroy_connected)

text \<open>
  C23. \<open>mqttMarker(data)\<close> reads \<open>data[0]\<close>, \<open>data[1]\<close> and \<open>data[2]\<close>, an array,
  while the MQTT message the component decodes is an object (\<open>mqttData\<close>): called with
  such an object, it asks the map for a marker at \<open>(NaN, NaN)\<close> whose popup reads
  \<open>undefined\<close>.
\<close>

theorem mqttMarker_message_object:
  assumes "map_of ps (js ''0'') = None" "map_of ps (js ''1'') = None" "map_of ps (js ''2'') = None"
  shows "mqttMarker lib (JObject ps) s =
           calls lib [AddMarker (Pinned (next_pin s)) (JArray [JNumber NaN, JNumber NaN]) (Some pin_title)
                        (Some (js ''<h3>undefined</h3>'')) (myIcon s),
                      OpenPopup (Pinned (next_pin s))] s"
  using assms by (simp add: mqttMarker_def dec_digits.simps del: calls.simps)

section \<open>Witnesses\<close>

lemma reachable_connected_session_all: "reachable (\<lambda>_. True) connected_session"
  by (rule reachable_connected_session) simp_all

lemma one_current_position_marker_witness:
  "reachable (\<lambda>_. True) connected_session \<and>
   now_marker_adds (surface connected_session) = 1 \<and> subscriptions connected_session = [js ''MapL''] \<and>
   now_marker_adds (surface connected_session) \<le> 1 \<and> set (subscriptions connected_session) \<subseteq> {js ''MapL''}"
  using one_current_position_marker [OF reachable_connected_session_all] reachable_connected_session_all
  by (simp add: connected_session_def now_marker_adds_def)

lemma ngOnDestroy_keeps_subscription_witness:
  "reachable (\<lambda>_. True) connected_session \<and> conn connected_session = Connected \<and>
   ngOnDestroy connected_session = Ok connected_session"
proof -
  have c: "conn connected_session = Connected" by (simp add: connected_session_def)
  show ?thesis using ngOnDestroy_keeps_subscription [OF reachable_connected_session_all c]
      reachable_connected_session_all c by simp
qed

lemma malformed_payload_disconnects_witness:
  "json_parse (js ''Lat=23.95'') = None \<and>
   handle_publish (\<lambda>_. True) (js ''Lat=23.95'') connected_session =
     disconnect (connected_session\<lparr>messages := JString (js ''Lat=23.95'')\<rparr>)"
proof -
  have n: "json_parse (js ''Lat=23.95'') = None" by code_simp
  show ?thesis using malformed_payload_disconnects [OF n] n by simp
qed

text \<open>After a network failure the user can still click: a pinned marker is added, but the
  path and the last point stay as they were.\<close>

lemma lost_connection_is_final_witness:
  "reachable (\<lambda>_. True) (disconnect connected_session) \<and>
   conn (disconnect connected_session) = Lost \<and>
   (session_step (\<lambda>_. True))\<^sup>*\<^sup>* (disconnect connected_session)
      (ostate (getMarker (\<lambda>_. True) (disconnect connected_session))) \<and>
   conn (ostate (getMarker (\<lambda>_. True) (disconnect connected_session))) = Lost \<and>
   polylines (surface (ostate (getMarker (\<lambda>_. True) (disconnect connected_session)))) =
     polylines (surface (disconnect connected_session))"
proof -
  have c: "conn connected_session = Connected" by (simp add: connected_session_def)
  have r: "reachable (\<lambda>_. True) (disconnect connected_session)"
    using reachable.step [OF reachable_connected_session_all session_step.connection_lost [OF c]] .
  have l: "conn (disconnect connected_session) = Lost" by (simp add: disconnect_def)
  have "session_step (\<lambda>_. True) (disconnect connected_session)
          (ostate (getMarker (\<lambda>_. True) (disconnect connected_session)))"
    by (rule session_step.click_getMarker) (simp_all add: disconnect_def connected_session_def initial_session_def)
  then have st: "(session_step (\<lambda>_. True))\<^sup>*\<^sup>* (disconnect connected_session)
          (ostate (getMarker (\<lambda>_. True) (disconnect connected_session)))" by simp
  show ?thesis using lost_connection_is_final [OF r l st] r l st by simp
qed

lemma onMessageArrived_SyntaxError_iff_witness:
  "\<not> (\<exists>n v r. parse_value n (js ''Lat=23.95'') = Some (v, r) \<and> skip_ws r = []) \<and>
   (\<exists>s'. onMessageArrived (\<lambda>_. True) (js ''Lat=23.95'') connected_session = Exc SyntaxError s')"
proof -
  have n: "json_parse (js ''Lat=23.95'') = None" by code_simp
  have "\<not> (\<exists>n v r. parse_value n (js ''Lat=23.95'') = Some (v, r) \<and> skip_ws r = [])"
  proof
    assume "\<exists>n v r. parse_value n (js ''Lat=23.95'') = Some (v, r) \<and> skip_ws r = []"
    then obtain v where "json_parse (js ''Lat=23.95'') = Some v" using json_parse_iff by blast
    with n show False by simp
  qed
  with onMessageArrived_SyntaxError_iff [of "\<lambda>_. True" "js ''Lat=23.95''" connected_session]
  show ?thesis by blast
qed

lemma payload_without_coordinates_stored_witness:
  "json_parse (js ''{\"lat\":23.95,\"lng\":120.93}'') =
     Some (JObject [(js ''lat'', JNumber (Fin 2395 (-2))), (js ''lng'', JNumber (Fin 12093 (-2)))]) \<and>
   lastX (handle_publish (\<lambda>_. False) (js ''{\"lat\":23.95,\"lng\":120.93}'') connected_session) = JUndefined \<and>
   lastY (handle_publish (\<lambda>_. False) (js ''{\"lat\":23.95,\"lng\":120.93}'') connected_session) = JUndefined"
proof -
  have j: "json_parse (js ''{\"lat\":23.95,\"lng\":120.93}'') =
     Some (JObject [(js ''lat'', JNumber (Fin 2395 (-2))), (js ''lng'', JNumber (Fin 12093 (-2)))])"
    by code_simp
  have k: "map_of [(js ''lat'', JNumber (Fin 2395 (-2))), (js ''lng'', JNumber (Fin 12093 (-2)))] (js ''Latitude'') = None"
    "map_of [(js ''lat'', JNumber (Fin 2395 (-2))), (js ''lng'', JNumber (Fin 12093 (-2)))] (js ''Longitude'') = None"
    by simp_all
  have c: "at_sentinel connected_session \<or>
    list_all (\<lambda>_. False) (line_calls (lastX connected_session, lastY connected_session) (JUndefined, JUndefined))"
    by (simp add: at_sentinel_def connected_session_def initial_session_def)
  show ?thesis using payload_without_coordinates_stored [OF j k c] j by simp
qed

lemma onMessageArrived_number_type_witness:
  "json_parse (fix_message (Fin 2395 (-2)) (Fin 12093 (-2))) =
     Some (JObject [(js ''Latitude'', JNumber (Fin 2395 (-2))), (js ''Longitude'', JNumber (Fin 12093 (-2)))]) \<and>
   numeric_tracker (ostate (onMessageArrived (\<lambda>_. True) (fix_message (Fin 2395 (-2)) (Fin 12093 (-2))) connected_session))"
proof -
  have c: "canonical (Fin 2395 (-2))" "is_finite (Fin 2395 (-2))" "canonical (Fin 12093 (-2))" "is_finite (Fin 12093 (-2))"
    by simp_all
  have j: "json_parse (fix_message (Fin 2395 (-2)) (Fin 12093 (-2))) =
     Some (JObject [(js ''Latitude'', JNumber (Fin 2395 (-2))), (js ''Longitude'', JNumber (Fin 12093 (-2)))])"
    using json_parse_fix_message [OF c] .
  have "\<forall>c. (\<lambda>_. True) c" by simp
  from onMessageArrived_number_type [OF j this, of connected_session] j show ?thesis by simp
qed

lemma mqttMarker_message_object_witness:
  "map_of [(js ''Latitude'', JNumber (Fin 2395 (-2))), (js ''Longitude'', JNumber (Fin 12093 (-2)))] (js ''0'') = None \<and>
   map_of [(js ''Latitude'', JNumber (Fin 2395 (-2))), (js ''Longitude'', JNumber (Fin 12093 (-2)))] (js ''1'') = None \<and>
   map_of [(js ''Latitude'', JNumber (Fin 2395 (-2))), (js ''Longitude'', JNumber (Fin 12093 (-2)))] (js ''2'') = None \<and>
   surface (ostate (mqttMarker (\<lambda>_. True)
     (JObject [(js ''Latitude'', JNumber (Fin 2395 (-2))), (js ''Longitude'', JNumber (Fin 12093 (-2)))]) connected_session)) =
   surface connected_session @
     [AddMarker (Pinned 0) (JArray [JNumber NaN, JNumber NaN]) (Some pin_title) (Some (js ''<h3>undefined</h3>''))
        (Some (Icon marker_icon)),
      OpenPopup (Pinned 0)]"
proof -
  have k: "map_of [(js ''Latitude'', JNumber (Fin 2395 (-2))), (js ''Longitude'', JNumber (Fin 12093 (-2)))] (js ''0'') = None"
    "map_of [(js ''Latitude'', JNumber (Fin 2395 (-2))), (js ''Longitude'', JNumber (Fin 12093 (-2)))] (js ''1'') = None"
    "map_of [(js ''Latitude'', JNumber (Fin 2395 (-2))), (js ''Longitude'', JNumber (Fin 12093 (-2)))] (js ''2'') = None"
    by simp_all
  have n: "next_pin connected_session = 0" and i: "myIcon connected_session = Some (Icon marker_icon)"
    by (simp_all add: next_pin_def connected_session_def)
  show ?thesis using mqttMarker_message_object [OF k, of "\<lambda>_. True" connected_session] k n i
    by (simp add: ostate_calls del: calls.simps)
qed

lemma reachable_failed_session: "reachable (\<lambda>_. True) failed_session"
proof -
  let ?s = "(ostate (ngOnInit (\<lambda>_. True) initial_session))\<lparr>initialised := True\<rparr>"
  have r1: "reachable (\<lambda>_. True) ?s"
    by (rule reachable.step [OF reachable.start]) (rule session_step.init, simp add: initial_session_def)
  have "conn ?s = Connecting"
    by (simp add: ngOnInit_def create_map_def add_now_marker_def set_icons_def initial_session_def)
  then have "session_step (\<lambda>_. True) ?s (?s\<lparr>conn := ConnectFailed\<rparr>)" by (rule session_step.connect_fail)
  with r1 show ?thesis unfolding failed_session_def by (rule reachable.step)
qed

lemma failed_connection_is_final_witness:
  "reachable (\<lambda>_. True) failed_session \<and> conn failed_session = ConnectFailed \<and>
   (session_step (\<lambda>_. True))\<^sup>*\<^sup>* failed_session (ostate (getMarker (\<lambda>_. True) failed_session)) \<and>
   conn (ostate (getMarker (\<lambda>_. True) failed_session)) = ConnectFailed \<and>
   pending (ostate (getMarker (\<lambda>_. True) failed_session)) = [] \<and>
   polylines (surface (ostate (getMarker (\<lambda>_. True) failed_session))) = polylines (surface failed_session) \<and>
   sendMessage (ostate (getMarker (\<lambda>_. True) failed_session)) =
     Exc InvalidState (ostate (getMarker (\<lambda>_. True) failed_session))"
proof -
  have c: "conn failed_session = ConnectFailed" by (simp add: failed_session_def)
  have "session_step (\<lambda>_. True) failed_session (ostate (getMarker (\<lambda>_. True) failed_session))"
    by (rule session_step.click_getMarker) (simp_all add: failed_session_def ngOnInit_def create_map_def
        add_now_marker_def set_icons_def initial_session_def)
  then have st: "(session_step (\<lambda>_. True))\<^sup>*\<^sup>* failed_session (ostate (getMarker (\<lambda>_. True) failed_session))"
    by blast
  show ?thesis using failed_connection_is_final [OF reachable_failed_session c st] reachable_failed_session c st
    by simp
qed

lemma non_object_payload_witness:
  "json_parse (js ''[23.95,120.93]'') = Some (JArray [JNumber (Fin 2395 (-2)), JNumber (Fin 12093 (-2))]) \<and>
   (\<forall>ps. JArray [JNumber (Fin 2395 (-2)), JNumber (Fin 12093 (-2))] \<noteq> JObject ps) \<and>
   onMessageArrived (\<lambda>_. True) (js ''[23.95,120.93]'') connected_session =
     getLine (\<lambda>_. True) JUndefined JUndefined
       (connected_session\<lparr>messages := JString (js ''[23.95,120.93]''),
          mqttData := JArray [JNumber (Fin 2395 (-2)), JNumber (Fin 12093 (-2))]\<rparr>)"
proof -
  have j: "json_parse (js ''[23.95,120.93]'') = Some (JArray [JNumber (Fin 2395 (-2)), JNumber (Fin 12093 (-2))])"
    by code_simp
  have o: "\<forall>ps. JArray [JNumber (Fin 2395 (-2)), JNumber (Fin 12093 (-2))] \<noteq> JObject ps" by simp
  show ?thesis using non_object_payload [OF j o, of "\<lambda>_. True" connected_session] j o by simp
qed

end
