(* ===== verification/Icons.thy ===== *)
theory Icons
  imports Session
begin

text \<open>
  The marker icon. \<open>ngOnInit\<close> makes \<open>myIcon\<close> with \<open>L.icon\<close> (lines 66--73) and
  stores it as Leaflet's default marker icon (line 74, \<open>set_icons\<close>) before it
  creates any marker. \<open>getMarker\<close>, \<open>mqttMarker\<close> and the current-position marker
  pass \<open>icon: this.myIcon\<close>; \<open>gpsMarker\<close>'s callback passes no options, so its marker
  takes the default icon, which is the same icon only because of line 74. The
  invariant \<open>icon_inv\<close> holds in every reachable state (rule induction over
  \<open>session_step\<close>, with \<open>session_inv\<close> for the state before initialisation).
\<close>

section \<open>The invariant\<close>

text \<open>Once the component holds its icon, it is the icon of \<open>L.icon\<close>, Leaflet's default
  marker icon is the same, and every marker created so far carries it.\<close>

definition icon_inv :: "'z map_component_scheme \<Rightarrow> bool" where
  "icon_inv s \<longleftrightarrow>
     (myIcon s \<noteq> None \<longrightarrow>
        myIcon s = Some (Icon marker_icon) \<and> marker_default_icon s = myIcon s \<and>
        set (marker_icons (surface s)) \<subseteq> {myIcon s})"

text \<open>The session after a geolocation answer at \<open>(23.95, 120.93)\<close> on the connected
  session.\<close>

definition gps_fix_session :: session where
  "gps_fix_session =
     (ostate (gpsMarker_callback (\<lambda>_. True) (Fin 2395 (-2)) (Fin 12093 (-2))
        (connected_session\<lparr>gps_requests := Suc 0\<rparr>)))\<lparr>gps_requests := 0\<rparr>"

section \<open>Every event keeps it\<close>

lemma marker_icons_takeWhile: "set (marker_icons (takeWhile P cs)) \<subseteq> set (marker_icons cs)"
proof -
  have "marker_icons cs = marker_icons (takeWhile P cs) @ marker_icons (dropWhile P cs)"
    by (simp flip: marker_icons_append)
  then show ?thesis by (metis Un_upper1 set_append)
qed

lemma icon_inv_calls:
  assumes "icon_inv s" and "set (marker_icons cs) \<subseteq> {myIcon s}"
  shows "icon_inv (s\<lparr>surface := surface s @ takeWhile lib cs\<rparr>)"
  using assms marker_icons_takeWhile [of lib cs] by (auto simp: icon_inv_def)

lemma marker_icons_line_calls [simp]: "marker_icons (line_calls p q) = []"
  by (simp add: line_calls_def)

lemma icon_inv_step:
  assumes "session_step lib s t" and "session_inv s" and "icon_inv s"
  shows "icon_inv t"
  using assms
proof (induction rule: session_step.induct)
  case (init s)
  then have "surface s = []" by (simp add: session_inv_def)
  with init show ?case
    using marker_icons_takeWhile [of lib "[AddMarker NowMarker (JArray [JNumber zero, JNumber zero])
      (Some now_title) (Some now_popup) (Some (Icon marker_icon))]"]
    by (auto simp: ngOnInit_eq icon_inv_def)
next
  case (deliver s p ps)
  then show ?case
    using marker_icons_takeWhile [of lib "line_calls _ _"]
    by (auto simp: handle_publish_eq disconnect_def onMessageArrived_def getLine_eq Let_def
        icon_inv_def split: option.split sum.split)
next
  case (click_getMarker s)
  then show ?case by (simp add: getMarker_def ostate_calls icon_inv_calls del: calls.simps takeWhile.simps)
next
  case (click_sendMessage s)
  then show ?case by (simp add: sendMessage_eq icon_inv_def)
next
  case (call_mqttMarker s d)
  then show ?case
    by (simp add: mqttMarker_def ostate_calls icon_inv_calls del: calls.simps takeWhile.simps split: sum.split)
next
  case (gps_position s k la lo)
  then show ?case by (auto simp: gpsMarker_callback_def call_def icon_inv_def)
next
  case (destroy s)
  then show ?case by (simp add: ngOnDestroy_def unsubscribe_def icon_inv_def)
qed (simp_all add: icon_inv_def onConnectSuccess_def subscribe_def disconnect_def)

lemma reachable_icon_inv: "reachable lib s \<Longrightarrow> icon_inv s"
proof (induction rule: reachable.induct)
  case start
  then show ?case by (simp add: icon_inv_def initial_session_def)
next
  case (step s t)
  then show ?case using reachable_session_inv icon_inv_step by blast
qed

section \<open>All markers look alike\<close>

text \<open>
  C10. Once \<open>ngOnInit\<close> has made the icon (it did not throw in \<open>L.map\<close> or the tile
  layer), Leaflet's default marker icon is that icon and every marker on the map
  carries it: the current-position marker and those of \<open>getMarker\<close> and
  \<open>mqttMarker\<close>, which pass it, and the marker of \<open>gpsMarker\<close>, which passes no icon
  and takes the default that line 74 set.
\<close>

theorem markers_carry_icon:
  assumes "reachable lib s" and "myIcon s \<noteq> None"
  shows "marker_default_icon s = Some (Icon marker_icon) \<and>
         (\<forall>ic \<in> set (marker_icons (surface s)). ic = Some (Icon marker_icon))"
  using reachable_icon_inv [OF assms(1)] assms(2) by (auto simp: icon_inv_def)

section \<open>Witness\<close>

lemma reachable_gps_fix_session: "reachable (\<lambda>_. True) gps_fix_session"
proof -
  have "session_step (\<lambda>_. True) connected_session (connected_session\<lparr>gps_requests := Suc 0\<rparr>)"
    using session_step.click_gpsMarker [of connected_session "\<lambda>_. True"]
    by (simp add: connected_session_def initial_session_def)
  moreover have "session_step (\<lambda>_. True) (connected_session\<lparr>gps_requests := Suc 0\<rparr>) gps_fix_session"
    unfolding gps_fix_session_def by (rule session_step.gps_position) simp
  ultimately show ?thesis by (blast intro: reachable.step reachable_connected_session_all)
qed

lemma markers_carry_icon_witness:
  "reachable (\<lambda>_. True) gps_fix_session \<and> myIcon gps_fix_session \<noteq> None \<and>
   marker_icons (surface gps_fix_session) = [Some (Icon marker_icon), Some (Icon marker_icon)] \<and>
   marker_default_icon gps_fix_session = Some (Icon marker_icon)"
proof -
  have m: "myIcon gps_fix_session \<noteq> None"
    by (simp add: gps_fix_session_def gpsMarker_callback_def connected_session_def)
  have i: "marker_icons (surface gps_fix_session) = [Some (Icon marker_icon), Some (Icon marker_icon)]"
    by (simp add: gps_fix_session_def gpsMarker_callback_def connected_session_def initial_session_def)
  show ?thesis using markers_carry_icon [OF reachable_gps_fix_session m] reachable_gps_fix_session m i
    by blast
qed

end
