(* ===== verification/Zoom.thy ===== *)
theory Zoom
  imports Session
begin

text \<open>
  The zoom levels the component sets: 16 when \<open>ngOnInit\<close> creates the map (line 28)
  and 17 in \<open>getLine\<close> (line 133). The invariant \<open>zoom_inv\<close> holds in every reachable
  state (rule induction over \<open>session_step\<close>), so every level set lies within the
  tile layer's \<open>maxZoom\<close> of 20 (line 33).
\<close>

section \<open>The invariant\<close>

text \<open>Every zoom level set so far is one the source writes: 16 (\<open>L.map\<close>) or 17
  (\<open>setZoom\<close> in \<open>getLine\<close>).\<close>

definition zoom_inv :: "'z map_component_scheme \<Rightarrow> bool" where
  "zoom_inv s \<longleftrightarrow> list_all (\<lambda>c. zoom_of c \<in> {None, Some (Fin 16 0), Some (Fin 17 0)}) (surface s)"

section \<open>Every event keeps it\<close>

lemma list_all_takeWhile: "list_all P cs \<Longrightarrow> list_all P (takeWhile Q cs)"
  by (induction cs) auto

lemma zoom_inv_calls:
  "zoom_inv s \<Longrightarrow> list_all (\<lambda>c. zoom_of c \<in> {None, Some (Fin 16 0), Some (Fin 17 0)}) cs \<Longrightarrow>
   zoom_inv (s\<lparr>surface := surface s @ takeWhile lib cs\<rparr>)"
  by (simp add: zoom_inv_def list_all_takeWhile)

lemma zoom_inv_step:
  assumes "session_step lib s t" and "zoom_inv s"
  shows "zoom_inv t"
  using assms
proof (induction rule: session_step.induct)
  case (init s)
  then show ?case
    by (auto simp: ngOnInit_eq zoom_inv_def list_all_takeWhile)
next
  case (deliver s p ps)
  then show ?case
    by (auto simp: handle_publish_eq disconnect_def onMessageArrived_def getLine_eq Let_def line_calls_def
        zoom_inv_def list_all_takeWhile split: option.split sum.split)
next
  case (click_getMarker s)
  then show ?case by (simp add: getMarker_def ostate_calls zoom_inv_calls del: calls.simps takeWhile.simps)
next
  case (click_sendMessage s)
  then show ?case by (simp add: sendMessage_eq zoom_inv_def)
next
  case (call_mqttMarker s d)
  then show ?case by (simp add: mqttMarker_def ostate_calls zoom_inv_calls del: calls.simps takeWhile.simps split: sum.split)
next
  case (gps_position s k la lo)
  then show ?case by (simp add: gpsMarker_callback_def call_def zoom_inv_def)
next
  case (destroy s)
  then show ?case by (simp add: ngOnDestroy_def unsubscribe_def zoom_inv_def)
qed (simp_all add: zoom_inv_def onConnectSuccess_def subscribe_def disconnect_def)

text \<open>
  C22. Every zoom level the component sets, at creation and on every fix, lies between 0
  and 20, the \<open>maxZoom\<close> of its tile layer (line 33): the view never asks for tiles
  the layer does not serve.
\<close>

theorem zoom_within_tile_max:
  assumes "reachable lib s" and "c \<in> set (surface s)" and "zoom_of c = Some z"
  shows "\<exists>m e. z = Fin m e \<and> 0 \<le> dec_value m e \<and> dec_value m e \<le> 20"
proof -
  have "zoom_inv s"
    using assms(1)
    by (induction rule: reachable.induct) (simp add: zoom_inv_def initial_session_def, blast intro: zoom_inv_step)
  with assms(2,3) have "z = Fin 16 0 \<or> z = Fin 17 0" by (auto simp: zoom_inv_def list_all_iff)
  then show ?thesis by (auto simp: dec_value_def)
qed

section \<open>Witness\<close>

lemma zoom_within_tile_max_witness:
  "reachable (\<lambda>_. True) connected_session \<and>
   CreateMap (Fin 239494324 (-7), Fin 1209289277 (-7)) (Fin 16 0) \<in> set (surface connected_session) \<and>
   zoom_of (CreateMap (Fin 239494324 (-7), Fin 1209289277 (-7)) (Fin 16 0)) = Some (Fin 16 0) \<and>
   (\<exists>m e. Fin 16 0 = Fin m e \<and> 0 \<le> dec_value m e \<and> dec_value m e \<le> 20)"
proof -
  have m: "CreateMap (Fin 239494324 (-7), Fin 1209289277 (-7)) (Fin 16 0) \<in> set (surface connected_session)"
    by (simp add: connected_session_def)
  have z: "zoom_of (CreateMap (Fin 239494324 (-7), Fin 1209289277 (-7)) (Fin 16 0)) = Some (Fin 16 0)" by simp
  show ?thesis using zoom_within_tile_max [OF reachable_connected_session_all m z] reachable_connected_session_all m z
    by blast
qed

end
