(* ===== verification/JsonRoundtrip.thy ===== *)
theory JsonRoundtrip
  imports JsonNumber
begin

text \<open>
  \<open>JSON.parse\<close> inverts \<open>JSON.stringify\<close> on every value that survives serialisation
  unchanged: no \<open>undefined\<close> (dropped or turned into \<open>null\<close>), finite numbers in
  canonical form (non-finite numbers become \<open>null\<close>), and objects without repeated
  keys (a repeated key is merged by \<open>put_member\<close>), the predicate \<open>json_wf\<close>.
  The proof goes up the serialiser: a code unit written by QuoteJSONString
  (\<open>escape_unit\<close>, the \<open>\uXXXX\<close> escape through \<open>hex4\<close>) is read back by
  \<open>parse_chars\<close>, so is a whole string (\<open>parse_chars_quote_units\<close>), and by
  induction on the value every serialised text is read back by \<open>parse_value\<close> with
  any fuel at least its length, whatever follows it, provided it cannot continue a
  number (\<open>stringify_parses_back\<close>); \<open>json_parse_stringify\<close> is the resulting
  round trip through the two library calls of the component. The same induction reads
  an object text that repeats keys (\<open>object_text\<close>): \<open>JSON.parse\<close> builds the object
  member by member (\<open>put_members\<close>), and the last value of a key wins
  (\<open>map_of_put_members\<close>, \<open>json_parse_object_text\<close>).
\<close>

section \<open>Values that survive serialisation\<close>

text \<open>A value that \<open>JSON.stringify\<close> writes without loss.\<close>

fun json_wf :: "jsval \<Rightarrow> bool" where
  "json_wf JUndefined = False"
| "json_wf JNull = True"
| "json_wf (JBool b) = True"
| "json_wf (JNumber x) = (canonical x \<and> is_finite x)"
| "json_wf (JString s) = True"
| "json_wf (JArray vs) = (\<forall>v \<in> set vs. json_wf v)"
| "json_wf (JObject ps) = (distinct (map fst ps) \<and> (\<forall>kv \<in> set ps. json_wf (snd kv)))"

text \<open>The first code unit of a serialised value: not white space and not a closing bracket.\<close>

definition value_start :: "jstring \<Rightarrow> bool" where
  "value_start t \<longleftrightarrow> (\<exists>c u. t = c # u \<and> \<not> is_json_ws c \<and> c \<noteq> 0x5D \<and> c \<noteq> 0x7D)"

text \<open>\<open>t\<close> is read back as \<open>v\<close> from any input it begins, with any fuel at least its length.\<close>

definition parses_back :: "jsval \<Rightarrow> jstring \<Rightarrow> bool" where
  "parses_back v t \<longleftrightarrow> value_start t \<and>
     (\<forall>r n. stops_number r \<longrightarrow> length t \<le> n \<longrightarrow> parse_value n (t @ r) = Some (v, r))"

text \<open>The same for one member \<open>"k":t\<close> of an object.\<close>

definition member_back :: "jstring \<times> jsval \<Rightarrow> jstring \<Rightarrow> bool" where
  "member_back kv m \<longleftrightarrow> (\<exists>t. m = quote (fst kv) @ 0x3A # t \<and> parses_back (snd kv) t)"

text \<open>The object \<open>JSON.parse\<close> builds from the members of an object text, in order:
  each member is added by \<open>put_member\<close> (CreateDataProperty), so a repeated key keeps
  its first position and takes its last value.\<close>

definition put_members :: "(jstring \<times> jsval) list \<Rightarrow> (jstring \<times> jsval) list \<Rightarrow> (jstring \<times> jsval) list" where
  "put_members acc ps = foldl (\<lambda>acc (k, v). put_member acc k v) acc ps"

text \<open>An object text with the members \<open>ps\<close> in this order, each value written as
  \<open>JSON.stringify\<close> writes it; unlike the output of \<open>JSON.stringify\<close> it may repeat a
  key, as a text produced by another program may.\<close>

definition object_text :: "(jstring \<times> jsval) list \<Rightarrow> jstring" where
  "object_text ps =
     0x7B # join_comma (map (\<lambda>(k, v). quote k @ 0x3A # (case stringify v of None \<Rightarrow> js ''null'' | Some t \<Rightarrow> t)) ps)
     @ [0x7D]"

section \<open>The \<open>\uXXXX\<close> escape\<close>

lemma uint_nibble:
  "uint (take_bit 4 (drop_bit n c) :: 16 word) = uint c div 2 ^ n mod 16"
proof -
  have "uint c mod 65536 = uint c"
    using uint_lt2p [of c] by (simp add: mod_pos_pos_trivial)
  then show ?thesis
    by (simp only: unsigned_drop_bit_eq unsigned_take_bit_eq) (simp add: take_bit_eq_mod drop_bit_eq_div)
qed

lemma nibble_lt: "(take_bit 4 (w :: 16 word)) < 16"
  by (simp add: take_bit_eq_mod word_mod_less_divisor)

lemma hex_char:
  fixes d :: "16 word"
  assumes "d < 16"
  shows "is_hex_digit (if d < 10 then 0x30 + d else 0x57 + d)"
    and "hex_value (if d < 10 then 0x30 + d else 0x57 + d) = uint d"
proof -
  have u: "uint d < 16" using assms by (simp add: word_less_def)
  show "is_hex_digit (if d < 10 then 0x30 + d else 0x57 + d)"
    using assms by (auto simp: is_hex_digit_def is_digit_def word_le_def word_less_def uint_add_ge0 uint_plus_if')
  show "hex_value (if d < 10 then 0x30 + d else 0x57 + d) = uint d"
    using assms by (auto simp: hex_value_def is_digit_def digit_value_def word_le_def word_less_def uint_plus_if')
qed

lemma nibbles:
  assumes "0 \<le> (x::int)" "x < 65536"
  shows "((x div 4096 mod 16 * 16 + x div 256 mod 16) * 16 + x div 16 mod 16) * 16 + x mod 16 = x"
proof -
  have d1: "x div 256 = x div 16 div 16" by (simp add: zdiv_zmult2_eq [symmetric])
  have d2: "x div 4096 = x div 256 div 16" by (simp add: zdiv_zmult2_eq [symmetric])
  have "x div 4096 < 16" using assms by simp
  moreover have "0 \<le> x div 4096" using assms by simp
  ultimately have m: "x div 4096 mod 16 = x div 4096" by simp
  have e1: "x = x div 16 * 16 + x mod 16" by simp
  have e2: "x div 16 = x div 256 * 16 + x div 16 mod 16" using d1 by simp
  have e3: "x div 256 = x div 4096 * 16 + x div 256 mod 16" using d2 by simp
  define q1 q2 q3 r0 r1 r2 r3 where "q1 = x div 16" "q2 = x div 256" "q3 = x div 4096"
    "r0 = x mod 16" "r1 = x div 16 mod 16" "r2 = x div 256 mod 16" "r3 = x div 4096 mod 16"
  have "x = q1 * 16 + r0" unfolding q1_q2_q3_r0_r1_r2_r3_def by (fact e1)
  moreover have "q1 = q2 * 16 + r1" unfolding q1_q2_q3_r0_r1_r2_r3_def by (fact e2)
  moreover have "q2 = q3 * 16 + r2" unfolding q1_q2_q3_r0_r1_r2_r3_def by (fact e3)
  moreover have "r3 = q3" unfolding q1_q2_q3_r0_r1_r2_r3_def by (fact m)
  ultimately have "((r3 * 16 + r2) * 16 + r1) * 16 + r0 = x" by (simp add: algebra_simps)
  then show ?thesis unfolding q1_q2_q3_r0_r1_r2_r3_def .
qed

lemma hex_value_nibble:
  "hex_value (if take_bit 4 (drop_bit n c) < 10 then 0x30 + take_bit 4 (drop_bit n c)
              else 0x57 + take_bit 4 (drop_bit n c)) = uint (c :: 16 word) div 2 ^ n mod 16"
  using hex_char(2) [OF nibble_lt [of "drop_bit n c"]] uint_nibble [of n c] by simp

lemma is_hex_nibble:
  "is_hex_digit (if take_bit 4 (drop_bit n c) < 10 then 0x30 + take_bit 4 (drop_bit n c)
                 else 0x57 + take_bit 4 (drop_bit n (c :: 16 word)))"
  using hex_char(1) [OF nibble_lt [of "drop_bit n c"]] .

lemma hex4_read:
  "list_all is_hex_digit (hex4 c) \<and> word_of_int (radix_value 16 hex_value 0 (hex4 c)) = c"
proof -
  have "radix_value 16 hex_value 0 (hex4 c) =
        ((uint c div 4096 mod 16 * 16 + uint c div 256 mod 16) * 16 + uint c div 16 mod 16) * 16 + uint c mod 16"
    by (simp only: hex4_def Let_def list.map radix_value.simps hex_value_nibble) simp
  also have "\<dots> = uint c" by (rule nibbles) (use uint_lt2p [of c] in simp_all)
  finally have r: "radix_value 16 hex_value 0 (hex4 c) = uint c" .
  have h: "list_all is_hex_digit (hex4 c)"
    unfolding hex4_def Let_def list.map by (simp only: list.pred_inject is_hex_nibble simp_thms)
  show ?thesis by (simp only: r h word_of_int_uint simp_thms)
qed

section \<open>Strings\<close>

lemma parse_chars_raw:
  assumes "0x20 \<le> c" "c \<noteq> 0x22" "c \<noteq> 0x5C"
  shows "parse_chars (c # r) = prepend c (parse_chars r)"
  using assms by (simp add: leD)

lemma parse_chars_escape:
  "escape_char e = Some d \<Longrightarrow> parse_chars (0x5C # e # r) = prepend d (parse_chars r)"
  by (auto simp: escape_char_def)

lemma parse_chars_hex4: "parse_chars (0x5C # 0x75 # hex4 c @ r) = prepend c (parse_chars r)"
  using hex4_read [of c] by (simp add: hex4_def Let_def)

lemma parse_chars_escape_unit:
  "parse_chars (escape_unit c @ r) = prepend c (parse_chars r)"
  unfolding escape_unit_def
  by (simp add: parse_chars_escape parse_chars_hex4 escape_char_def parse_chars_raw not_less
           del: parse_chars.simps(2))

lemma lead_trail_raw:
  assumes "is_lead c \<or> is_trail c"
  shows "parse_chars (c # r) = prepend c (parse_chars r)"
proof (rule parse_chars_raw)
  from assms show "0x20 \<le> c" by (auto simp: is_lead_def is_trail_def word_le_nat_alt)
  from assms show "c \<noteq> 0x22" and "c \<noteq> 0x5C" by (auto simp: is_lead_def is_trail_def)
qed

lemma parse_chars_close: "parse_chars (0x22 # r) = Some ([], r)"
  by simp

lemma parse_chars_quote_units:
  "parse_chars (quote_units s @ 0x22 # r) = Some (s, r)"
proof (induction s rule: quote_units.induct)
  case 1
  show ?case by simp
next
  case (2 c)
  show ?case by (simp add: parse_chars_escape_unit parse_chars_close prepend_def del: parse_chars.simps(2))
next
  case (3 c d t)
  then show ?case
    by (simp add: parse_chars_escape_unit parse_chars_close lead_trail_raw prepend_def del: parse_chars.simps(2))
qed

section \<open>Values\<close>

lemma skip_ws_start: "\<not> is_json_ws c \<Longrightarrow> skip_ws (c # r) = c # r"
  by (simp add: skip_ws_def)

lemma skip_ws_punct [simp]:
  "skip_ws (0x2C # r) = 0x2C # r" "skip_ws (0x5D # r) = 0x5D # r" "skip_ws (0x7D # r) = 0x7D # r"
  "skip_ws (0x3A # r) = 0x3A # r" "skip_ws (0x22 # r) = 0x22 # r"
  "skip_ws (0x5B # r) = 0x5B # r" "skip_ws (0x7B # r) = 0x7B # r"
  by (simp_all add: skip_ws_def is_json_ws_def)

lemma join_comma_Cons: "ts \<noteq> [] \<Longrightarrow> join_comma (t # ts) = t @ 0x2C # join_comma ts"
  by (cases ts) simp_all

lemma value_start_join:
  assumes "list_all value_start ts" "ts \<noteq> []"
  shows "value_start (join_comma ts @ r)"
  using assms by (cases ts rule: join_comma.cases) (auto simp: value_start_def)

lemma put_member_new: "k \<notin> fst ` set ps \<Longrightarrow> put_member ps k v = ps @ [(k, v)]"
  by (simp add: put_member_def)

lemma parse_value_literals:
  "parse_value (Suc f) (js ''null'' @ r) = Some (JNull, r)"
  "parse_value (Suc f) (js ''true'' @ r) = Some (JBool True, r)"
  "parse_value (Suc f) (js ''false'' @ r) = Some (JBool False, r)"
  by (simp_all add: skip_ws_def is_json_ws_def)

lemma parse_value_string: "parse_value (Suc f) (quote s @ r) = Some (JString s, r)"
  by (simp add: quote_def parse_chars_quote_units)

lemma parse_elements_join:
  assumes "list_all2 parses_back vs ts" "ts \<noteq> []" "length (join_comma ts) < n"
  shows "parse_elements n acc (join_comma ts @ 0x5D # r) = Some (acc @ vs, r)"
  using assms
proof (induction vs ts arbitrary: acc n rule: list_all2_induct)
  case Nil
  then show ?case by simp
next
  case (Cons v vs u us)
  from Cons.prems(2) obtain m where n: "n = Suc m" by (cases n) auto
  show ?case
  proof (cases "us = []")
    case True
    with Cons.hyps(2) have "vs = []" by simp
    moreover have "parse_value m (u @ 0x5D # r) = Some (v, 0x5D # r)"
      using Cons.hyps(1) Cons.prems(2) True n by (simp add: parses_back_def)
    ultimately show ?thesis using True n by simp
  next
    case False
    have "parse_value m (u @ 0x2C # join_comma us @ 0x5D # r) = Some (v, 0x2C # join_comma us @ 0x5D # r)"
      using Cons.hyps(1) Cons.prems(2) False n by (simp add: parses_back_def join_comma_Cons)
    moreover have "parse_elements m (acc @ [v]) (join_comma us @ 0x5D # r) = Some (acc @ [v] @ vs, r)"
      using Cons.IH [OF False] Cons.prems(2) False n by (simp add: join_comma_Cons)
    ultimately show ?thesis using False n by (simp add: join_comma_Cons)
  qed
qed

lemma parse_member_step:
  assumes "parses_back v t" "length t \<le> j" "stops_number x"
  shows "parse_members (Suc j) acc (quote k @ 0x3A # t @ x) =
           (case skip_ws x of [] \<Rightarrow> None
            | e # r \<Rightarrow> if e = 0x2C then parse_members j (put_member acc k v) r
                      else if e = 0x7D then Some (put_member acc k v, r) else None)"
proof -
  have "parse_chars (quote_units k @ 0x22 # 0x3A # t @ x) = Some (k, 0x3A # t @ x)"
    by (rule parse_chars_quote_units)
  moreover have "parse_value j (t @ x) = Some (v, x)" using assms(1-3) by (simp add: parses_back_def)
  ultimately show ?thesis by (simp add: quote_def)
qed

lemma put_members_distinct:
  "distinct (map fst (acc @ ps)) \<Longrightarrow> put_members acc ps = acc @ ps"
proof (induction ps arbitrary: acc)
  case Nil
  then show ?case by (simp add: put_members_def)
next
  case (Cons kv ps)
  obtain k v where kv: "kv = (k, v)" by (cases kv)
  with Cons.prems have "k \<notin> fst ` set acc" by auto
  with Cons kv show ?case by (simp add: put_members_def put_member_new)
qed

lemma map_of_put_member: "map_of (put_member ps k v) = (map_of ps)(k \<mapsto> v)"
proof -
  have upd: "map_of (map (\<lambda>(k', v'). if k' = k then (k', v) else (k', v')) qs) x =
               (if x = k then map_option (\<lambda>_. v) (map_of qs k) else map_of qs x)" for qs x
    by (induction qs) auto
  show ?thesis
  proof (cases "k \<in> fst ` set ps")
    case True
    then have "map_of ps k \<noteq> None" by (simp add: map_of_eq_None_iff)
    with True show ?thesis by (auto simp: put_member_def fun_eq_iff upd)
  next
    case False
    then have "map_of ps k = None" by (simp add: map_of_eq_None_iff)
    with False show ?thesis by (auto simp: put_member_def map_of_append map_add_def fun_eq_iff split: option.split)
  qed
qed

text \<open>With repeated keys the last value of a key wins.\<close>

lemma map_of_put_members: "map_of (put_members acc ps) = map_of acc ++ map_of (rev ps)"
proof (induction ps arbitrary: acc)
  case Nil
  then show ?case by (simp add: put_members_def)
next
  case (Cons kv ps)
  obtain k v where kv: "kv = (k, v)" by (cases kv)
  have "map_of (put_members acc (kv # ps)) = map_of (put_member acc k v) ++ map_of (rev ps)"
    using Cons.IH kv by (simp add: put_members_def)
  then show ?case using kv
    by (auto simp: map_of_put_member map_of_append map_add_def fun_eq_iff split: option.split)
qed

lemma parse_members_fold:
  assumes "list_all2 member_back ps ms" "ms \<noteq> []" "length (join_comma ms) < n"
  shows "parse_members n acc (join_comma ms @ 0x7D # r) = Some (put_members acc ps, r)"
  using assms
proof (induction ps ms arbitrary: acc n rule: list_all2_induct)
  case Nil
  then show ?case by simp
next
  case (Cons kv ps m ms)
  obtain k v where kv: "kv = (k, v)" by (cases kv)
  from Cons.hyps(1) kv obtain t where m: "m = quote k @ 0x3A # t" and pb: "parses_back v t"
    by (auto simp: member_back_def)
  from Cons.prems(2) obtain j where n: "n = Suc j" by (cases n) auto
  have lt: "length t \<le> j" using Cons.prems(2) n m by (cases ms) (simp_all add: quote_def join_comma_Cons)
  have step: "put_members acc (kv # ps) = put_members (put_member acc k v) ps"
    using kv by (simp add: put_members_def)
  show ?case
  proof (cases "ms = []")
    case True
    with Cons.hyps(2) have "ps = []" by simp
    then show ?thesis using True n m step parse_member_step [OF pb lt, of "0x7D # r"]
      by (simp add: put_members_def)
  next
    case False
    have "parse_members j (put_member acc k v) (join_comma ms @ 0x7D # r) = Some (put_members (put_member acc k v) ps, r)"
      using Cons.IH [OF False] Cons.prems(2) False n m by (simp add: join_comma_Cons)
    then show ?thesis
      using False n m step parse_member_step [OF pb lt, of "0x2C # join_comma ms @ 0x7D # r"]
      by (simp add: join_comma_Cons)
  qed
qed

lemma parses_back_intro:
  assumes "value_start t"
    and "\<And>f r. stops_number r \<Longrightarrow> length t \<le> Suc f \<Longrightarrow> parse_value (Suc f) (t @ r) = Some (v, r)"
  shows "parses_back v t"
  unfolding parses_back_def
proof (intro conjI allI impI)
  fix r n assume "stops_number r" "length t \<le> n"
  moreover from assms(1) have "0 < length t" by (auto simp: value_start_def)
  ultimately show "parse_value n (t @ r) = Some (v, r)" using assms(2) by (cases n) auto
qed (fact assms(1))

lemma parses_back_start: "list_all2 parses_back vs ts \<Longrightarrow> list_all value_start ts"
  by (induction rule: list_all2_induct) (simp_all add: parses_back_def)

lemma member_back_start: "list_all2 member_back ps ms \<Longrightarrow> list_all value_start ms"
  by (induction rule: list_all2_induct) (auto simp: member_back_def quote_def value_start_def is_json_ws_def)

lemma parse_value_array:
  assumes "list_all2 parses_back vs ts" "length (join_comma ts) < f"
  shows "parse_value (Suc f) ((0x5B # join_comma ts @ [0x5D]) @ r) = Some (JArray vs, r)"
proof (cases "ts = []")
  case True
  with assms(1) show ?thesis by simp
next
  case False
  from value_start_join [OF parses_back_start [OF assms(1)] False, of "0x5D # r"]
  obtain c u where eq: "join_comma ts @ 0x5D # r = c # u" and c: "\<not> is_json_ws c" "c \<noteq> 0x5D"
    by (auto simp: value_start_def)
  have "parse_elements f [] (c # u) = Some (vs, r)"
    using parse_elements_join [OF assms(1) False assms(2), of "[]" r] eq by simp
  then show ?thesis using eq c by (simp add: skip_ws_start)
qed

lemma parse_value_object_fold:
  assumes "list_all2 member_back ps ms" "length (join_comma ms) < f"
  shows "parse_value (Suc f) ((0x7B # join_comma ms @ [0x7D]) @ r) = Some (JObject (put_members [] ps), r)"
proof (cases "ms = []")
  case True
  with assms(1) show ?thesis by (simp add: put_members_def)
next
  case False
  from value_start_join [OF member_back_start [OF assms(1)] False, of "0x7D # r"]
  obtain c u where eq: "join_comma ms @ 0x7D # r = c # u" and c: "\<not> is_json_ws c" "c \<noteq> 0x7D"
    by (auto simp: value_start_def)
  have "parse_members f [] (c # u) = Some (put_members [] ps, r)"
    using parse_members_fold [OF assms(1) False assms(2), of "[]" r] eq by simp
  then show ?thesis using eq c by (simp add: skip_ws_start)
qed

lemma parse_value_object:
  assumes "list_all2 member_back ps ms" "length (join_comma ms) < f" "distinct (map fst ps)"
  shows "parse_value (Suc f) ((0x7B # join_comma ms @ [0x7D]) @ r) = Some (JObject ps, r)"
  using parse_value_object_fold [OF assms(1,2)] put_members_distinct [of "[]" ps] assms(3) by simp

lemma stringify_elements:
  assumes "\<And>v. v \<in> set vs \<Longrightarrow> json_wf v \<Longrightarrow> \<exists>t. stringify v = Some t \<and> parses_back v t"
    and "\<forall>v \<in> set vs. json_wf v"
  shows "list_all2 parses_back vs (map (\<lambda>v. case stringify v of None \<Rightarrow> js ''null'' | Some t \<Rightarrow> t) vs)"
  using assms
proof (induction vs)
  case Nil
  then show ?case by simp
next
  case (Cons v vs)
  from Cons.prems obtain t where "stringify v = Some t" "parses_back v t" by auto
  moreover have "list_all2 parses_back vs (map (\<lambda>v. case stringify v of None \<Rightarrow> js ''null'' | Some t \<Rightarrow> t) vs)"
    using Cons by simp
  ultimately show ?case by simp
qed

lemma stringify_members:
  assumes "\<And>k v. (k, v) \<in> set ps \<Longrightarrow> json_wf v \<Longrightarrow> \<exists>t. stringify v = Some t \<and> parses_back v t"
    and "\<forall>kv \<in> set ps. json_wf (snd kv)"
  shows "list_all2 member_back ps
           (concat (map (\<lambda>(k, v). case stringify v of None \<Rightarrow> [] | Some t \<Rightarrow> [quote k @ 0x3A # t]) ps))"
  using assms
proof (induction ps)
  case Nil
  then show ?case by simp
next
  case (Cons kv ps)
  obtain k v where kv: "kv = (k, v)" by (cases kv)
  from Cons.prems kv obtain t where t: "stringify v = Some t" and "parses_back v t"
    using Cons.prems(1) [of k v] by auto
  then have "member_back (k, v) (quote k @ 0x3A # t)" by (simp add: member_back_def)
  moreover have "list_all2 member_back ps
           (concat (map (\<lambda>(k, v). case stringify v of None \<Rightarrow> [] | Some t \<Rightarrow> [quote k @ 0x3A # t]) ps))"
    using Cons.prems by (intro Cons.IH) auto
  ultimately show ?case using kv t by simp
qed

lemma stringify_parses_back: "json_wf v \<Longrightarrow> \<exists>t. stringify v = Some t \<and> parses_back v t"
proof (induction v)
  case JUndefined
  then show ?case by simp
next
  case JNull
  have "parses_back JNull (js ''null'')"
    by (rule parses_back_intro, simp add: value_start_def is_json_ws_def, rule parse_value_literals)
  then show ?case by simp
next
  case (JBool b)
  have "parses_back (JBool True) (js ''true'')"
    by (rule parses_back_intro, simp add: value_start_def is_json_ws_def, rule parse_value_literals)
  moreover have "parses_back (JBool False) (js ''false'')"
    by (rule parses_back_intro, simp add: value_start_def is_json_ws_def, rule parse_value_literals)
  ultimately show ?case by (cases b) simp_all
next
  case (JNumber x)
  then obtain m e where x: "x = Fin m e" and c: "canonical x" by (cases x) auto
  obtain h u where "number_to_string x = h # u" and "h = 0x2D \<or> is_digit h"
    using parse_number_head [OF parse_number_to_string [OF c [unfolded x] stops_number_Cons(4)]] x by auto
  then have "value_start (number_to_string x)" by (auto simp: value_start_def is_json_ws_def is_digit_def)
  then have "parses_back (JNumber x) (number_to_string x)"
  proof (rule parses_back_intro)
    fix f r assume "stops_number r"
    then show "parse_value (Suc f) (number_to_string x @ r) = Some (JNumber x, r)"
      using JNumber by (intro parse_value_number) simp_all
  qed
  then show ?case using x by simp
next
  case (JString s)
  have "parses_back (JString s) (quote s)"
    by (rule parses_back_intro, simp add: value_start_def is_json_ws_def quote_def, rule parse_value_string)
  then show ?case by simp
next
  case (JArray vs)
  let ?ts = "map (\<lambda>v. case stringify v of None \<Rightarrow> js ''null'' | Some t \<Rightarrow> t) vs"
  have ts: "list_all2 parses_back vs ?ts" using JArray by (intro stringify_elements) simp_all
  have "parses_back (JArray vs) (0x5B # join_comma ?ts @ [0x5D])"
  proof (rule parses_back_intro)
    show "value_start (0x5B # join_comma ?ts @ [0x5D])" by (simp add: value_start_def is_json_ws_def)
    fix f r assume "length (0x5B # join_comma ?ts @ [0x5D]) \<le> Suc f"
    then show "parse_value (Suc f) ((0x5B # join_comma ?ts @ [0x5D]) @ r) = Some (JArray vs, r)"
      by (intro parse_value_array [OF ts]) simp
  qed
  then show ?case by simp
next
  case (JObject ps)
  let ?ms = "concat (map (\<lambda>(k, v). case stringify v of None \<Rightarrow> [] | Some t \<Rightarrow> [quote k @ 0x3A # t]) ps)"
  have ms: "list_all2 member_back ps ?ms"
    using JObject by (intro stringify_members) (auto intro: snds.intros)
  have "parses_back (JObject ps) (0x7B # join_comma ?ms @ [0x7D])"
  proof (rule parses_back_intro)
    show "value_start (0x7B # join_comma ?ms @ [0x7D])" by (simp add: value_start_def is_json_ws_def)
    fix f r assume "length (0x7B # join_comma ?ms @ [0x7D]) \<le> Suc f"
    then show "parse_value (Suc f) ((0x7B # join_comma ?ms @ [0x7D]) @ r) = Some (JObject ps, r)"
      using JObject.prems by (intro parse_value_object [OF ms]) simp_all
  qed
  then show ?case by simp
qed

lemma object_text_members:
  assumes "list_all (\<lambda>kv. json_wf (snd kv)) ps"
  shows "list_all2 member_back ps
           (map (\<lambda>(k, v). quote k @ 0x3A # (case stringify v of None \<Rightarrow> js ''null'' | Some t \<Rightarrow> t)) ps)"
  using assms
proof (induction ps)
  case Nil
  then show ?case by simp
next
  case (Cons kv ps)
  obtain k v where kv: "kv = (k, v)" by (cases kv)
  from Cons.prems kv obtain t where t: "stringify v = Some t" and "parses_back v t"
    using stringify_parses_back by fastforce
  then have "member_back (k, v) (quote k @ 0x3A # t)" by (simp add: member_back_def)
  with Cons kv t show ?case by simp
qed

lemma object_text_parses_back:
  assumes "list_all (\<lambda>kv. json_wf (snd kv)) ps"
  shows "parses_back (JObject (put_members [] ps)) (object_text ps)"
proof -
  let ?ms = "map (\<lambda>(k, v). quote k @ 0x3A # (case stringify v of None \<Rightarrow> js ''null'' | Some t \<Rightarrow> t)) ps"
  have ms: "list_all2 member_back ps ?ms" using assms by (rule object_text_members)
  show ?thesis unfolding object_text_def
  proof (rule parses_back_intro)
    show "value_start (0x7B # join_comma ?ms @ [0x7D])" by (simp add: value_start_def is_json_ws_def)
    fix f r assume "length (0x7B # join_comma ?ms @ [0x7D]) \<le> Suc f"
    then show "parse_value (Suc f) ((0x7B # join_comma ?ms @ [0x7D]) @ r) = Some (JObject (put_members [] ps), r)"
      by (intro parse_value_object_fold [OF ms]) simp
  qed
qed

lemma parses_back_json_parse: "parses_back v t \<Longrightarrow> json_parse t = Some v"
proof -
  assume "parses_back v t"
  then have "parse_value (length t) (t @ []) = Some (v, [])"
    unfolding parses_back_def by (simp only: stops_number_Cons(4) order_refl simp_thms)
  then show ?thesis by (simp add: json_parse_def skip_ws_def)
qed

lemma json_parse_object_text:
  "list_all (\<lambda>kv. json_wf (snd kv)) ps \<Longrightarrow> json_parse (object_text ps) = Some (JObject (put_members [] ps))"
  by (rule parses_back_json_parse [OF object_text_parses_back])

section \<open>The round trip\<close>

text \<open>
  The round trip of the two JSON library calls: every value without \<open>undefined\<close>,
  with finite canonical numbers and without repeated object keys is serialised by
  \<open>JSON.stringify\<close>, and \<open>JSON.parse\<close> of the text gives the value back. The
  example has escaped characters, a surrogate pair, a lone trail surrogate and numbers
  in three output forms.
\<close>

theorem json_parse_stringify:
  assumes "json_wf v"
  shows "\<exists>t. stringify v = Some t \<and> json_parse t = Some v"
  using stringify_parses_back [OF assms] parses_back_json_parse by blast

theorem json_parse_stringify_example:
  "json_wf (JObject [(js ''name'', JString [0x22, 0x0A, 0xD83D, 0xDE00, 0xDC00]),
                     (js ''fix'', JArray [JNumber (Fin 23952 (-3)), JNumber (Fin (-5) 21), JNull, JBool True])]) \<and>
   (\<exists>t. stringify (JObject [(js ''name'', JString [0x22, 0x0A, 0xD83D, 0xDE00, 0xDC00]),
                     (js ''fix'', JArray [JNumber (Fin 23952 (-3)), JNumber (Fin (-5) 21), JNull, JBool True])]) = Some t \<and>
        json_parse t = Some (JObject [(js ''name'', JString [0x22, 0x0A, 0xD83D, 0xDE00, 0xDC00]),
                     (js ''fix'', JArray [JNumber (Fin 23952 (-3)), JNumber (Fin (-5) 21), JNull, JBool True])]))"
proof
  show wf: "json_wf (JObject [(js ''name'', JString [0x22, 0x0A, 0xD83D, 0xDE00, 0xDC00]),
                     (js ''fix'', JArray [JNumber (Fin 23952 (-3)), JNumber (Fin (-5) 21), JNull, JBool True])])"
    by simp
  from json_parse_stringify [OF wf]
  show "\<exists>t. stringify (JObject [(js ''name'', JString [0x22, 0x0A, 0xD83D, 0xDE00, 0xDC00]),
                     (js ''fix'', JArray [JNumber (Fin 23952 (-3)), JNumber (Fin (-5) 21), JNull, JBool True])]) = Some t \<and>
        json_parse t = Some (JObject [(js ''name'', JString [0x22, 0x0A, 0xD83D, 0xDE00, 0xDC00]),
                     (js ''fix'', JArray [JNumber (Fin 23952 (-3)), JNumber (Fin (-5) 21), JNull, JBool True])])" .
qed

end
