(* ===== verification/Spec2Isabelle.thy ===== *)
theory Spec2Isabelle
  imports Tracker Icons Zoom JsonRoundtrip
begin

text \<open>
  \<^bold>\<open>A verification of the live-tracking map page\<close>
  (src/map Linux/src/app/map/map.component.ts, the Angular component \<open>MapComponent\<close>).

  \<^bold>\<open>The program.\<close> One component owns a Leaflet map, a current-position marker, and a
  paho-mqtt client subscribed to the topic \<open>MapL\<close>. Each message on the topic is parsed
  as JSON and its \<open>Latitude\<close>/\<open>Longitude\<close> are handed to \<open>getLine\<close>, which draws a
  red segment from the last point (the fields \<open>lastX\<close>/\<open>lastY\<close>, \<open>0, 0\<close> meaning "no
  fix yet"), moves the marker, zooms and pans. Buttons of the page place markers
  (\<open>getMarker\<close>, \<open>mqttMarker\<close>, \<open>gpsMarker\<close>) and publish four demonstration points on
  the same topic (\<open>sendMessage\<close>); \<open>getStreetLine\<close> draws road-following routes and
  has no caller; \<open>ngOnDestroy\<close> unsubscribes.

  \<^bold>\<open>The theories.\<close>
  \<^item> \<open>Prelude\<close>: JavaScript strings as lists of UTF-16 code units (\<open>jstring\<close>,
    \<open>js\<close>), the exceptions the code can raise (\<open>exn\<close>), and the outcome of a handler
    (\<open>outcome\<close>: \<open>Ok\<close> or \<open>Exc\<close>, both carrying the state, since a JavaScript
    exception does not undo the assignments made before it) with its sequencing
    \<open>obind\<close>.
  \<^item> \<open>JsValue\<close>: JavaScript numbers as exact decimals (\<open>jsnum\<close>), the values of
    \<open>JSON.parse\<close> (\<open>jsval\<close>), and the ECMAScript operations the component applies to
    them: \<open>to_number\<close> (\<open>Number(x)\<close>, with StringToNumber), \<open>to_str\<close>
    (string concatenation, with Number::toString), \<open>loose_eq_num\<close> (\<open>x == 0\<close>),
    \<open>get_prop\<close> and \<open>get_index\<close> (\<open>v.Latitude\<close>, \<open>data[0]\<close>).
  \<^item> \<open>Json\<close>: \<open>JSON.parse\<close> (\<open>json_parse\<close>, a recursive-descent parser with fuel)
    and \<open>JSON.stringify\<close> (\<open>stringify\<close>); \<open>parse_value_fuel\<close> shows that a
    successful parse needs no more fuel than the code units it consumes, so the fuel
    \<open>json_parse\<close> gives (the text's length) never rejects a valid text
    (\<open>json_parse_iff\<close>).
  \<^item> \<open>JsonNumber\<close>: Number::toString read back by the JSON number grammar gives the
    number again (\<open>parse_number_to_string\<close>, all four output forms), and the inbound
    wire format of the specification, \<open>fix_message\<close>, is decoded to the fix it
    encodes (\<open>json_parse_fix_message\<close>).
  \<^item> \<open>JsonRoundtrip\<close>: \<open>JSON.parse\<close> inverts \<open>JSON.stringify\<close> on every value that
    serialises without loss (\<open>json_wf\<close>: no \<open>undefined\<close>, finite canonical numbers,
    no repeated keys). QuoteJSONString's escapes, \<open>\uXXXX\<close> through \<open>hex4\<close>
    included, are read back by \<open>parse_chars\<close>; by induction on the value, every
    serialised text is read back by \<open>parse_value\<close> with any fuel at least its
    length, whatever follows it (\<open>stringify_parses_back\<close>).
  \<^item> \<open>Component\<close>: the component's fields (\<open>map_component\<close>, lines 11--20) and the map
    library's interface. Leaflet is not modelled; each call the component makes is a
    \<open>map_call\<close> appended to the log \<open>surface\<close>, and whether the library accepts a call
    or throws is a parameter \<open>lib\<close> of every handler, so every theorem holds for every
    behaviour of the library unless it says otherwise. \<open>create_map\<close> and
    \<open>add_now_marker\<close> are the map calls of \<open>ngOnInit\<close>, \<open>set_icons\<close> its icon
    (lines 65--74): \<open>myIcon\<close> made by \<open>L.icon\<close> (\<open>marker_icon\<close>) and Leaflet's
    default marker icon \<open>L.Marker.prototype.options.icon\<close>, a field of the model's
    state (\<open>marker_default_icon\<close>). Every \<open>AddMarker\<close> call records the icon the
    marker is created with.
  \<^item> \<open>Tracker\<close>: \<open>getLine\<close> (lines 111--142) and \<open>getStreetLine\<close> (145--180) with the
    sentinel test \<open>at_sentinel\<close> (line 112); the lemmas give every branch, for every
    library. Beside them, the specification's tracker (\<open>ingestFix\<close>, a state with
    \<open>hasFix\<close>) and its rendering (\<open>spec_render\<close>), the simulation \<open>sim\<close> between
    the two states, and the refinement of \<open>ingestFix\<close> by \<open>getLine\<close> over single
    steps (\<open>getLine_refines_ingestFix\<close>) and runs of fixes (\<open>run_getLine\<close>,
    \<open>getLine_path_connected\<close>).
  \<^item> \<open>Session\<close>: the component at run time with its MQTT client and broker. The record
    \<open>session\<close> extends the component's fields with the connection, subscriptions,
    publications and the broker's queue for the client; each method is a definition
    (\<open>ngOnInit\<close>, \<open>onConnectSuccess\<close>, \<open>onMessageArrived\<close>, \<open>getMarker\<close>,
    \<open>sendMessage\<close>, \<open>mqttMarker\<close>, \<open>gpsMarker_callback\<close>, \<open>ngOnDestroy\<close>) and the
    inductive relation \<open>session_step\<close> has one rule per event of the page. paho-mqtt's
    dispatcher, which disconnects the client when \<open>onMessageArrived\<close> throws, is
    \<open>handle_publish\<close>. The invariant \<open>session_inv\<close> holds in every reachable state
    (rule induction over \<open>session_step\<close>).
  \<^item> \<open>Zoom\<close>: the invariant \<open>zoom_inv\<close>, by rule induction: every zoom level
    set is 16 or 17, within the tile layer's \<open>maxZoom\<close> of 20.
  \<^item> \<open>Icons\<close>: the invariant \<open>icon_inv\<close> of the marker icon, by rule induction: once
    \<open>ngOnInit\<close> has made the icon, every marker carries it, \<open>gpsMarker\<close>'s marker
    through the default icon of line 74.
  \<^item> This theory: the properties that span the session, the parser and the tracker.
    \<open>device_run\<close> is the tracked device publishing a sequence of fixes in the wire
    format of the specification, each delivered before the next; \<open>latlng_lib\<close> is a
    map library that throws, as Leaflet's \<open>LatLng\<close> does, on a coordinate that is not
    a number. The lemmas cover the device's fixes drawn end to end, the echo of the
    demonstration broadcast (the click, then the delivery of its first message), the
    teardown followed by a delivered fix, any serialised value delivered intact
    (\<open>device_value_received\<close>), repeated keys and repeated deliveries.

  \<^bold>\<open>What is shown.\<close> \<open>getLine\<close> refines the specification's tracker on every fix not
  at \<open>(0, 0)\<close> (a fix at the origin passes the sentinel test and is read as "no fix
  yet"), and the path it draws is connected, with the differences the code has (a
  zero-length first segment, zoom and pan on the first fix). Every branch of each handler is characterised, errors included:
  what is written before a throw stays written. Across the session: a lost or failed
  connection is final; a malformed payload disconnects the client; at most one current-position
  marker exists; \<open>ngOnDestroy\<close> leaves the subscription and the connection in place,
  so a fix published after the teardown is still delivered, drawn and stored
  (\<open>destroyed_component_keeps_tracking\<close>); and the component's own demonstration
  broadcast comes back to it: clicking the button and delivering the first message
  stores \<open>undefined\<close> as the last point before the first fix
  (\<open>demo_echo_corrupts_tracker\<close>), and with a library that throws on undefined
  coordinates, as Leaflet does, disconnects the client and ends tracking for good
  (\<open>demo_echo_ends_tracking\<close>).
  End to end, fixes published by the tracked device are decoded exactly (a round trip
  through \<open>JSON.stringify\<close> and \<open>JSON.parse\<close>) and drawn as \<open>getLine\<close> on those
  fixes in order, in a run of the session (\<open>device_fixes_drawn\<close>); more generally, any value a device
  serialises without loss is what the component holds in \<open>mqttData\<close> once the
  message is delivered (\<open>json_parse_stringify\<close>, \<open>device_value_received\<close>); a
  payload that repeats a coordinate key is drawn at the key's last value
  (\<open>repeated_key_last_value\<close>), and a fix delivered twice only adds a zero-length
  segment (\<open>duplicate_fix_zero_segment\<close>).
  The development also shows where the code
  leaves its declared types and intended inputs: \<open>lastX\<close>/\<open>lastY\<close> stay numbers only
  when the payload's coordinates are numbers; a JSON object without coordinates is
  stored rather than rejected, and of the JSON values that are not objects only
  \<open>null\<close> throws, the others reaching \<open>getLine\<close> as \<open>(undefined, undefined)\<close>
  (\<open>non_object_payload\<close>); \<open>mqttMarker\<close> given the decoded message object places a
  marker at \<open>(NaN, NaN)\<close>. \<open>getStreetLine\<close> and \<open>getLine\<close> share one tracker
  (they leave the same last point), every zoom level set stays within the tile
  layer's \<open>maxZoom\<close> of 20, and all markers carry the component's icon (\<open>markers_carry_icon\<close>).

  \<^bold>\<open>Bounds and fuel.\<close> The only loop that is not structural is the JSON parser's
  recursion through nested values: \<open>json_parse\<close> runs it with fuel equal to the length
  of the text, since every call but the last consumes at least one code unit. All
  other recursion is structural over lists or terminates by a measure
  (\<open>norm_dec\<close>).

  \<^bold>\<open>Not modelled.\<close> The imports and the \<open>@Component\<close> decorator (lines 1--10),
  which only register the component with Angular; Leaflet and leaflet-routing-machine themselves (only their
  interface, and of \<open>L.Marker.prototype\<close> only the default icon); the HTML
  template, the styles and the icon images; the console output of the callbacks
  (lines 44, 49, 58, 59); \<open>ngZone.run\<close> (line 55), which runs the handler at once
  and only adds Angular's change detection; IEEE-754 rounding and negative zero
  (numbers are exact decimals, which is exact for the literals and payloads the
  component handles but not for arithmetic, which the component does not do);
  prototype properties other than those of plain objects and arrays; the MQTT
  network below the broker's delivery order (QoS 0, one broker, in-order delivery);
  the browser's geolocation beyond "an answer arrives later". The parser reads a JSON
  number as the exact decimal it writes, so a number that underflows or overflows an
  IEEE double (\<open>1e-400\<close>, which JavaScript reads as 0 and the sentinel test then
  accepts; \<open>1e400\<close>, which JavaScript reads as \<open>Infinity\<close>) is not modelled as
  JavaScript reads it. paho's decoding of the payload bytes is not modelled: the
  payload is a valid string of UTF-16 code units, so a payload that is not valid
  UTF-8 is outside the model. When a handler throws, the model's paho disconnects and
  drops everything still queued for the client (\<open>disconnect\<close>); whether paho still
  dispatches the other messages of the same WebSocket frame is not modelled.
\<close>

section \<open>Definitions for the properties across components\<close>

text \<open>The tracked device publishing the fixes \<open>ps\<close> one after the other on \<open>MapL\<close>, in the
  wire format of the specification (\<open>fix_message\<close>), each one delivered by the broker and
  dispatched by the client (\<open>handle_publish\<close>) before the next is published.\<close>

fun device_run :: "map_lib \<Rightarrow> (jsnum \<times> jsnum) list \<Rightarrow> session \<Rightarrow> session" where
  "device_run lib [] s = s"
| "device_run lib (p # ps) s = device_run lib ps (handle_publish lib (fix_message (fst p) (snd p)) s)"

text \<open>A map library that, as Leaflet's \<open>LatLng\<close> constructor, throws on a coordinate
  that does not convert to a number, and accepts everything else.\<close>

definition latlng_lib :: map_lib where
  "latlng_lib c =
     (case c of
        AddPolyline pts st \<Rightarrow> list_all (\<lambda>(a, b). to_number a \<noteq> NaN \<and> to_number b \<noteq> NaN) pts
      | AddRoutingControl pts \<Rightarrow> list_all (\<lambda>(a, b). to_number a \<noteq> NaN \<and> to_number b \<noteq> NaN) pts
      | AddRoutingPlan pts \<Rightarrow> list_all (\<lambda>(a, b). to_number a \<noteq> NaN \<and> to_number b \<noteq> NaN) pts
      | SetLatLng r (a, b) \<Rightarrow> a \<noteq> NaN \<and> b \<noteq> NaN
      | PanTo (a, b) \<Rightarrow> a \<noteq> NaN \<and> b \<noteq> NaN
      | _ \<Rightarrow> True)"

section \<open>The tracked device drives the tracker\<close>

lemma handle_publish_parsed:
  assumes "json_parse p = Some v"
  shows "mqttData (handle_publish lib p s) = v \<and> messages (handle_publish lib p s) = JString p"
proof -
  have "mqttData (ostate (onMessageArrived lib p s)) = v \<and> messages (ostate (onMessageArrived lib p s)) = JString p"
    using assms by (auto simp: onMessageArrived_def Let_def ostate_getLine_fields split: sum.split)
  then show ?thesis by (cases "onMessageArrived lib p s") (simp_all add: handle_publish_def disconnect_def)
qed

lemma handle_fix_accepted:
  assumes "canonical a" "is_finite a" "canonical b" "is_finite b" and "\<forall>c. lib c"
  shows "handle_publish lib (fix_message a b) s =
           s\<lparr>messages := JString (fix_message a b),
             mqttData := JObject [(js ''Latitude'', JNumber a), (js ''Longitude'', JNumber b)],
             surface := surface s @ line_calls (seg_start s (JNumber a) (JNumber b)) (JNumber a, JNumber b),
             lastX := JNumber a, lastY := JNumber b\<rparr>"
  using assms(5) by (simp add: handle_publish_eq onMessageArrived_fix_message [OF assms(1-4)] getLine_eq
      seg_start_def Let_def list_all_iff)

lemma handle_fix_getLine:
  assumes "canonical a" "is_finite a" "canonical b" "is_finite b" and "\<forall>c. lib c"
  shows "handle_publish lib (fix_message a b) s =
           (ostate (getLine lib (JNumber a) (JNumber b) s))\<lparr>messages := JString (fix_message a b),
              mqttData := JObject [(js ''Latitude'', JNumber a), (js ''Longitude'', JNumber b)]\<rparr>"
  using assms(5) by (simp add: handle_fix_accepted [OF assms] getLine_eq Let_def list_all_iff)

lemma run_getLine_fields:
  "run_getLine lib ps (s\<lparr>messages := m, mqttData := d\<rparr>) = (run_getLine lib ps s)\<lparr>messages := m, mqttData := d\<rparr>"
  by (induction ps arbitrary: s) (simp_all add: ostate_getLine_fields)

lemma device_run_run_getLine:
  assumes "\<forall>c. lib c" and "list_all (\<lambda>(a, b). canonical a \<and> is_finite a \<and> canonical b \<and> is_finite b) ps"
  shows "\<exists>m d. device_run lib ps s = (run_getLine lib ps s)\<lparr>messages := m, mqttData := d\<rparr>"
  using assms(2)
proof (induction ps arbitrary: s)
  case Nil
  show ?case by (intro exI [of _ "messages s"] exI [of _ "mqttData s"]) simp
next
  case (Cons p ps)
  obtain a b where p: "p = (a, b)" by (cases p)
  with Cons.prems have h: "canonical a" "is_finite a" "canonical b" "is_finite b"
    and t: "list_all (\<lambda>(a, b). canonical a \<and> is_finite a \<and> canonical b \<and> is_finite b) ps" by simp_all
  let ?X = "ostate (getLine lib (JNumber a) (JNumber b) s)"
  let ?D = "JObject [(js ''Latitude'', JNumber a), (js ''Longitude'', JNumber b)]"
  obtain m d where e: "device_run lib ps (?X\<lparr>messages := JString (fix_message a b), mqttData := ?D\<rparr>) =
      (run_getLine lib ps (?X\<lparr>messages := JString (fix_message a b), mqttData := ?D\<rparr>))\<lparr>messages := m, mqttData := d\<rparr>"
    using Cons.IH [OF t] by blast
  have "device_run lib (p # ps) s = (run_getLine lib (p # ps) s)\<lparr>messages := m, mqttData := d\<rparr>"
    unfolding p device_run.simps run_getLine.simps fst_conv snd_conv handle_fix_getLine [OF h assms(1)] e
    by (simp add: run_getLine_fields)
  then show ?case by blast
qed

lemma device_run_steps:
  assumes "conn s = Connected" "topic \<in> set (subscriptions s)" "pending s = []" and "\<forall>c. lib c"
    and "list_all (\<lambda>(a, b). canonical a \<and> is_finite a \<and> canonical b \<and> is_finite b) ps"
  shows "(session_step lib)\<^sup>*\<^sup>* s (device_run lib ps s) \<and> conn (device_run lib ps s) = Connected"
  using assms(1-3,5)
proof (induction ps arbitrary: s)
  case Nil
  then show ?case by simp
next
  case (Cons p ps)
  obtain a b where p: "p = (a, b)" by (cases p)
  with Cons.prems(4) have h: "canonical a" "is_finite a" "canonical b" "is_finite b"
    and t: "list_all (\<lambda>(a, b). canonical a \<and> is_finite a \<and> canonical b \<and> is_finite b) ps" by simp_all
  let ?s1 = "handle_publish lib (fix_message a b) s"
  have "(session_step lib)\<^sup>*\<^sup>* s ?s1" using Cons.prems(1-3) by (rule deliver_publish)
  moreover have "conn ?s1 = Connected" "topic \<in> set (subscriptions ?s1)" "pending ?s1 = []"
    using Cons.prems(1-3) by (simp_all add: handle_fix_accepted [OF h assms(4)])
  ultimately show ?case using Cons.IH [of ?s1] t p by (auto intro: rtranclp_trans)
qed

text \<open>
  C8. End to end, the session implements the tracker: from a connected, subscribed
  session with nothing pending, and a map library that accepts the calls, the tracked
  device publishing its fixes \<open>ps\<close> (finite numbers in canonical form) as
  \<open>{"Latitude": a, "Longitude": b}\<close> on \<open>MapL\<close>, each delivered in turn, is a run of
  the session that stays connected and leaves the map and the last point that
  \<open>getLine(a, b)\<close> run on \<open>ps\<close> in order leaves; with the refinement lemmas of
  \<open>Tracker\<close> this is the specification's path.
\<close>

theorem device_fixes_drawn:
  assumes "conn s = Connected" "js ''MapL'' \<in> set (subscriptions s)" "pending s = []" "\<forall>c. lib c"
    and "list_all (\<lambda>(a, b). canonical a \<and> is_finite a \<and> canonical b \<and> is_finite b) ps"
  shows "(session_step lib)\<^sup>*\<^sup>* s (device_run lib ps s) \<and> conn (device_run lib ps s) = Connected \<and>
         surface (device_run lib ps s) = surface (run_getLine lib ps s) \<and>
         lastX (device_run lib ps s) = lastX (run_getLine lib ps s) \<and>
         lastY (device_run lib ps s) = lastY (run_getLine lib ps s)"
proof -
  have "topic \<in> set (subscriptions s)" using assms(2) by (simp add: topic_def)
  from device_run_steps [OF assms(1) this assms(3-5)]
  have "(session_step lib)\<^sup>*\<^sup>* s (device_run lib ps s) \<and> conn (device_run lib ps s) = Connected" .
  moreover obtain m d where "device_run lib ps s = (run_getLine lib ps s)\<lparr>messages := m, mqttData := d\<rparr>"
    using device_run_run_getLine [OF assms(4,5)] by blast
  ultimately show ?thesis by simp
qed

text \<open>
  C9. A device that publishes \<open>JSON.stringify(v)\<close> on \<open>MapL\<close>, for a value \<open>v\<close> that
  survives serialisation, has the component hold exactly \<open>v\<close> in \<open>mqttData\<close> and the
  text in \<open>messages\<close> once the broker delivers it, whatever the map library does with
  the coordinates.
\<close>

theorem device_value_received:
  assumes "json_wf v" "conn s = Connected" "js ''MapL'' \<in> set (subscriptions s)" "pending s = []"
  shows "\<exists>p t. stringify v = Some p \<and> (session_step lib)\<^sup>*\<^sup>* s t \<and> mqttData t = v \<and> messages t = JString p"
proof -
  from json_parse_stringify [OF assms(1)] obtain p where p: "stringify v = Some p" "json_parse p = Some v"
    by blast
  have "topic \<in> set (subscriptions s)" using assms(3) by (simp add: topic_def)
  then have "(session_step lib)\<^sup>*\<^sup>* s (handle_publish lib p s)"
    by (rule deliver_publish [OF assms(2) _ assms(4)])
  with p handle_publish_parsed [OF p(2)] show ?thesis by blast
qed

text \<open>
  C24. A payload whose object repeats \<open>Latitude\<close> or \<open>Longitude\<close> (a text no
  \<open>JSON.stringify\<close> produces, but one a device writing its JSON by hand may send) is
  drawn at the last value of each key; \<open>mqttData\<close> holds each key once, at its first
  position, with its last value.
\<close>

theorem repeated_key_last_value:
  assumes "list_all (\<lambda>kv. json_wf (snd kv)) ps"
  shows "onMessageArrived lib (object_text ps) s =
           getLine lib (case map_of (rev ps) (js ''Latitude'') of None \<Rightarrow> JUndefined | Some v \<Rightarrow> v)
                       (case map_of (rev ps) (js ''Longitude'') of None \<Rightarrow> JUndefined | Some v \<Rightarrow> v)
             (s\<lparr>messages := JString (object_text ps), mqttData := JObject (put_members [] ps)\<rparr>)"
  using onMessageArrived_object [OF json_parse_object_text [OF assms], of lib s] by (simp add: map_of_put_members)

text \<open>
  C25. A fix message delivered twice (as an MQTT redelivery may) is decoded to the same
  object both times, and the second delivery leaves the last point, the decoded data
  and the connection as the first left them, adding one zero-length segment at the
  fix, without an error.
\<close>

theorem duplicate_fix_zero_segment:
  assumes "canonical a" "is_finite a" "canonical b" "is_finite b" and "\<forall>c. lib c"
  shows "let s1 = handle_publish lib (fix_message a b) s; s2 = handle_publish lib (fix_message a b) s1 in
         lastX s2 = lastX s1 \<and> lastY s2 = lastY s1 \<and> mqttData s2 = mqttData s1 \<and> conn s2 = conn s1 \<and>
         polylines (surface s2) = polylines (surface s1) @ [[(JNumber a, JNumber b), (JNumber a, JNumber b)]]"
  by (simp add: handle_fix_accepted [OF assms] seg_start_def line_calls_def Let_def)

section \<open>The demonstration broadcast comes back\<close>

lemma json_parse_demo_0: "json_parse (hd demo_payloads) = Some (demo_points ! 0)"
  unfolding demo_payloads_def by code_simp

text \<open>The first demonstration point has no \<open>Latitude\<close> and no \<open>Longitude\<close>: whoever
  receives it, \<open>onMessageArrived\<close> calls \<open>getLine(undefined, undefined)\<close>.\<close>

lemma onMessageArrived_demo_0:
  "onMessageArrived lib (hd demo_payloads) s =
     getLine lib JUndefined JUndefined (s\<lparr>messages := JString (hd demo_payloads), mqttData := demo_points ! 0\<rparr>)"
proof -
  have "json_parse (hd demo_payloads) = Some (JObject [(js ''x'', JNumber (Fin 23952 (-3))),
      (js ''y'', JNumber (Fin 1209272588 (-7))), (js ''name'', JString [0x7BA1, 0x7406, 0x5B78, 0x9662])])"
    using json_parse_demo_0 by (simp add: demo_points_def)
  from onMessageArrived_object [OF this] show ?thesis by (simp add: demo_points_def)
qed

text \<open>The click on the demonstration button: the four payloads are queued for the client
  itself, and nothing else changes.\<close>

lemma demo_click:
  assumes "reachable lib s" and "conn s = Connected" and "js ''MapL'' \<in> set (subscriptions s)"
    and "pending s = []" and "\<not> destroyed s"
  shows "session_step lib s (ostate (sendMessage s)) \<and> pending (ostate (sendMessage s)) = demo_payloads \<and>
         surface (ostate (sendMessage s)) = surface s \<and> lastX (ostate (sendMessage s)) = lastX s \<and>
         lastY (ostate (sendMessage s)) = lastY s"
proof -
  have "initialised s" using reachable_session_inv [OF assms(1)] assms(2) by (auto simp: session_inv_def)
  then have "session_step lib s (ostate (sendMessage s))"
    using assms(5) by (rule session_step.click_sendMessage)
  then show ?thesis using assms(2-4) by (simp add: sendMessage_eq topic_def)
qed

lemma demo_payloads_split: "demo_payloads = hd demo_payloads # tl demo_payloads"
  by (simp add: demo_payloads_def)

text \<open>
  C12. The client publishes its demonstration points on the topic it subscribes to, so the
  broker hands them back to \<open>onMessageArrived\<close>. The first one has no \<open>Latitude\<close>:
  before the first fix, whatever the map library does, the click on the demonstration
  button followed by the delivery of the first of its messages stores \<open>undefined\<close> as
  the last point.
\<close>

theorem demo_echo_corrupts_tracker:
  assumes "reachable lib s" and "conn s = Connected" and "js ''MapL'' \<in> set (subscriptions s)"
    and "pending s = []" and "\<not> destroyed s" and "at_sentinel s"
  shows "let s1 = ostate (sendMessage s); s2 = handle_publish lib (hd (pending s1)) (s1\<lparr>pending := tl (pending s1)\<rparr>) in
         session_step lib s s1 \<and> pending s1 = demo_payloads \<and> session_step lib s1 s2 \<and>
         lastX s2 = JUndefined \<and> lastY s2 = JUndefined"
proof -
  let ?s1 = "ostate (sendMessage s)"
  let ?e = "?s1\<lparr>pending := tl demo_payloads\<rparr>"
  have c: "session_step lib s ?s1" "pending ?s1 = demo_payloads" "lastX ?s1 = lastX s" "lastY ?s1 = lastY s"
    using demo_click [OF assms(1-5)] by simp_all
  have st: "session_step lib ?s1 (handle_publish lib (hd demo_payloads) ?e)"
    using c(2) demo_payloads_split by (metis session_step.deliver)
  have "at_sentinel (?e\<lparr>messages := JString (hd demo_payloads), mqttData := demo_points ! 0\<rparr>)"
    using assms(6) c(3,4) by (simp add: at_sentinel_def)
  then have "lastX (handle_publish lib (hd demo_payloads) ?e) = JUndefined \<and>
        lastY (handle_publish lib (hd demo_payloads) ?e) = JUndefined"
    by (simp add: handle_publish_eq onMessageArrived_demo_0 disconnect_def getLine_eq seg_start_def Let_def)
  with c st show ?thesis by (simp add: Let_def)
qed

text \<open>
  C13. With a map library that throws on a segment from an undefined point, as Leaflet
  does, one click on the demonstration button before the first fix ends tracking for the
  life of the page: the delivery of its first message throws in \<open>getLine\<close>, paho
  disconnects the client, and no segment is ever added to the path again.
\<close>

theorem demo_echo_ends_tracking:
  assumes "reachable lib s" and "conn s = Connected" and "js ''MapL'' \<in> set (subscriptions s)"
    and "pending s = []" and "\<not> destroyed s" and "at_sentinel s"
    and "\<And>q st. \<not> lib (AddPolyline ((JUndefined, JUndefined) # q) st)"
  shows "let s1 = ostate (sendMessage s); s2 = handle_publish lib (hd (pending s1)) (s1\<lparr>pending := tl (pending s1)\<rparr>) in
         session_step lib s s1 \<and> session_step lib s1 s2 \<and> conn s2 = Lost \<and>
         (\<forall>t. (session_step lib)\<^sup>*\<^sup>* s2 t \<longrightarrow> polylines (surface t) = polylines (surface s))"
proof -
  let ?s1 = "ostate (sendMessage s)"
  let ?e = "?s1\<lparr>pending := tl demo_payloads\<rparr>"
  let ?s2 = "handle_publish lib (hd demo_payloads) ?e"
  have c: "session_step lib s ?s1" "pending ?s1 = demo_payloads" "surface ?s1 = surface s"
    "lastX ?s1 = lastX s" "lastY ?s1 = lastY s"
    using demo_click [OF assms(1-5)] by simp_all
  have st: "session_step lib ?s1 ?s2"
    using c(2) demo_payloads_split by (metis session_step.deliver)
  have "\<not> lib (AddPolyline [(JUndefined, JUndefined), (JUndefined, JUndefined)] red_line)"
    using assms(7) by blast
  then have lost: "conn ?s2 = Lost" and surf: "surface ?s2 = surface s"
    using assms(6) c(3-5) by (simp_all add: handle_publish_eq onMessageArrived_demo_0 disconnect_def getLine_eq
        seg_start_def at_sentinel_def line_calls_def Let_def)
  have "reachable lib ?s2" using reachable.step [OF reachable.step [OF assms(1) c(1)] st] .
  then have "session_inv ?s2" by (rule reachable_session_inv)
  then have "\<forall>t. (session_step lib)\<^sup>*\<^sup>* ?s2 t \<longrightarrow> polylines (surface t) = polylines (surface s)"
    using final_run [of lib ?s2] lost surf by auto
  with c(1,2) st lost show ?thesis by (simp add: Let_def)
qed

section \<open>The teardown\<close>

text \<open>
  C16. The teardown does not stop the component: from a reachable connected state,
  \<open>ngOnDestroy\<close> leaves the client connected and subscribed, and a fix the tracked device
  then publishes is delivered to the destroyed component, which draws its segment, moves
  the marker to it and stores it, as \<open>getLine\<close> does for a live component.
\<close>

theorem destroyed_component_keeps_tracking:
  assumes "reachable lib s" and "conn s = Connected" and "js ''MapL'' \<in> set (subscriptions s)"
    and "pending s = []" and "\<not> destroyed s" and "\<forall>c. lib c"
    and "canonical a" "is_finite a" "canonical b" "is_finite b"
  shows "let d = (ostate (ngOnDestroy s))\<lparr>destroyed := True\<rparr>; t = handle_publish lib (fix_message a b) d in
         session_step lib s d \<and> (session_step lib)\<^sup>*\<^sup>* d t \<and> destroyed t \<and> conn t = Connected \<and>
         surface t = surface s @ line_calls (seg_start s (JNumber a) (JNumber b)) (JNumber a, JNumber b) \<and>
         lastX t = JNumber a \<and> lastY t = JNumber b"
proof -
  have inv: "session_inv s" using assms(1) by (rule reachable_session_inv)
  then have init: "initialised s" and sub: "set (subscriptions s) \<subseteq> {topic}"
    using assms(2) by (auto simp: session_inv_def)
  have nd: "ngOnDestroy s = Ok s" using assms(2) sub by (rule ngOnDestroy_connected)
  let ?d = "s\<lparr>destroyed := True\<rparr>"
  have st: "session_step lib s ?d" using session_step.destroy [OF init assms(5), of lib] nd by simp
  have tp: "topic \<in> set (subscriptions s)" using assms(3) by (simp add: topic_def)
  have "(session_step lib)\<^sup>*\<^sup>* ?d (handle_publish lib (fix_message a b) ?d)"
    by (rule deliver_publish) (simp_all add: assms(2,4) tp)
  with st nd show ?thesis
    by (simp add: handle_fix_accepted [OF assms(7-10,6)] seg_start_def at_sentinel_def Let_def assms(2))
qed

section \<open>Witnesses\<close>

lemma connected_session_hyps:
  "conn connected_session = Connected" "js ''MapL'' \<in> set (subscriptions connected_session)"
  "pending connected_session = []" "\<not> destroyed connected_session" "at_sentinel connected_session"
  by (simp_all add: connected_session_def initial_session_def at_sentinel_def)

lemma demo_echo_corrupts_tracker_witness:
  "let s1 = ostate (sendMessage connected_session);
       s2 = handle_publish (\<lambda>_. True) (hd (pending s1)) (s1\<lparr>pending := tl (pending s1)\<rparr>) in
   session_step (\<lambda>_. True) connected_session s1 \<and> pending s1 = demo_payloads \<and>
   session_step (\<lambda>_. True) s1 s2 \<and> lastX s2 = JUndefined \<and> lastY s2 = JUndefined"
  by (rule demo_echo_corrupts_tracker [OF reachable_connected_session_all connected_session_hyps])

lemma demo_echo_ends_tracking_witness:
  "let s1 = ostate (sendMessage connected_session);
       s2 = handle_publish latlng_lib (hd (pending s1)) (s1\<lparr>pending := tl (pending s1)\<rparr>) in
   session_step latlng_lib connected_session s1 \<and> session_step latlng_lib s1 s2 \<and> conn s2 = Lost \<and>
   (\<forall>t. (session_step latlng_lib)\<^sup>*\<^sup>* s2 t \<longrightarrow> polylines (surface t) = polylines (surface connected_session))"
proof -
  have r: "reachable latlng_lib connected_session"
    by (rule reachable_connected_session) (simp_all add: latlng_lib_def)
  have rej: "\<not> latlng_lib (AddPolyline ((JUndefined, JUndefined) # q) st)" for q st
    by (simp add: latlng_lib_def)
  show ?thesis by (rule demo_echo_ends_tracking [OF r connected_session_hyps rej])
qed

lemma device_fixes_drawn_witness:
  "(session_step (\<lambda>_. True))\<^sup>*\<^sup>* connected_session
     (device_run (\<lambda>_. True) [(Fin 2395 (-2), Fin 12093 (-2)), (Fin 2396 (-2), Fin 12093 (-2))] connected_session) \<and>
   conn (device_run (\<lambda>_. True) [(Fin 2395 (-2), Fin 12093 (-2)), (Fin 2396 (-2), Fin 12093 (-2))] connected_session) = Connected \<and>
   surface (device_run (\<lambda>_. True) [(Fin 2395 (-2), Fin 12093 (-2)), (Fin 2396 (-2), Fin 12093 (-2))] connected_session) =
     surface (run_getLine (\<lambda>_. True) [(Fin 2395 (-2), Fin 12093 (-2)), (Fin 2396 (-2), Fin 12093 (-2))] connected_session) \<and>
   lastX (device_run (\<lambda>_. True) [(Fin 2395 (-2), Fin 12093 (-2)), (Fin 2396 (-2), Fin 12093 (-2))] connected_session) =
     lastX (run_getLine (\<lambda>_. True) [(Fin 2395 (-2), Fin 12093 (-2)), (Fin 2396 (-2), Fin 12093 (-2))] connected_session) \<and>
   lastY (device_run (\<lambda>_. True) [(Fin 2395 (-2), Fin 12093 (-2)), (Fin 2396 (-2), Fin 12093 (-2))] connected_session) =
     lastY (run_getLine (\<lambda>_. True) [(Fin 2395 (-2), Fin 12093 (-2)), (Fin 2396 (-2), Fin 12093 (-2))] connected_session)"
proof -
  have l: "\<forall>c. (\<lambda>_. True) c" by simp
  have f: "list_all (\<lambda>(a, b). canonical a \<and> is_finite a \<and> canonical b \<and> is_finite b)
      [(Fin 2395 (-2), Fin 12093 (-2)), (Fin 2396 (-2), Fin 12093 (-2))]"
    by simp
  show ?thesis
    by (rule device_fixes_drawn [OF connected_session_hyps(1-3) l f])
qed

lemma destroyed_component_keeps_tracking_witness:
  "let d = (ostate (ngOnDestroy connected_session))\<lparr>destroyed := True\<rparr>;
       t = handle_publish (\<lambda>_. True) (fix_message (Fin 2395 (-2)) (Fin 12093 (-2))) d in
   session_step (\<lambda>_. True) connected_session d \<and> (session_step (\<lambda>_. True))\<^sup>*\<^sup>* d t \<and> destroyed t \<and>
   conn t = Connected \<and>
   surface t = surface connected_session @
     line_calls (seg_start connected_session (JNumber (Fin 2395 (-2))) (JNumber (Fin 12093 (-2))))
       (JNumber (Fin 2395 (-2)), JNumber (Fin 12093 (-2))) \<and>
   lastX t = JNumber (Fin 2395 (-2)) \<and> lastY t = JNumber (Fin 12093 (-2))"
proof -
  have l: "\<forall>c. (\<lambda>_. True) c" by simp
  have c: "canonical (Fin 2395 (-2))" "is_finite (Fin 2395 (-2))" "canonical (Fin 12093 (-2))" "is_finite (Fin 12093 (-2))"
    by simp_all
  show ?thesis
    by (rule destroyed_component_keeps_tracking [OF reachable_connected_session_all connected_session_hyps(1-4) l c])
qed

lemma device_value_received_witness:
  "json_wf (demo_points ! 0) \<and> conn connected_session = Connected \<and>
   js ''MapL'' \<in> set (subscriptions connected_session) \<and> pending connected_session = [] \<and>
   (\<exists>p t. stringify (demo_points ! 0) = Some p \<and> (session_step (\<lambda>_. True))\<^sup>*\<^sup>* connected_session t \<and>
      mqttData t = demo_points ! 0 \<and> messages t = JString p)"
proof -
  have wf: "json_wf (demo_points ! 0)" by (simp add: demo_points_def)
  show ?thesis using device_value_received [OF wf connected_session_hyps(1-3)] wf connected_session_hyps(1-3) by blast
qed

lemma repeated_key_last_value_witness:
  "list_all (\<lambda>kv. json_wf (snd kv))
     [(js ''Latitude'', JNumber (Fin 2395 (-2))), (js ''Longitude'', JNumber (Fin 12093 (-2))),
      (js ''Latitude'', JNumber (Fin 2396 (-2)))] \<and>
   onMessageArrived (\<lambda>_. True)
     (object_text [(js ''Latitude'', JNumber (Fin 2395 (-2))), (js ''Longitude'', JNumber (Fin 12093 (-2))),
                   (js ''Latitude'', JNumber (Fin 2396 (-2)))]) connected_session =
   getLine (\<lambda>_. True) (JNumber (Fin 2396 (-2))) (JNumber (Fin 12093 (-2)))
     (connected_session\<lparr>messages := JString (object_text [(js ''Latitude'', JNumber (Fin 2395 (-2))),
        (js ''Longitude'', JNumber (Fin 12093 (-2))), (js ''Latitude'', JNumber (Fin 2396 (-2)))]),
      mqttData := JObject [(js ''Latitude'', JNumber (Fin 2396 (-2))), (js ''Longitude'', JNumber (Fin 12093 (-2)))]\<rparr>)"
proof -
  have wf: "list_all (\<lambda>kv. json_wf (snd kv))
     [(js ''Latitude'', JNumber (Fin 2395 (-2))), (js ''Longitude'', JNumber (Fin 12093 (-2))),
      (js ''Latitude'', JNumber (Fin 2396 (-2)))]" by simp
  show ?thesis
    using repeated_key_last_value [OF wf, of "\<lambda>_. True" connected_session] wf
    by (simp add: put_members_def put_member_def)
qed

lemma duplicate_fix_zero_segment_witness:
  "canonical (Fin 2395 (-2)) \<and> is_finite (Fin 2395 (-2)) \<and> canonical (Fin 12093 (-2)) \<and> is_finite (Fin 12093 (-2)) \<and>
   (let s1 = handle_publish (\<lambda>_. True) (fix_message (Fin 2395 (-2)) (Fin 12093 (-2))) connected_session;
        s2 = handle_publish (\<lambda>_. True) (fix_message (Fin 2395 (-2)) (Fin 12093 (-2))) s1 in
    lastX s2 = JNumber (Fin 2395 (-2)) \<and> lastY s2 = JNumber (Fin 12093 (-2)) \<and> conn s2 = Connected \<and>
    polylines (surface s2) =
      [[(JNumber (Fin 2395 (-2)), JNumber (Fin 12093 (-2))), (JNumber (Fin 2395 (-2)), JNumber (Fin 12093 (-2)))],
       [(JNumber (Fin 2395 (-2)), JNumber (Fin 12093 (-2))), (JNumber (Fin 2395 (-2)), JNumber (Fin 12093 (-2)))]])"
proof -
  have c: "canonical (Fin 2395 (-2))" "is_finite (Fin 2395 (-2))" "canonical (Fin 12093 (-2))" "is_finite (Fin 12093 (-2))"
    by simp_all
  have l: "\<forall>c. (\<lambda>_. True) c" by simp
  let ?p = "fix_message (Fin 2395 (-2)) (Fin 12093 (-2))"
  let ?s1 = "handle_publish (\<lambda>_. True) ?p connected_session"
  have t: "lastX (handle_publish (\<lambda>_. True) ?p ?s1) = lastX ?s1 \<and> lastY (handle_publish (\<lambda>_. True) ?p ?s1) = lastY ?s1 \<and>
      mqttData (handle_publish (\<lambda>_. True) ?p ?s1) = mqttData ?s1 \<and> conn (handle_publish (\<lambda>_. True) ?p ?s1) = conn ?s1 \<and>
      polylines (surface (handle_publish (\<lambda>_. True) ?p ?s1)) = polylines (surface ?s1) @
        [[(JNumber (Fin 2395 (-2)), JNumber (Fin 12093 (-2))), (JNumber (Fin 2395 (-2)), JNumber (Fin 12093 (-2)))]]"
    using duplicate_fix_zero_segment [OF c l, of connected_session] by (simp only: Let_def)
  have "lastX ?s1 = JNumber (Fin 2395 (-2))" "lastY ?s1 = JNumber (Fin 12093 (-2))" "conn ?s1 = Connected"
    "polylines (surface ?s1) =
       [[(JNumber (Fin 2395 (-2)), JNumber (Fin 12093 (-2))), (JNumber (Fin 2395 (-2)), JNumber (Fin 12093 (-2)))]]"
    by (simp_all add: handle_fix_accepted [OF c l] connected_session_def initial_session_def seg_start_def
        at_sentinel_def line_calls_def)
  with t c show ?thesis by (simp only: Let_def simp_thms append_Cons append_Nil)
qed

end
